theory Spec2Isabelle
  imports Complex_Main "HOL-Library.Log_Nat"
begin

section \<open>Touch gesture layer (src/js/touch-enhancements.js)\<close>

subsection \<open>JavaScript numbers\<close>

text \<open>
  A JavaScript number is an IEEE 754 double: a finite value, one of the two infinities
  or \<open>NaN\<close>. A finite double is kept as the rational number it denotes. The
  coordinates the browser hands to the handlers (\<open>clientX\<close>, \<open>clientY\<close>, the sides of a
  bounding box) are finite doubles, and \<open>Date.now()\<close> is an integer number of
  milliseconds; the handlers below take any rational for a coordinate, so what is
  proved of them holds for every double. (Negative zero is not kept apart from zero:
  the two compare equal and print alike, and the one divisor of the file that can be
  zero, a difference of two clock readings, is \<open>+0\<close>.)
\<close>

datatype jsnum = Finite rat | PosInfinity | NegInfinity | NaN

text \<open>
  The result of an arithmetic operation is the exact result rounded to the nearest
  double, a tie going to the double with the even significand. The doubles around
  a number \<open>q\<close> with \<open>2^e \<le> |q| < 2^(e+1)\<close> are the multiples of \<open>2^(e-52)\<close> (53
  significant bits); below \<open>2^(-1022)\<close> they are the multiples of \<open>2^(-1074)\<close> (the
  subnormal numbers). A result that rounds to \<open>2^1024\<close> or beyond is an infinity.
\<close>

definition round_half_even :: "rat \<Rightarrow> int" where
  "round_half_even t =
     (let n = \<lfloor>t\<rfloor>; r = t - of_int n
      in if r < 1 / 2 then n else if r > 1 / 2 then n + 1 else if even n then n else n + 1)"

text \<open>The binary exponent \<open>e\<close> of a non-zero number: \<open>2^e \<le> |q| < 2^(e+1)\<close>.\<close>

definition exponent :: "rat \<Rightarrow> int" where
  "exponent q =
     (if \<bar>q\<bar> \<ge> 1 then bitlen \<lfloor>\<bar>q\<bar>\<rfloor> - 1 else - bitlen (\<lceil>1 / \<bar>q\<bar>\<rceil> - 1))"

text \<open>The spacing of the doubles around \<open>q\<close> (the unit in the last place).\<close>

definition ulp :: "rat \<Rightarrow> rat" where
  "ulp q = 2 powi (max (exponent q) (- 1022) - 52)"

definition round_nearest :: "rat \<Rightarrow> rat" where
  "round_nearest q = (if q = 0 then 0 else of_int (round_half_even (q / ulp q)) * ulp q)"

definition round_double :: "rat \<Rightarrow> jsnum" where
  "round_double q =
     (let r = round_nearest q
      in if r \<ge> 2 ^ 1024 then PosInfinity
         else if r \<le> - (2 ^ 1024) then NegInfinity
         else Finite r)"

text \<open>The operators the handlers use: \<open>a - b\<close>, \<open>a / b\<close>, \<open>Math.abs(a)\<close> and \<open>a > b\<close>.\<close>

fun js_sub :: "jsnum \<Rightarrow> jsnum \<Rightarrow> jsnum" where
  "js_sub (Finite a) (Finite b) = round_double (a - b)"
| "js_sub NaN v = NaN"
| "js_sub v NaN = NaN"
| "js_sub PosInfinity PosInfinity = NaN"
| "js_sub NegInfinity NegInfinity = NaN"
| "js_sub PosInfinity v = PosInfinity"
| "js_sub NegInfinity v = NegInfinity"
| "js_sub (Finite a) PosInfinity = NegInfinity"
| "js_sub (Finite a) NegInfinity = PosInfinity"

fun js_div :: "jsnum \<Rightarrow> jsnum \<Rightarrow> jsnum" where
  "js_div (Finite a) (Finite b) =
     (if b = 0 then (if a = 0 then NaN else if a > 0 then PosInfinity else NegInfinity)
      else round_double (a / b))"
| "js_div NaN v = NaN"
| "js_div v NaN = NaN"
| "js_div (Finite a) v = Finite 0"
| "js_div PosInfinity (Finite b) = (if b < 0 then NegInfinity else PosInfinity)"
| "js_div NegInfinity (Finite b) = (if b < 0 then PosInfinity else NegInfinity)"
| "js_div v w = NaN"

fun js_abs :: "jsnum \<Rightarrow> jsnum" where
  "js_abs (Finite a) = Finite \<bar>a\<bar>"
| "js_abs PosInfinity = PosInfinity"
| "js_abs NegInfinity = PosInfinity"
| "js_abs NaN = NaN"

fun js_gt :: "jsnum \<Rightarrow> jsnum \<Rightarrow> bool" where
  "js_gt (Finite a) (Finite b) = (a > b)"
| "js_gt NaN v = False"
| "js_gt v NaN = False"
| "js_gt NegInfinity v = False"
| "js_gt v PosInfinity = False"
| "js_gt PosInfinity v = True"
| "js_gt v NegInfinity = True"

subsection \<open>Touch events\<close>

text \<open>
  A touch event as the handlers read it: the position of \<open>e.touches[0]\<close> for
  \<open>touchstart\<close> and \<open>touchmove\<close>, the \<open>clientX\<close> of \<open>e.changedTouches[0]\<close> for
  \<open>touchend\<close>.
\<close>

datatype touch_event = TouchStart rat rat | TouchMove rat rat | TouchEnd rat

subsection \<open>Slider swipe: setupSliderSwipe\<close>

datatype arrow = LeftArrow | RightArrow

datatype slider_effect = Click arrow | PreventDefault

text \<open>
  The closure of \<open>setupSliderSwipe\<close> for one slider that has a \<open>.w-slider-mask\<close>
  (a slider without one gets no listener): the five \<open>let\<close> variables, whether
  \<open>querySelector\<close> found each arrow, the two attributes the handlers read and write,
  the expando property \<open>slider._touchStartTime\<close> (\<open>None\<close> is \<open>undefined\<close>; no line of
  the file assigns it), and the log of the calls made on other objects
  (\<open>arrow.click()\<close>, \<open>e.preventDefault()\<close>).
\<close>

record slider_state =
  startX :: rat
  startY :: rat
  currentX :: rat
  isDragging :: bool
  isVerticalScroll :: bool
  leftArrow :: bool
  rightArrow :: bool
  data_autoplay :: "string option"
  data_temp_autoplay :: "string option"
  touchStartTime :: "int option"
  effects :: "slider_effect list"

definition resetSliderTouch :: "slider_state \<Rightarrow> slider_state" where
  "resetSliderTouch s =
     (let s1 = s\<lparr>isDragging := False, isVerticalScroll := False\<rparr>
      in if data_temp_autoplay s1 = Some ''true''
         then s1\<lparr>data_autoplay := Some ''true'', data_temp_autoplay := None\<rparr>
         else s1)"

definition slider_touchstart :: "rat \<Rightarrow> rat \<Rightarrow> slider_state \<Rightarrow> slider_state" where
  "slider_touchstart x y s =
     (let s1 = s\<lparr>startX := x, startY := y, isDragging := True, isVerticalScroll := False\<rparr>
      in if data_autoplay s1 = Some ''true''
         then s1\<lparr>data_temp_autoplay := Some ''true'', data_autoplay := Some ''false''\<rparr>
         else s1)"

definition slider_touchmove :: "rat \<Rightarrow> rat \<Rightarrow> slider_state \<Rightarrow> slider_state" where
  "slider_touchmove x y s =
     (if \<not> isDragging s then s
      else
        let s1 = s\<lparr>currentX := x\<rparr>;
            diffX = js_abs (js_sub (Finite (currentX s1)) (Finite (startX s1)));
            diffY = js_abs (js_sub (Finite y) (Finite (startY s1)))
        in if js_gt diffY diffX \<and> js_gt diffY (Finite 10) then s1\<lparr>isVerticalScroll := True\<rparr>
           else if js_gt diffX (Finite 10) \<and> \<not> isVerticalScroll s1
                then s1\<lparr>effects := effects s1 @ [PreventDefault]\<rparr>
                else s1)"

text \<open>
  \<open>slider._touchStartTime || Date.now()\<close>: the property when it is a non-zero number,
  the clock otherwise.
\<close>

definition touchStartTime_or_now :: "slider_state \<Rightarrow> int \<Rightarrow> int" where
  "touchStartTime_or_now s now =
     (case touchStartTime s of None \<Rightarrow> now | Some t \<Rightarrow> if t = 0 then now else t)"

text \<open>
  The \<open>touchend\<close> handler; \<open>now\<close> is what \<open>Date.now()\<close> returns while the handler
  runs (both reads of the clock in one expression give the same millisecond).
\<close>

definition slider_touchend :: "int \<Rightarrow> rat \<Rightarrow> slider_state \<Rightarrow> slider_state" where
  "slider_touchend now endX s =
     (if \<not> isDragging s \<or> isVerticalScroll s then resetSliderTouch s
      else
        let diffX = js_sub (Finite endX) (Finite (startX s));
            swipeThreshold = Finite 50;
            swipeVelocityThreshold = Finite (1 / 2);
            timeDiff = js_sub (Finite (of_int now)) (Finite (of_int (touchStartTime_or_now s now)));
            velocity = js_div (js_abs diffX) timeDiff;
            s1 = (if js_gt (js_abs diffX) swipeThreshold \<or> js_gt velocity swipeVelocityThreshold
                  then (if js_gt diffX (Finite 0)
                        then (if leftArrow s
                              then s\<lparr>effects := effects s @ [Click LeftArrow]\<rparr> else s)
                        else (if rightArrow s
                              then s\<lparr>effects := effects s @ [Click RightArrow]\<rparr> else s))
                  else s)
        in resetSliderTouch s1)"

text \<open>
  The browser dispatches the events of a touch sequence in order; each comes with the
  wall-clock time (ms) at which its handler runs. Only the \<open>touchend\<close> handler reads
  the clock.
\<close>

fun slider_dispatch :: "int \<times> touch_event \<Rightarrow> slider_state \<Rightarrow> slider_state" where
  "slider_dispatch (t, TouchStart x y) s = slider_touchstart x y s"
| "slider_dispatch (t, TouchMove x y) s = slider_touchmove x y s"
| "slider_dispatch (t, TouchEnd x) s = slider_touchend t x s"

fun slider_run :: "(int \<times> touch_event) list \<Rightarrow> slider_state \<Rightarrow> slider_state" where
  "slider_run [] s = s"
| "slider_run (e # es) s = slider_run es (slider_dispatch e s)"

text \<open>The \<open>touchmove\<close> events of a slider session, each with its time and position.\<close>

definition slider_moves :: "(int \<times> rat \<times> rat) list \<Rightarrow> (int \<times> touch_event) list" where
  "slider_moves ms = map (\<lambda>(t, x, y). (t, TouchMove x y)) ms"

text \<open>
  The state in which \<open>setupSliderSwipe\<close> leaves a slider with both arrows and the given
  \<open>data-autoplay\<close> attribute.
\<close>

definition slider_init :: "string option \<Rightarrow> slider_state" where
  "slider_init autoplay =
     \<lparr>startX = 0, startY = 0, currentX = 0, isDragging = False, isVerticalScroll = False,
      leftArrow = True, rightArrow = True, data_autoplay = autoplay,
      data_temp_autoplay = None, touchStartTime = None, effects = []\<rparr>"

subsection \<open>Mobile menu swipe: setupSwipeToClose and closeMobileMenu\<close>

text \<open>
  The module-level gesture variables, the class list of the element that
  \<open>document.querySelector('.w-nav-button')\<close> returns (\<open>None\<close> when there is none), and
  the number of simulated clicks the button has received.
\<close>

record menu_state =
  touchStartX :: rat
  touchStartY :: rat
  touchEndX :: rat
  isScrolling :: bool
  menuButton :: "string list option"
  buttonClicks :: nat

definition closeMobileMenu :: "menu_state \<Rightarrow> menu_state" where
  "closeMobileMenu s =
     (case menuButton s of
        None \<Rightarrow> s
      | Some classList \<Rightarrow>
          if ''w--open'' \<in> set classList then s\<lparr>buttonClicks := buttonClicks s + 1\<rparr> else s)"

definition menu_touchstart :: "rat \<Rightarrow> rat \<Rightarrow> menu_state \<Rightarrow> menu_state" where
  "menu_touchstart x y s = s\<lparr>touchStartX := x, touchStartY := y, isScrolling := False\<rparr>"

definition menu_touchmove :: "rat \<Rightarrow> rat \<Rightarrow> menu_state \<Rightarrow> menu_state" where
  "menu_touchmove touchX touchY s =
     (if touchStartX s = 0 \<or> touchStartY s = 0 then s
      else
        let diffX = js_sub (Finite (touchStartX s)) (Finite touchX);
            diffY = js_sub (Finite (touchStartY s)) (Finite touchY)
        in if js_gt (js_abs diffY) (js_abs diffX) then s\<lparr>isScrolling := True\<rparr> else s)"

definition menu_touchend :: "rat \<Rightarrow> menu_state \<Rightarrow> menu_state" where
  "menu_touchend endX s =
     (if isScrolling s then s
      else
        let s1 = s\<lparr>touchEndX := endX\<rparr>;
            swipeDistance = js_sub (Finite (touchStartX s1)) (Finite (touchEndX s1));
            swipeThreshold = Finite 100;
            s2 = (if js_gt swipeDistance swipeThreshold then closeMobileMenu s1 else s1)
        in s2\<lparr>touchStartX := 0, touchStartY := 0, touchEndX := 0, isScrolling := False\<rparr>)"

fun menu_dispatch :: "touch_event \<Rightarrow> menu_state \<Rightarrow> menu_state" where
  "menu_dispatch (TouchStart x y) s = menu_touchstart x y s"
| "menu_dispatch (TouchMove x y) s = menu_touchmove x y s"
| "menu_dispatch (TouchEnd x) s = menu_touchend x s"

fun menu_run :: "touch_event list \<Rightarrow> menu_state \<Rightarrow> menu_state" where
  "menu_run [] s = s"
| "menu_run (e # es) s = menu_run es (menu_dispatch e s)"

text \<open>The \<open>touchmove\<close> events of a menu session, each with its position.\<close>

definition touch_moves :: "(rat \<times> rat) list \<Rightarrow> touch_event list" where
  "touch_moves ps = map (\<lambda>(x, y). TouchMove x y) ps"

text \<open>
  The condition of \<open>closeMobileMenu\<close>, read as a property of the page: the menu button
  exists and carries the class \<open>w--open\<close>.
\<close>

definition menu_is_open :: "menu_state \<Rightarrow> bool" where
  "menu_is_open s =
     (case menuButton s of None \<Rightarrow> False | Some classList \<Rightarrow> ''w--open'' \<in> set classList)"

text \<open>The module state when the script has loaded, for a page with the given menu button.\<close>

definition menu_init :: "string list option \<Rightarrow> menu_state" where
  "menu_init button =
     \<lparr>touchStartX = 0, touchStartY = 0, touchEndX = 0, isScrolling = False,
      menuButton = button, buttonClicks = 0\<rparr>"

subsection \<open>Touch feedback: setupTouchFeedback and createRippleEffect\<close>

text \<open>The position of a touch point (\<open>e.touches[0]\<close>).\<close>

record touch =
  clientX :: rat
  clientY :: rat

text \<open>What \<open>getBoundingClientRect()\<close> returns.\<close>

record rect =
  rect_left :: rat
  rect_top :: rat
  rect_width :: rat
  rect_height :: rat

text \<open>
  A node made by \<open>document.createElement('div')\<close> in \<open>createRippleEffect\<close>: the four
  numbers that the template of its \<open>style.cssText\<close> takes, each followed by \<open>px\<close> (the
  other declarations of the template are constants), and its \<open>parentNode\<close>, the identity
  of an element or \<open>None\<close> for \<open>null\<close>.
\<close>

record ripple_node =
  css_width :: rat
  css_height :: rat
  css_left :: jsnum
  css_top :: jsnum
  parentNode :: "nat option"

text \<open>
  The part of the page the touch feedback works on. Elements are named by numbers.
  The ripple nodes made so far are kept in creation order, so the index of a node is
  its identity; \<open>timers\<close> holds the pending \<open>setTimeout\<close> calls, each with its delay in
  ms and the ripple its callback closes over.
\<close>

record feedback_page =
  boundingClientRect :: "nat \<Rightarrow> rect"
  sheetPosition :: "nat \<Rightarrow> string"
  stylePosition :: "nat \<Rightarrow> string option"
  classList :: "nat \<Rightarrow> string list"
  ripples :: "ripple_node list"
  timers :: "(nat \<times> nat) list"

text \<open>
  \<open>getComputedStyle(element).position\<close>: the inline style when the element has one, the
  style sheets' value otherwise.
\<close>

definition computedPosition :: "feedback_page \<Rightarrow> nat \<Rightarrow> string" where
  "computedPosition p element =
     (case stylePosition p element of Some v \<Rightarrow> v | None \<Rightarrow> sheetPosition p element)"

definition createRippleEffect :: "nat \<Rightarrow> touch \<Rightarrow> feedback_page \<Rightarrow> feedback_page" where
  "createRippleEffect element touch p =
     (let rect = boundingClientRect p element;
          ripple = length (ripples p);
          size = max (rect_width rect) (rect_height rect);
          x = js_sub (js_sub (Finite (clientX touch)) (Finite (rect_left rect)))
                (js_div (Finite size) (Finite 2));
          y = js_sub (js_sub (Finite (clientY touch)) (Finite (rect_top rect)))
                (js_div (Finite size) (Finite 2));
          p1 = p\<lparr>ripples := ripples p @
                 [\<lparr>css_width = size, css_height = size, css_left = x, css_top = y,
                   parentNode = None\<rparr>]\<rparr>;
          p2 = (if computedPosition p1 element = ''static''
                then p1\<lparr>stylePosition := (stylePosition p1)(element \<mapsto> ''relative'')\<rparr>
                else p1);
          p3 = p2\<lparr>ripples := (ripples p2)[ripple := (ripples p2 ! ripple)\<lparr>parentNode := Some element\<rparr>]\<rparr>
      in p3\<lparr>timers := timers p3 @ [(600, ripple)]\<rparr>)"

datatype dom_error = NotFoundError

text \<open>
  \<open>parent.removeChild(node)\<close> throws a \<open>NotFoundError\<close> when the node is not a child of
  the parent.
\<close>

definition removeChild :: "nat \<Rightarrow> nat \<Rightarrow> feedback_page \<Rightarrow> dom_error + feedback_page" where
  "removeChild parent node p =
     (if parentNode (ripples p ! node) = Some parent
      then Inr (p\<lparr>ripples := (ripples p)[node := (ripples p ! node)\<lparr>parentNode := None\<rparr>]\<rparr>)
      else Inl NotFoundError)"

text \<open>
  The callback given to \<open>setTimeout\<close>, for the ripple it closes over (a node that
  \<open>createRippleEffect\<close> made, so its index is within the list).
\<close>

definition ripple_timeout :: "nat \<Rightarrow> feedback_page \<Rightarrow> dom_error + feedback_page" where
  "ripple_timeout ripple p =
     (case parentNode (ripples p ! ripple) of
        None \<Rightarrow> Inr p
      | Some parent \<Rightarrow> removeChild parent ripple p)"

text \<open>Another script (or the page) takes a ripple out of the tree before its timer fires.\<close>

definition detach :: "nat \<Rightarrow> feedback_page \<Rightarrow> feedback_page" where
  "detach node p = p\<lparr>ripples := (ripples p)[node := (ripples p ! node)\<lparr>parentNode := None\<rparr>]\<rparr>"

text \<open>The ripple nodes that are children of an element, oldest first.\<close>

definition ripple_children :: "feedback_page \<Rightarrow> nat \<Rightarrow> nat list" where
  "ripple_children p element =
     filter (\<lambda>i. parentNode (ripples p ! i) = Some element) [0..<length (ripples p)]"

definition classList_add :: "string \<Rightarrow> string list \<Rightarrow> string list" where
  "classList_add c cs = (if c \<in> set cs then cs else cs @ [c])"

definition classList_remove :: "string \<Rightarrow> string list \<Rightarrow> string list" where
  "classList_remove c cs = filter (\<lambda>d. d \<noteq> c) cs"

text \<open>
  The two \<open>touchstart\<close> listeners that \<open>setupTouchFeedback\<close> puts on an element run in
  the order they were added; the \<open>touchend\<close> and \<open>touchcancel\<close> listeners are the same
  function.
\<close>

definition feedback_touchstart :: "nat \<Rightarrow> touch \<Rightarrow> feedback_page \<Rightarrow> feedback_page" where
  "feedback_touchstart element touch p =
     (let p1 = createRippleEffect element touch p
      in p1\<lparr>classList := (classList p1)(element := classList_add ''touch-pressed'' (classList p1 element))\<rparr>)"

definition feedback_touchend :: "nat \<Rightarrow> feedback_page \<Rightarrow> feedback_page" where
  "feedback_touchend element p =
     p\<lparr>classList := (classList p)(element := classList_remove ''touch-pressed'' (classList p element))\<rparr>"

text \<open>
  A page for the examples: every element is a statically positioned button whose
  bounding box is 200 by 50 at (10, 20); no ripple has been made.
\<close>

definition button_page :: feedback_page where
  "button_page =
     \<lparr>boundingClientRect = (\<lambda>element.
          \<lparr>rect_left = 10, rect_top = 20, rect_width = 200, rect_height = 50\<rparr>),
      sheetPosition = (\<lambda>element. ''static''),
      stylePosition = (\<lambda>element. None),
      classList = (\<lambda>element. [''button'']),
      ripples = [], timers = []\<rparr>"

text \<open>
  The same page with boxes that do not lie on whole pixels: the left side at 10.1 and
  a width of 200.3 (the doubles these literals denote).
\<close>

definition fraction_page :: feedback_page where
  "fraction_page =
     button_page\<lparr>boundingClientRect := (\<lambda>element.
          \<lparr>rect_left = 5685794529555251 / 2 ^ 49, rect_top = 20,
           rect_width = 3523714864696525 / 2 ^ 44, rect_height = 50\<rparr>)\<rparr>"

subsection \<open>Scroll class throttle: setupScrollOptimizations\<close>

datatype class_call = ClassAdd string | ClassRemove string

text \<open>
  The closure variable \<open>ticking\<close>, the number of \<open>updateScrollPosition\<close> callbacks that
  \<open>requestAnimationFrame\<close> has queued for the next frame, \<open>window.pageYOffset\<close>, the
  class list of \<open>document.body\<close> and the log of the calls made on it.
\<close>

record scroll_state =
  ticking :: bool
  frameCallbacks :: nat
  pageYOffset :: rat
  bodyClassList :: "string list"
  classListCalls :: "class_call list"

definition updateScrollPosition :: "scroll_state \<Rightarrow> scroll_state" where
  "updateScrollPosition s =
     (let scrollY = pageYOffset s;
          s1 = (if scrollY > 100
                then s\<lparr>bodyClassList := classList_add ''scrolled'' (bodyClassList s),
                        classListCalls := classListCalls s @ [ClassAdd ''scrolled'']\<rparr>
                else s\<lparr>bodyClassList := classList_remove ''scrolled'' (bodyClassList s),
                        classListCalls := classListCalls s @ [ClassRemove ''scrolled'']\<rparr>)
      in s1\<lparr>ticking := False\<rparr>)"

text \<open>The \<open>scroll\<close> listener on \<open>window\<close>.\<close>

definition scroll_listener :: "scroll_state \<Rightarrow> scroll_state" where
  "scroll_listener s =
     (if \<not> ticking s then s\<lparr>frameCallbacks := frameCallbacks s + 1, ticking := True\<rparr> else s)"

text \<open>
  The browser's side: a scroll moves the page to an offset and dispatches \<open>scroll\<close>; an
  animation frame runs the callbacks queued before it, each once.
\<close>

fun run_frame_callbacks :: "nat \<Rightarrow> scroll_state \<Rightarrow> scroll_state" where
  "run_frame_callbacks 0 s = s"
| "run_frame_callbacks (Suc n) s = run_frame_callbacks n (updateScrollPosition s)"

datatype page_event = Scroll rat | AnimationFrame

fun page_step :: "page_event \<Rightarrow> scroll_state \<Rightarrow> scroll_state" where
  "page_step (Scroll y) s = scroll_listener (s\<lparr>pageYOffset := y\<rparr>)"
| "page_step AnimationFrame s = run_frame_callbacks (frameCallbacks s) (s\<lparr>frameCallbacks := 0\<rparr>)"

fun page_run :: "page_event list \<Rightarrow> scroll_state \<Rightarrow> scroll_state" where
  "page_run [] s = s"
| "page_run (e # es) s = page_run es (page_step e s)"

text \<open>The state \<open>setupScrollOptimizations\<close> starts from, for a page at the given offset.\<close>

definition scroll_init :: "rat \<Rightarrow> string list \<Rightarrow> scroll_state" where
  "scroll_init y classes =
     \<lparr>ticking = False, frameCallbacks = 0, pageYOffset = y, bodyClassList = classes,
      classListCalls = []\<rparr>"

text \<open>
  The invariant of the throttle: a callback is queued exactly while the flag is set,
  and never more than one.
\<close>

definition throttle_inv :: "scroll_state \<Rightarrow> bool" where
  "throttle_inv s = (frameCallbacks s = (if ticking s then 1 else 0))"

subsection \<open>Exceptions\<close>

text \<open>
  A JavaScript function either returns or throws; what it did to the page before it
  threw stays done. A run is therefore a pair: the exception thrown, if any, and
  the page it leaves. \<open>and_then\<close> is the semicolon: the next statement runs only when the
  one before returned.
\<close>

datatype js_error = ReferenceError string | TypeError string

type_synonym 'w completion = "js_error option \<times> 'w"

definition and_then :: "'w completion \<Rightarrow> ('w \<Rightarrow> 'w completion) \<Rightarrow> 'w completion" where
  "and_then r f = (case r of (Some e, w) \<Rightarrow> (Some e, w) | (None, w) \<Rightarrow> f w)"

text \<open>
  A call of an identifier that no scope binds. Neither source file of the repository
  declares the function; the global scope is taken to hold none of that name.
\<close>

definition call_undeclared :: "string \<Rightarrow> 'w \<Rightarrow> 'w completion" where
  "call_undeclared name w = (Some (ReferenceError name), w)"

subsection \<open>The document\<close>

text \<open>
  Both scripts read the document through selector queries only, so the document is
  what the queries return: \<open>document.querySelectorAll\<close> and, for an element,
  \<open>element.querySelectorAll\<close>, each a list of elements in document order (elements are
  named by numbers). \<open>querySelector\<close> is the first match or \<open>null\<close>. \<open>splitWords\<close> gives
  the word elements the text splitting library makes for an element
  (\<open>new SplitType(el, ...).words\<close>).
\<close>

record document =
  querySelectorAll :: "string \<Rightarrow> nat list"
  querySelectorAllIn :: "nat \<Rightarrow> string \<Rightarrow> nat list"
  splitWords :: "nat \<Rightarrow> nat list"

definition querySelector :: "document \<Rightarrow> string \<Rightarrow> nat option" where
  "querySelector doc selector =
     (case querySelectorAll doc selector of [] \<Rightarrow> None | element # _ \<Rightarrow> Some element)"

definition querySelectorIn :: "document \<Rightarrow> nat \<Rightarrow> string \<Rightarrow> nat option" where
  "querySelectorIn doc parent selector =
     (case querySelectorAllIn doc parent selector of [] \<Rightarrow> None | element # _ \<Rightarrow> Some element)"

subsection \<open>Initialisation: initTouchEnhancements and the ready-state dispatch\<close>

text \<open>What the script reads of the browser when it starts.\<close>

record browser =
  ontouchstart_in_window :: bool
  maxTouchPoints :: "int option"
  isIOS :: bool
  readyState :: string

text \<open>
  \<open>'ontouchstart' in window || navigator.maxTouchPoints > 0\<close>; an \<open>undefined\<close>
  \<open>maxTouchPoints\<close> (\<open>None\<close>) compares false.
\<close>

definition isTouchDevice :: "browser \<Rightarrow> bool" where
  "isTouchDevice b =
     (ontouchstart_in_window b \<or> (case maxTouchPoints b of None \<Rightarrow> False | Some n \<Rightarrow> n > 0))"

datatype event_target = Window | Document | Element nat

text \<open>The listener functions of the file, one name for each function expression.\<close>

datatype handler =
    RippleStart | PressedStart | PressedEnd | PressedCancel
  | MenuSwipeStart | MenuSwipeMove | MenuSwipeEnd
  | SliderSwipeStart | SliderSwipeMove | SliderSwipeEnd
  | ImageSwipeStart | ImageSwipeMove | ImageSwipeEnd
  | MenuButtonHaptic | InputFocus | InputTouchStart
  | AnchorClick | ScrollThrottle | DOMContentLoadedHandler

text \<open>
  An \<open>addEventListener\<close> call: target, event type, listener and the \<open>passive\<close> option
  (\<open>None\<close> when the call has no options).
\<close>

record listener =
  l_target :: event_target
  l_type :: string
  l_handler :: handler
  l_passive :: "bool option"

text \<open>
  The part of the page the initialisation writes: the class list of \<open>document.body\<close>, the
  listeners added, the attributes set, the elements a \<open>MutationObserver\<close> watches, the
  number of \<open>style\<close> elements appended to \<open>document.head\<close>, the console and whether
  \<open>window.TouchEnhancements\<close> has been assigned.
\<close>

record page =
  bodyClasses :: "string list"
  eventListeners :: "listener list"
  attributesSet :: "(nat \<times> string \<times> string) list"
  observed :: "nat list"
  headStyles :: nat
  consoleLog :: "string list"
  touchEnhancementsExported :: bool

definition addEventListener ::
  "event_target \<Rightarrow> string \<Rightarrow> handler \<Rightarrow> bool option \<Rightarrow> page \<Rightarrow> page" where
  "addEventListener target type h passive w =
     w\<lparr>eventListeners := eventListeners w @
         [\<lparr>l_target = target, l_type = type, l_handler = h, l_passive = passive\<rparr>]\<rparr>"

definition setupTouchFeedback :: "document \<Rightarrow> page \<Rightarrow> page" where
  "setupTouchFeedback doc w =
     fold (\<lambda>element w.
            addEventListener (Element element) ''touchcancel'' PressedCancel (Some True)
              (addEventListener (Element element) ''touchend'' PressedEnd (Some True)
                (addEventListener (Element element) ''touchstart'' PressedStart (Some True)
                  (addEventListener (Element element) ''touchstart'' RippleStart (Some True) w))))
       (querySelectorAll doc
          ''.navlink, .button, .mobile-page-link, .language-switch-div, .page-link, .section-heading.dark.nav'')
       w"

definition setupSwipeToClose :: "nat \<Rightarrow> page \<Rightarrow> page" where
  "setupSwipeToClose menu w =
     addEventListener (Element menu) ''touchend'' MenuSwipeEnd (Some True)
       (addEventListener (Element menu) ''touchmove'' MenuSwipeMove (Some True)
         (addEventListener (Element menu) ''touchstart'' MenuSwipeStart (Some True) w))"

definition setupImageSwipe :: "nat \<Rightarrow> page \<Rightarrow> page" where
  "setupImageSwipe imageContainer w =
     addEventListener (Element imageContainer) ''touchend'' ImageSwipeEnd (Some True)
       (addEventListener (Element imageContainer) ''touchmove'' ImageSwipeMove (Some True)
         (addEventListener (Element imageContainer) ''touchstart'' ImageSwipeStart (Some True) w))"

definition setupSliderSwipe :: "document \<Rightarrow> nat \<Rightarrow> page \<Rightarrow> page" where
  "setupSliderSwipe doc slider w =
     (case querySelectorIn doc slider ''.w-slider-mask'' of
        None \<Rightarrow> w
      | Some sliderMask \<Rightarrow>
          addEventListener (Element slider) ''touchend'' SliderSwipeEnd (Some True)
            (addEventListener (Element slider) ''touchmove'' SliderSwipeMove (Some False)
              (addEventListener (Element slider) ''touchstart'' SliderSwipeStart (Some True) w)))"

definition setupSwipeGestures :: "document \<Rightarrow> page \<Rightarrow> page" where
  "setupSwipeGestures doc w =
     (let w1 = (case querySelector doc ''.mobile-menu'' of
                  None \<Rightarrow> w
                | Some mobileMenu \<Rightarrow> setupSwipeToClose mobileMenu w);
          w2 = fold (setupSliderSwipe doc) (querySelectorAll doc ''.w-slider'') w1
      in fold setupImageSwipe
           (querySelectorAll doc ''.cta-image-wrapper, .grid-image-wrapper'') w2)"

definition setupMobileMenuEnhancements :: "document \<Rightarrow> page \<Rightarrow> page" where
  "setupMobileMenuEnhancements doc w =
     (let w1 = (case querySelector doc ''.w-nav-button'' of
                  None \<Rightarrow> w
                | Some button \<Rightarrow>
                    (addEventListener (Element button) ''touchstart'' MenuButtonHaptic
                       (Some True) w)
                      \<lparr>attributesSet := attributesSet w @
                         [(button, ''aria-label'', ''Toggle navigation menu'')]\<rparr>)
      in case querySelector doc ''.mobile-menu'' of
           None \<Rightarrow> w1
         | Some mobileMenu \<Rightarrow> w1\<lparr>observed := observed w1 @ [mobileMenu]\<rparr>)"

definition setupFormOptimizations :: "browser \<Rightarrow> document \<Rightarrow> page \<Rightarrow> page" where
  "setupFormOptimizations b doc w =
     fold (\<lambda>input w.
            addEventListener (Element input) ''touchstart'' InputTouchStart (Some True)
              (if isIOS b then addEventListener (Element input) ''focus'' InputFocus None w
               else w))
       (querySelectorAll doc ''input, textarea, select'') w"

definition setupScrollOptimizations :: "document \<Rightarrow> page \<Rightarrow> page" where
  \<open>setupScrollOptimizations doc w =
     addEventListener Window ''scroll'' ScrollThrottle (Some True)
       (fold (\<lambda>link w. addEventListener (Element link) ''click'' AnchorClick None w)
          (querySelectorAll doc ''a[href^="#"]'') w)\<close>

text \<open>
  \<open>initTouchEnhancements\<close>. The sixth statement after the guard calls
  \<open>setupImageGalleryTouch\<close>, which is not declared.
\<close>

definition initTouchEnhancements :: "browser \<Rightarrow> document \<Rightarrow> page \<Rightarrow> page completion" where
  "initTouchEnhancements b doc w =
     (if \<not> isTouchDevice b then (None, w)
      else
        let w1 = w\<lparr>bodyClasses := classList_add ''touch-device'' (bodyClasses w)\<rparr>;
            w2 = setupTouchFeedback doc w1;
            w3 = setupSwipeGestures doc w2;
            w4 = setupMobileMenuEnhancements doc w3;
            w5 = setupFormOptimizations b doc w4
        in and_then (call_undeclared ''setupImageGalleryTouch'' w5)
             (\<lambda>w6. let w7 = setupScrollOptimizations doc w6
                    in (None, w7\<lparr>consoleLog := consoleLog w7 @ [''Touch enhancements initialized'']\<rparr>)))"

definition addRippleStyles :: "page \<Rightarrow> page" where
  "addRippleStyles w = w\<lparr>headStyles := headStyles w + 1\<rparr>"

text \<open>
  The body of the script, run when the file is loaded: the ready-state dispatch, then
  the export. An exception of \<open>initTouchEnhancements\<close> in the second branch ends the
  script.
\<close>

definition touch_script :: "browser \<Rightarrow> document \<Rightarrow> page \<Rightarrow> page completion" where
  "touch_script b doc w =
     and_then
       (if readyState b = ''loading''
        then (None, addEventListener Document ''DOMContentLoaded'' DOMContentLoadedHandler None w)
        else and_then (initTouchEnhancements b doc w) (\<lambda>w1. (None, addRippleStyles w1)))
       (\<lambda>w2. (None, w2\<lparr>touchEnhancementsExported := True\<rparr>))"

text \<open>The listener the first branch registers.\<close>

definition onDOMContentLoaded :: "browser \<Rightarrow> document \<Rightarrow> page \<Rightarrow> page completion" where
  "onDOMContentLoaded b doc w =
     and_then (initTouchEnhancements b doc w) (\<lambda>w1. (None, addRippleStyles w1))"

text \<open>
  Loading the page up to the point where the document is ready: the script runs; if
  it registered the listener, the browser then fires \<open>DOMContentLoaded\<close>. An exception
  in either ends that run only, so the page is what both leave behind.
\<close>

definition page_load :: "browser \<Rightarrow> document \<Rightarrow> page \<Rightarrow> page" where
  "page_load b doc w =
     (let w1 = snd (touch_script b doc w)
      in if readyState b = ''loading'' then snd (onDOMContentLoaded b doc w1) else w1)"

definition empty_page :: page where
  "empty_page =
     \<lparr>bodyClasses = [], eventListeners = [], attributesSet = [], observed = [],
      headStyles = 0, consoleLog = [], touchEnhancementsExported = False\<rparr>"

subsection \<open>Scroll events on the loaded page\<close>

text \<open>
  The \<open>scroll\<close> listeners on \<open>window\<close> that the page holds. A scroll moves the page and
  runs each of them (the only one the file ever adds is the throttle); an animation
  frame runs the queued callbacks.
\<close>

definition scroll_listeners :: "page \<Rightarrow> listener list" where
  "scroll_listeners w =
     filter (\<lambda>l. l_target l = Window \<and> l_type l = ''scroll'') (eventListeners w)"

fun dispatch :: "page \<Rightarrow> page_event \<Rightarrow> scroll_state \<Rightarrow> scroll_state" where
  "dispatch w (Scroll y) s = fold (\<lambda>l s. scroll_listener s) (scroll_listeners w) (s\<lparr>pageYOffset := y\<rparr>)"
| "dispatch w AnimationFrame s = page_step AnimationFrame s"

fun browse :: "page \<Rightarrow> page_event list \<Rightarrow> scroll_state \<Rightarrow> scroll_state" where
  "browse w [] s = s"
| "browse w (e # es) s = browse w es (dispatch w e s)"

text \<open>
  A small document for the examples: a menu button (1), the mobile menu (2), a slider
  (3) with its mask (5) and an input (4); and two browsers, one with touch and one
  without, at a given \<open>document.readyState\<close>.
\<close>

definition sample_document :: document where
  "sample_document =
     \<lparr>querySelectorAll = (\<lambda>selector.
          if selector = ''.w-nav-button'' then [1]
          else if selector = ''.mobile-menu'' then [2]
          else if selector = ''.w-slider'' then [3]
          else if selector = ''input, textarea, select'' then [4]
          else []),
      querySelectorAllIn = (\<lambda>parent selector.
          if parent = 3 \<and> selector = ''.w-slider-mask'' then [5] else []),
      splitWords = (\<lambda>element. [])\<rparr>"

definition touch_browser :: "string \<Rightarrow> browser" where
  "touch_browser state =
     \<lparr>ontouchstart_in_window = True, maxTouchPoints = Some 5, isIOS = False, readyState = state\<rparr>"

definition desktop_browser :: "string \<Rightarrow> browser" where
  "desktop_browser state =
     \<lparr>ontouchstart_in_window = False, maxTouchPoints = Some 0, isIOS = False, readyState = state\<rparr>"

section \<open>Animation orchestrator (src/js/gsap-optimizations.js)\<close>

subsection \<open>Values, tweens and the page\<close>

text \<open>
  The values that reach \<open>addWillChange\<close>: \<open>null\<close> (a \<open>querySelector\<close> without a match), an
  element, or a \<open>NodeList\<close> (what \<open>querySelectorAll\<close> returns, also when it is empty).
\<close>

datatype js_value = Null | Elem nat | NodeList "nat list"

text \<open>
  The properties of a tween, as written in the source: name and value, in order. They
  are handed to the animation library unchanged.
\<close>

type_synonym vars = "(string \<times> string) list"

datatype trigger = TriggerElement nat | TriggerSelector string

record scroll_trigger =
  st_trigger :: trigger
  st_start :: string
  st_toggleActions :: "string option"
  st_once :: bool

text \<open>A step of a timeline: \<open>tl.from(targets, vars, position)\<close>.\<close>

record tween =
  tw_targets :: js_value
  tw_vars :: vars
  tw_position :: "string option"

text \<open>
  What the orchestrator registers with the library: \<open>gsap.fromTo(targets, from, to)\<close> and
  \<open>gsap.from(targets, vars)\<close>, each with its scroll trigger, and \<open>gsap.timeline\<close> with its
  scroll trigger and the steps added to it.
\<close>

datatype animation =
    FromTo "nat list" vars vars scroll_trigger
  | From "nat list" vars scroll_trigger
  | Timeline scroll_trigger "tween list"

text \<open>
  The state the orchestrator reads and writes: whether \<open>typeof gsap\<close> and
  \<open>typeof ScrollTrigger\<close> are \<open>'undefined'\<close>, the inline \<open>style.willChange\<close> and the
  \<open>dataset.splitDone\<close> of every element, the elements \<open>SplitType\<close> has been constructed
  on, the animations registered, the calls of \<open>gsap.registerPlugin\<close>, \<open>gsap.defaults\<close> and
  \<open>ScrollTrigger.refresh\<close>, and the warnings on the console.
\<close>

record gsap_page =
  gsap_undefined :: bool
  scrollTrigger_undefined :: bool
  willChange :: "nat \<Rightarrow> string option"
  splitDone :: "nat \<Rightarrow> string option"
  splitCalls :: "nat list"
  animations :: "animation list"
  pluginRegistered :: bool
  gsapDefaults :: "vars option"
  refreshes :: nat
  warnings :: "string list"

subsection \<open>The performance hint\<close>

text \<open>
  \<open>elements.forEach(el => { if (el) el.style.willChange = properties; })\<close>. A \<open>null\<close>
  is skipped. A \<open>NodeList\<close> is an object, so it passes the test, but it has no \<open>style\<close>:
  the assignment to a property of \<open>undefined\<close> throws a \<open>TypeError\<close>.
\<close>

definition willChange_error :: js_error where
  "willChange_error = TypeError ''Cannot set properties of undefined (setting willChange)''"

fun addWillChange :: "js_value list \<Rightarrow> string \<Rightarrow> gsap_page \<Rightarrow> gsap_page completion" where
  "addWillChange [] properties w = (None, w)"
| "addWillChange (Null # els) properties w = addWillChange els properties w"
| "addWillChange (Elem el # els) properties w =
     addWillChange els properties (w\<lparr>willChange := (willChange w)(el \<mapsto> properties)\<rparr>)"
| "addWillChange (NodeList l # els) properties w =
     (Some willChange_error, w)"

text \<open>The default of the parameter \<open>properties\<close>; every call in the file relies on it.\<close>

definition default_properties :: string where
  "default_properties = ''transform, opacity''"

text \<open>
  \<open>removeWillChange\<close> is the same loop with the value \<open>'auto'\<close>. The completion
  callbacks call it when the library has finished an animation, after the
  initialisation.
\<close>

fun removeWillChange :: "js_value list \<Rightarrow> gsap_page \<Rightarrow> gsap_page completion" where
  "removeWillChange [] w = (None, w)"
| "removeWillChange (Null # els) w = removeWillChange els w"
| "removeWillChange (Elem el # els) w =
     removeWillChange els (w\<lparr>willChange := (willChange w)(el \<mapsto> ''auto'')\<rparr>)"
| "removeWillChange (NodeList l # els) w =
     (Some willChange_error, w)"

subsection \<open>createOptimizedScrollTrigger\<close>

text \<open>The third argument: the keys a caller passes, \<open>start\<close> and \<open>trigger\<close>, each optional.\<close>

record trigger_props =
  tp_start :: "string option"
  tp_trigger :: "string option"

text \<open>
  The spread \<open>{trigger: elements[0], start: "top 85%", toggleActions: ..., once: true,
  ...triggerProps}\<close>: a key of \<open>triggerProps\<close> replaces the default.
\<close>

definition createOptimizedScrollTrigger ::
  "nat list \<Rightarrow> vars \<Rightarrow> vars \<Rightarrow> trigger_props \<Rightarrow> gsap_page \<Rightarrow> gsap_page completion" where
  "createOptimizedScrollTrigger elements fromVars toVars triggerProps w =
     (if length elements = 0 then (None, w)
      else
        and_then (addWillChange (map Elem elements) default_properties w)
          (\<lambda>w1. (None, w1\<lparr>animations := animations w1 @
             [FromTo elements fromVars toVars
                \<lparr>st_trigger = (case tp_trigger triggerProps of
                                 Some selector \<Rightarrow> TriggerSelector selector
                               | None \<Rightarrow> TriggerElement (hd elements)),
                 st_start = (case tp_start triggerProps of
                               Some start \<Rightarrow> start | None \<Rightarrow> ''top 85%''),
                 st_toggleActions = Some ''play none none none'',
                 st_once = True\<rparr>]\<rparr>)))"

text \<open>\<open>array.forEach(f)\<close> for an \<open>f\<close> that may throw: the exception ends the loop.\<close>

fun forEach :: "('a \<Rightarrow> 'w \<Rightarrow> 'w completion) \<Rightarrow> 'a list \<Rightarrow> 'w \<Rightarrow> 'w completion" where
  "forEach f [] w = (None, w)"
| "forEach f (x # xs) w = and_then (f x w) (forEach f xs)"

subsection \<open>initOptimizedImageAnimations\<close>

record image_config =
  ic_selector :: string
  ic_from :: vars
  ic_to :: vars
  ic_trigger :: "string option"

definition imageConfigs :: "image_config list" where
  "imageConfigs =
     [\<lparr>ic_selector = ''.image-wrapper.portrait'',
       ic_from = [(''y'', ''100''), (''scale'', ''0.9''), (''opacity'', ''0'')],
       ic_to = [(''y'', ''0''), (''scale'', ''1''), (''opacity'', ''1''), (''duration'', ''1.2''),
                (''ease'', ''power2.out'')],
       ic_trigger = None\<rparr>,
      \<lparr>ic_selector = ''.wide-image-wrapper'',
       ic_from = [(''x'', ''100''), (''scale'', ''1.1''), (''opacity'', ''0'')],
       ic_to = [(''x'', ''0''), (''scale'', ''1''), (''opacity'', ''1''), (''duration'', ''1.3''),
                (''ease'', ''power2.out'')],
       ic_trigger = None\<rparr>,
      \<lparr>ic_selector = ''.cta-image-wrapper'',
       ic_from = [(''y'', ''100''), (''scale'', ''1.1''), (''opacity'', ''0'')],
       ic_to = [(''y'', ''0''), (''scale'', ''1''), (''opacity'', ''1''), (''duration'', ''1.2''),
                (''ease'', ''power2.out'')],
       ic_trigger = Some ''.cta-right-grid''\<rparr>,
      \<lparr>ic_selector = ''.section-hero-image-wrapper'',
       ic_from = [(''opacity'', ''0''), (''y'', ''100''), (''scale'', ''1.1'')],
       ic_to = [(''opacity'', ''1''), (''y'', ''0''), (''scale'', ''1''), (''duration'', ''1''),
                (''delay'', ''0.6''), (''ease'', ''power2.out'')],
       ic_trigger = None\<rparr>,
      \<lparr>ic_selector = ''.ceo-image-wrapper'',
       ic_from = [(''x'', ''100''), (''opacity'', ''0''), (''scale'', ''0.95'')],
       ic_to = [(''x'', ''0''), (''opacity'', ''1''), (''scale'', ''1''), (''duration'', ''1.1''),
                (''ease'', ''power2.out'')],
       ic_trigger = None\<rparr>]"

definition imageWrapperSelectors :: "string list" where
  "imageWrapperSelectors =
     [''.right-image-wrapper'', ''.brand-logo-wrapper'', ''.quick-stack-img-wrapper'',
      ''.residential-slider-image-wrap'', ''.grid-image-wrapper'',
      ''.commercial-project-img-wrapper'']"

text \<open>The bodies of the two \<open>forEach\<close> loops.\<close>

definition image_config_step :: "document \<Rightarrow> image_config \<Rightarrow> gsap_page \<Rightarrow> gsap_page completion" where
  "image_config_step doc config w =
     (let elements = querySelectorAll doc (ic_selector config)
      in if length elements > 0
         then createOptimizedScrollTrigger elements (ic_from config) (ic_to config)
                \<lparr>tp_start = None, tp_trigger = ic_trigger config\<rparr> w
         else (None, w))"

definition image_wrapper_step :: "document \<Rightarrow> string \<Rightarrow> gsap_page \<Rightarrow> gsap_page completion" where
  "image_wrapper_step doc selector w =
     (let elements = querySelectorAll doc selector
      in if length elements > 0
         then createOptimizedScrollTrigger elements
                [(''y'', ''60''), (''opacity'', ''0'')]
                [(''y'', ''0''), (''opacity'', ''1''), (''duration'', ''1''),
                 (''ease'', ''power2.out''), (''stagger'', ''0.1'')]
                \<lparr>tp_start = None, tp_trigger = None\<rparr> w
         else (None, w))"

definition initOptimizedImageAnimations :: "document \<Rightarrow> gsap_page \<Rightarrow> gsap_page completion" where
  "initOptimizedImageAnimations doc w =
     and_then
       (let sliderImages = querySelectorAll doc ''.image-wrapper.slider''
        in if length sliderImages > 0
           then createOptimizedScrollTrigger sliderImages
                  [(''scale'', ''1.1''), (''filter'', ''blur(10px)''), (''opacity'', ''0'')]
                  [(''scale'', ''1''), (''filter'', ''blur(0px)''), (''opacity'', ''1''),
                   (''duration'', ''1.2''), (''ease'', ''power2.out''), (''stagger'', ''0.15'')]
                  \<lparr>tp_start = Some ''top 80%'', tp_trigger = None\<rparr> w
           else (None, w))
       (\<lambda>w1. and_then (forEach (image_config_step doc) imageConfigs w1)
               (forEach (image_wrapper_step doc) imageWrapperSelectors))"

subsection \<open>initOptimizedTextAnimations\<close>

definition headingSelectors :: "string list" where
  "headingSelectors =
     [''.section-name'', ''.section-heading'', ''.pattern-heading'', ''.stats-heading'',
      ''.status-heading'', ''.cta-heading'', ''.project-grid-name'', ''.stats'',
      ''.page-hero-heading'', ''.project-heading'']"

definition fadeInSelectors :: "string list" where
  "fadeInSelectors =
     [''.pattern-sub-heading'', ''.project-sub-heading'', ''.paragraph'',
      ''.stats-sub-heading'', ''.sub-heading'', ''.button'']"

definition logoSelectors :: "string list" where
  "logoSelectors =
     [''.center-logo-wrapper'', ''.center-logo-calma'', ''.calma-logo-wrapper'', ''.grid-icon'']"

text \<open>\<open>selectors.flatMap(selector => Array.from(document.querySelectorAll(selector)))\<close>\<close>

definition flatMap_query :: "document \<Rightarrow> string list \<Rightarrow> nat list" where
  "flatMap_query doc selectors = concat (map (querySelectorAll doc) selectors)"

text \<open>
  The truth value of \<open>el.dataset.splitDone\<close>: \<open>undefined\<close> and the empty string are
  false, every other string is true.
\<close>

definition truthy :: "string option \<Rightarrow> bool" where
  "truthy v = (case v of None \<Rightarrow> False | Some str \<Rightarrow> str \<noteq> [])"

text \<open>The body of \<open>allHeadings.forEach\<close>.\<close>

definition heading_step :: "document \<Rightarrow> nat \<Rightarrow> gsap_page \<Rightarrow> gsap_page completion" where
  "heading_step doc el w =
     (if \<not> truthy (splitDone w el)
      then
        let words = splitWords doc el;
            w1 = w\<lparr>splitCalls := splitCalls w @ [el]\<rparr>;
            w2 = w1\<lparr>splitDone := (splitDone w1)(el \<mapsto> ''true'')\<rparr>
        in and_then (addWillChange (map Elem words) default_properties w2)
             (\<lambda>w3. (None, w3\<lparr>animations := animations w3 @
                [From words
                   [(''opacity'', ''0''), (''y'', ''40''), (''skewY'', ''3''), (''stagger'', ''0.03''),
                    (''duration'', ''0.8''), (''ease'', ''power2.out'')]
                   \<lparr>st_trigger = TriggerElement el, st_start = ''top 85%'',
                    st_toggleActions = Some ''play none none none'', st_once = True\<rparr>]\<rparr>))
      else (None, w))"

definition initOptimizedTextAnimations :: "document \<Rightarrow> gsap_page \<Rightarrow> gsap_page completion" where
  "initOptimizedTextAnimations doc w =
     and_then (forEach (heading_step doc) (flatMap_query doc headingSelectors) w)
       (\<lambda>w1. and_then
          (let allFadeElements = flatMap_query doc fadeInSelectors
           in if length allFadeElements > 0
              then createOptimizedScrollTrigger allFadeElements
                     [(''opacity'', ''0''), (''y'', ''20'')]
                     [(''opacity'', ''1''), (''y'', ''0''), (''duration'', ''0.6''),
                      (''ease'', ''power2.out''), (''stagger'', ''0.05'')]
                     \<lparr>tp_start = Some ''top 90%'', tp_trigger = None\<rparr> w1
              else (None, w1))
          (\<lambda>w2. let allLogos = flatMap_query doc logoSelectors
                 in if length allLogos > 0
                    then createOptimizedScrollTrigger allLogos
                           [(''scale'', ''0.9''), (''opacity'', ''0'')]
                           [(''scale'', ''1''), (''opacity'', ''1''), (''duration'', ''0.8''),
                            (''ease'', ''power2.out''), (''stagger'', ''0.1'')]
                           \<lparr>tp_start = None, tp_trigger = None\<rparr> w2
                    else (None, w2)))"

subsection \<open>initOptimizedFooterAnimation\<close>

text \<open>
  \<open>footer.querySelector\<close> gives an element or \<open>null\<close>, \<open>footer.querySelectorAll\<close> a
  \<open>NodeList\<close>.
\<close>

definition query_one :: "document \<Rightarrow> nat \<Rightarrow> string \<Rightarrow> js_value" where
  "query_one doc parent selector =
     (case querySelectorIn doc parent selector of None \<Rightarrow> Null | Some el \<Rightarrow> Elem el)"

definition query_all :: "document \<Rightarrow> nat \<Rightarrow> string \<Rightarrow> js_value" where
  "query_all doc parent selector = NodeList (querySelectorAllIn doc parent selector)"

text \<open>\<open>Object.values(footerElements)\<close>: the ten values in the order of their keys.\<close>

definition footerElements :: "document \<Rightarrow> nat \<Rightarrow> js_value list" where
  "footerElements doc footer =
     [query_one doc footer ''.footer-logo-div'',
      query_one doc footer ''.footer-left-grid'',
      query_one doc footer ''.download-heading'',
      query_all doc footer ''.download-text'',
      query_all doc footer ''.line.footer'',
      query_one doc footer ''.footer-middle-div'',
      query_all doc footer ''.footer-text'',
      query_one doc footer ''.footer-bottom-div'',
      query_all doc footer ''.terms-heading'',
      query_all doc footer ''.icon'']"

text \<open>
  The truth value of a value, and of its \<open>length\<close>: \<open>null\<close> is false, an element and a
  \<open>NodeList\<close> are true; an element has no \<open>length\<close> (\<open>undefined\<close>, false), a \<open>NodeList\<close> has
  one, false when it is 0. \<open>Array.from\<close> of a \<open>NodeList\<close> is the array of its elements.
\<close>

definition value_truthy :: "js_value \<Rightarrow> bool" where
  "value_truthy v = (v \<noteq> Null)"

definition length_truthy :: "js_value \<Rightarrow> bool" where
  "length_truthy v = (case v of NodeList l \<Rightarrow> length l \<noteq> 0 | _ \<Rightarrow> False)"

definition array_from :: "js_value \<Rightarrow> js_value list" where
  "array_from v = (case v of NodeList l \<Rightarrow> map Elem l | _ \<Rightarrow> [])"

text \<open>
  The body of the first \<open>Object.values(footerElements).forEach\<close>:
  \<open>if (el && el.length) addWillChange(Array.from(el)); else if (el) addWillChange([el]);\<close>
\<close>

definition footer_hint :: "js_value \<Rightarrow> gsap_page \<Rightarrow> gsap_page completion" where
  "footer_hint el w =
     (if value_truthy el \<and> length_truthy el then addWillChange (array_from el) default_properties w
      else if value_truthy el then addWillChange [el] default_properties w
      else (None, w))"

text \<open>The ten steps of the footer timeline, for the ten values.\<close>

definition footer_tweens :: "js_value list \<Rightarrow> tween list" where
  "footer_tweens els =
     [\<lparr>tw_targets = els ! 0,
       tw_vars = [(''y'', ''30''), (''opacity'', ''0''), (''duration'', ''0.6''), (''ease'', ''power2.out'')],
       tw_position = None\<rparr>,
      \<lparr>tw_targets = els ! 1,
       tw_vars = [(''y'', ''30''), (''opacity'', ''0''), (''duration'', ''0.6''), (''ease'', ''power2.out'')],
       tw_position = Some ''-=0.4''\<rparr>,
      \<lparr>tw_targets = els ! 2,
       tw_vars = [(''y'', ''20''), (''opacity'', ''0''), (''duration'', ''0.5''), (''ease'', ''power2.out'')],
       tw_position = Some ''-=0.3''\<rparr>,
      \<lparr>tw_targets = els ! 3,
       tw_vars = [(''y'', ''15''), (''opacity'', ''0''), (''stagger'', ''0.05''), (''duration'', ''0.4''),
                  (''ease'', ''power2.out'')],
       tw_position = Some ''-=0.3''\<rparr>,
      \<lparr>tw_targets = els ! 4,
       tw_vars = [(''scaleX'', ''0''), (''transformOrigin'', ''left''), (''opacity'', ''0''),
                  (''duration'', ''0.4''), (''ease'', ''power2.out'')],
       tw_position = Some ''-=0.3''\<rparr>,
      \<lparr>tw_targets = els ! 5,
       tw_vars = [(''y'', ''25''), (''opacity'', ''0''), (''duration'', ''0.5''), (''ease'', ''power2.out'')],
       tw_position = Some ''-=0.2''\<rparr>,
      \<lparr>tw_targets = els ! 6,
       tw_vars = [(''y'', ''15''), (''opacity'', ''0''), (''stagger'', ''0.03''), (''duration'', ''0.4''),
                  (''ease'', ''power2.out'')],
       tw_position = Some ''-=0.2''\<rparr>,
      \<lparr>tw_targets = els ! 7,
       tw_vars = [(''y'', ''25''), (''opacity'', ''0''), (''duration'', ''0.5''), (''ease'', ''power2.out'')],
       tw_position = Some ''-=0.3''\<rparr>,
      \<lparr>tw_targets = els ! 8,
       tw_vars = [(''y'', ''15''), (''opacity'', ''0''), (''stagger'', ''0.05''), (''duration'', ''0.4''),
                  (''ease'', ''power2.out'')],
       tw_position = Some ''-=0.3''\<rparr>,
      \<lparr>tw_targets = els ! 9,
       tw_vars = [(''y'', ''15''), (''opacity'', ''0''), (''stagger'', ''0.05''), (''duration'', ''0.4''),
                  (''ease'', ''power2.out'')],
       tw_position = Some ''-=0.3''\<rparr>]"

definition initOptimizedFooterAnimation :: "document \<Rightarrow> gsap_page \<Rightarrow> gsap_page completion" where
  "initOptimizedFooterAnimation doc w =
     (case querySelector doc ''.footer'' of
        None \<Rightarrow> (None, w)
      | Some footer \<Rightarrow>
          and_then (forEach footer_hint (footerElements doc footer) w)
            (\<lambda>w1. (None, w1\<lparr>animations := animations w1 @
               [Timeline
                  \<lparr>st_trigger = TriggerElement footer, st_start = ''top 80%'',
                   st_toggleActions = None, st_once = True\<rparr>
                  (footer_tweens (footerElements doc footer))]\<rparr>)))"

subsection \<open>initOptimizedStatsAnimation\<close>

text \<open>The body of \<open>statsContainers.forEach\<close>.\<close>

definition stats_step :: "document \<Rightarrow> nat \<Rightarrow> gsap_page \<Rightarrow> gsap_page completion" where
  "stats_step doc container w =
     (let lines = querySelectorAllIn doc container ''.line'';
          stats = querySelectorAllIn doc container ''.stats''
      in if length lines = 0 \<and> length stats = 0 then (None, w)
         else
           and_then (addWillChange (map Elem lines @ map Elem stats) default_properties w)
             (\<lambda>w1. (None, w1\<lparr>animations := animations w1 @
                [Timeline
                   \<lparr>st_trigger = TriggerElement container, st_start = ''top 80%'',
                    st_toggleActions = Some ''play none none none'', st_once = True\<rparr>
                   ((if length lines > 0
                     then [\<lparr>tw_targets = NodeList lines,
                            tw_vars = [(''opacity'', ''0''), (''scaleX'', ''0''),
                                       (''transformOrigin'', ''left center''), (''duration'', ''0.3''),
                                       (''stagger'', ''0.1''), (''ease'', ''power2.out'')],
                            tw_position = None\<rparr>]
                     else []) @
                    (if length stats > 0
                     then [\<lparr>tw_targets = NodeList stats,
                            tw_vars = [(''opacity'', ''0''), (''y'', ''20''), (''duration'', ''0.4''),
                                       (''stagger'', ''0.1''), (''ease'', ''power2.out'')],
                            tw_position = Some ''-=0.2''\<rparr>]
                     else []))]\<rparr>)))"

definition initOptimizedStatsAnimation :: "document \<Rightarrow> gsap_page \<Rightarrow> gsap_page completion" where
  "initOptimizedStatsAnimation doc w =
     forEach (stats_step doc) (querySelectorAll doc ''.location.stats.div'') w"

subsection \<open>initGSAPOptimizations\<close>

definition initGSAPOptimizations :: "document \<Rightarrow> gsap_page \<Rightarrow> gsap_page completion" where
  "initGSAPOptimizations doc w =
     (if gsap_undefined w \<or> scrollTrigger_undefined w
      then (None, w\<lparr>warnings := warnings w @
              [''GSAP or ScrollTrigger not loaded. Skipping optimized animations.'']\<rparr>)
      else
        let w1 = w\<lparr>pluginRegistered := True\<rparr>;
            w2 = w1\<lparr>gsapDefaults := Some [(''ease'', ''power2.out''), (''duration'', ''0.8'')]\<rparr>
        in and_then (initOptimizedImageAnimations doc w2)
             (\<lambda>w3. and_then (initOptimizedTextAnimations doc w3)
                (\<lambda>w4. and_then (initOptimizedFooterAnimation doc w4)
                   (\<lambda>w5. and_then (initOptimizedStatsAnimation doc w5)
                      (\<lambda>w6. (None, w6\<lparr>refreshes := refreshes w6 + 1\<rparr>))))))"

text \<open>
  A page on which nothing has run yet; the arguments say whether \<open>gsap\<close> and
  \<open>ScrollTrigger\<close> are undefined.
\<close>

definition fresh_page :: "bool \<Rightarrow> bool \<Rightarrow> gsap_page" where
  "fresh_page g st =
     \<lparr>gsap_undefined = g, scrollTrigger_undefined = st, willChange = (\<lambda>el. None),
      splitDone = (\<lambda>el. None), splitCalls = [], animations = [], pluginRegistered = False,
      gsapDefaults = None, refreshes = 0, warnings = []\<rparr>"

text \<open>
  A page with two headings (1 and 2; 2 carries two of the heading classes), a footer
  (10) with its regions (11 to 19), and a stats block (20) with a line (21) and a
  figure (22, of class \<open>stats\<close>, so a heading as well). The argument is what the footer
  holds of class \<open>download-text\<close>.
\<close>

definition footer_document :: "nat list \<Rightarrow> document" where
  "footer_document downloadTexts =
     \<lparr>querySelectorAll = (\<lambda>selector.
          if selector = ''.section-heading'' then [1, 2]
          else if selector = ''.stats-heading'' then [2]
          else if selector = ''.stats'' then [22]
          else if selector = ''.footer'' then [10]
          else if selector = ''.location.stats.div'' then [20]
          else []),
      querySelectorAllIn = (\<lambda>parent selector.
          if parent = 10 then
            (if selector = ''.footer-logo-div'' then [11]
             else if selector = ''.footer-left-grid'' then [12]
             else if selector = ''.download-heading'' then [13]
             else if selector = ''.download-text'' then downloadTexts
             else if selector = ''.line.footer'' then [14]
             else if selector = ''.footer-middle-div'' then [15]
             else if selector = ''.footer-text'' then [16]
             else if selector = ''.footer-bottom-div'' then [17]
             else if selector = ''.terms-heading'' then [18]
             else if selector = ''.icon'' then [19]
             else [])
          else if parent = 20 then
            (if selector = ''.line'' then [21] else if selector = ''.stats'' then [22] else [])
          else []),
      splitWords = (\<lambda>el. if el = 1 then [101, 102] else if el = 2 then [201]
                         else if el = 22 then [221] else [])\<rparr>"

text \<open>
  The part of \<open>initOptimizedTextAnimations\<close> after the headings, under a name of its own
  for the proofs: the fade-in group and the logo group.
\<close>

definition fade_and_logos :: "document \<Rightarrow> gsap_page \<Rightarrow> gsap_page completion" where
  "fade_and_logos doc w1 =
     and_then
          (let allFadeElements = flatMap_query doc fadeInSelectors
           in if length allFadeElements > 0
              then createOptimizedScrollTrigger allFadeElements
                     [(''opacity'', ''0''), (''y'', ''20'')]
                     [(''opacity'', ''1''), (''y'', ''0''), (''duration'', ''0.6''),
                      (''ease'', ''power2.out''), (''stagger'', ''0.05'')]
                     \<lparr>tp_start = Some ''top 90%'', tp_trigger = None\<rparr> w1
              else (None, w1))
          (\<lambda>w2. let allLogos = flatMap_query doc logoSelectors
                 in if length allLogos > 0
                    then createOptimizedScrollTrigger allLogos
                           [(''scale'', ''0.9''), (''opacity'', ''0'')]
                           [(''scale'', ''1''), (''opacity'', ''1''), (''duration'', ''0.8''),
                            (''ease'', ''power2.out''), (''stagger'', ''0.1'')]
                           \<lparr>tp_start = None, tp_trigger = None\<rparr> w2
                    else (None, w2))"

text \<open>A document without any element.\<close>

definition empty_document :: document where
  "empty_document =
     \<lparr>querySelectorAll = (\<lambda>selector. []), querySelectorAllIn = (\<lambda>parent selector. []),
      splitWords = (\<lambda>el. [])\<rparr>"

text \<open>The timelines among the animations (the footer's and the stats blocks').\<close>

definition is_timeline :: "animation \<Rightarrow> bool" where
  "is_timeline a = (case a of Timeline st tweens \<Rightarrow> True | _ \<Rightarrow> False)"

text \<open>The animations of headings are the ones made with \<open>gsap.from\<close>.\<close>

definition is_heading_animation :: "animation \<Rightarrow> bool" where
  "is_heading_animation a = (case a of From targets v st \<Rightarrow> True | _ \<Rightarrow> False)"

section \<open>Properties of the number arithmetic\<close>

subsection \<open>Rounding\<close>

lemma floor_frac: "of_int \<lfloor>t\<rfloor> \<le> t \<and> t < of_int \<lfloor>t\<rfloor> + 1" for t :: rat
  by linarith

lemma round_half_even_of_int: "round_half_even (of_int k) = k"
  by (simp add: round_half_even_def)

lemma floor_divide_numeral: "\<lfloor>numeral a / numeral b :: rat\<rfloor> = numeral a div numeral b"
  using floor_divide_of_int_eq [of "numeral a" "numeral b", where ?'a = rat] by simp

lemma round_half_even_cases:
  "round_half_even t = \<lfloor>t\<rfloor> \<and> t - of_int \<lfloor>t\<rfloor> \<le> 1 / 2
   \<or> round_half_even t = \<lfloor>t\<rfloor> + 1 \<and> t - of_int \<lfloor>t\<rfloor> \<ge> 1 / 2"
  by (simp add: round_half_even_def Let_def)

lemma round_half_even_error: "\<bar>of_int (round_half_even t) - t\<bar> \<le> 1 / 2"
  using round_half_even_cases [of t] floor_frac [of t] by auto

lemma round_half_even_ge: "of_int k \<le> t \<Longrightarrow> k \<le> round_half_even t"
  using round_half_even_cases [of t] le_floor_iff [of k t] by auto

lemma round_half_even_le:
  assumes "t \<le> of_int k"
  shows "round_half_even t \<le> k"
proof (cases "t = of_int k")
  case True
  then show ?thesis by (simp add: round_half_even_of_int)
next
  case False
  with assms have "t < of_int k" by simp
  then have "\<lfloor>t\<rfloor> < k" by (simp add: floor_less_iff)
  with round_half_even_cases [of t] show ?thesis by auto
qed

lemma round_half_even_tie:
  assumes "even k"
  shows "k < round_half_even t \<longleftrightarrow> of_int k + 1 / 2 < t"
proof
  assume gt: "of_int k + 1 / 2 < t"
  show "k < round_half_even t"
  proof (cases "of_int (k + 1) \<le> t")
    case True
    then have "k + 1 \<le> round_half_even t" by (rule round_half_even_ge)
    then show ?thesis by simp
  next
    case False
    with gt have "\<lfloor>t\<rfloor> = k" by (simp add: floor_unique)
    with gt show ?thesis by (simp add: round_half_even_def Let_def)
  qed
next
  assume r: "k < round_half_even t"
  show "of_int k + 1 / 2 < t"
  proof (rule ccontr)
    assume "\<not> of_int k + 1 / 2 < t"
    then have le: "t \<le> of_int k + 1 / 2" by simp
    show False
    proof (cases "t \<le> of_int k")
      case True
      then have "round_half_even t \<le> k" by (rule round_half_even_le)
      with r show False by simp
    next
      case False
      with le have "\<lfloor>t\<rfloor> = k" by (simp add: floor_unique)
      with le assms have "round_half_even t = k" by (simp add: round_half_even_def Let_def)
      with r show False by simp
    qed
  qed
qed

lemma round_half_even_minus: "round_half_even (- t) = - round_half_even t"
proof (cases "t = of_int \<lfloor>t\<rfloor>")
  case True
  then obtain k where "t = of_int k" ..
  then have "- t = of_int (- k)" by simp
  then show ?thesis using \<open>t = of_int k\<close> by (simp only: round_half_even_of_int)
next
  case False
  have lt: "of_int \<lfloor>t\<rfloor> < t" "t < of_int \<lfloor>t\<rfloor> + 1"
    using False floor_frac [of t] by (metis less_le, metis)
  then have fl: "\<lfloor>- t\<rfloor> = - \<lfloor>t\<rfloor> - 1"
    by (intro floor_unique) simp_all
  have "even (- \<lfloor>t\<rfloor> - 1) \<longleftrightarrow> odd \<lfloor>t\<rfloor>" by simp
  then show ?thesis
    using lt by (simp add: round_half_even_def Let_def fl)
qed


lemma two_powi_of_int: "0 \<le> k \<Longrightarrow> (2::rat) powi k = of_int (2 ^ nat k)"
  by (simp add: power_int_def)

lemma two_powi_pos: "0 < (2::rat) powi k"
  by (simp add: zero_less_power_int)

lemma exponent_bounds:
  assumes "q \<noteq> 0"
  shows "2 powi exponent q \<le> \<bar>q\<bar> \<and> \<bar>q\<bar> < 2 powi (exponent q + 1)"
proof (cases "\<bar>q\<bar> \<ge> 1")
  case True
  define n where "n = \<lfloor>\<bar>q\<bar>\<rfloor>"
  define b where "b = bitlen n"
  from True have n: "1 \<le> n" by (simp add: n_def le_floor_iff)
  then have "0 < n" by simp
  from bitlen_bounds [OF this] have bb: "2 ^ nat (b - 1) \<le> n" "n < 2 ^ nat b"
    by (simp_all add: b_def)
  have b1: "1 \<le> b"
  proof (rule ccontr)
    assume "\<not> 1 \<le> b"
    then have "nat b = 0" by simp
    with bb(2) n show False by simp
  qed
  have e: "exponent q = b - 1" using True by (simp add: exponent_def b_def n_def)
  have fl: "of_int n \<le> \<bar>q\<bar>" "\<bar>q\<bar> < of_int (n + 1)"
    using floor_frac [of "\<bar>q\<bar>"] by (simp_all add: n_def)
  have "(2::rat) powi (b - 1) = of_int (2 ^ nat (b - 1))"
    using b1 by (simp add: two_powi_of_int)
  also have "\<dots> \<le> of_int n" using bb(1) by (simp only: of_int_le_iff)
  finally have lo: "2 powi (b - 1) \<le> \<bar>q\<bar>" using fl(1) by simp
  from bb(2) have "n + 1 \<le> 2 ^ nat b" by simp
  then have "(of_int (n + 1) :: rat) \<le> of_int (2 ^ nat b)" by (simp only: of_int_le_iff)
  also have "\<dots> = 2 powi b" using b1 by (simp add: two_powi_of_int)
  finally have hi: "\<bar>q\<bar> < 2 powi b" using fl(2) by simp
  from lo hi show ?thesis by (simp add: e)
next
  case False
  define t where "t = 1 / \<bar>q\<bar>"
  define c where "c = \<lceil>t\<rceil>"
  define b where "b = bitlen (c - 1)"
  from False assms have q: "0 < \<bar>q\<bar>" "\<bar>q\<bar> < 1" by simp_all
  then have t: "1 < t" by (simp add: t_def)
  have ct: "of_int (c - 1) < t" "t \<le> of_int c"
    unfolding c_def by linarith+
  from t ct(2) have "(1::rat) < of_int c" by simp
  then have c: "1 < c" by (simp only: of_int_1_less_iff)
  then have "0 < c - 1" by simp
  from bitlen_bounds [OF this] have bb: "2 ^ nat (b - 1) \<le> c - 1" "c - 1 < 2 ^ nat b"
    by (simp_all add: b_def)
  have b1: "1 \<le> b"
  proof (rule ccontr)
    assume "\<not> 1 \<le> b"
    then have "nat b = 0" by simp
    with bb(2) c show False by simp
  qed
  have e: "exponent q = - b" using False by (simp add: exponent_def b_def c_def t_def)
  have q_t: "\<bar>q\<bar> = 1 / t" by (simp add: t_def)
  from bb(2) have "c \<le> 2 ^ nat b" by simp
  then have "(of_int c :: rat) \<le> of_int (2 ^ nat b)" by (simp only: of_int_le_iff)
  also have "\<dots> = 2 powi b" using b1 by (simp add: two_powi_of_int)
  finally have "t \<le> 2 powi b" using ct(2) by simp
  then have "1 / (2 powi b) \<le> 1 / t"
    using t by (intro divide_left_mono) (simp_all add: two_powi_pos)
  then have lo: "2 powi (- b) \<le> \<bar>q\<bar>"
    by (simp add: q_t power_int_minus divide_simps)
  have "(2::rat) powi (b - 1) = of_int (2 ^ nat (b - 1))"
    using b1 by (simp add: two_powi_of_int)
  also have "\<dots> \<le> of_int (c - 1)" using bb(1) by (simp only: of_int_le_iff)
  finally have "2 powi (b - 1) < t" using ct(1) by simp
  then have "1 / t < 1 / (2 powi (b - 1))"
    using t by (intro divide_strict_left_mono) (simp_all add: two_powi_pos)
  also have "\<dots> = inverse (2 powi (b - 1))"
    by (simp only: inverse_eq_divide)
  also have "\<dots> = 2 powi (- (b - 1))"
    by (rule power_int_minus [symmetric])
  finally have hi: "\<bar>q\<bar> < 2 powi (- b + 1)" by (simp add: q_t)
  from lo hi show ?thesis by (simp add: e)
qed

lemma exponent_unique:
  assumes "2 powi k \<le> \<bar>q\<bar>" "\<bar>q\<bar> < 2 powi (k + 1)"
  shows "exponent q = k"
proof -
  have "q \<noteq> 0"
  proof
    assume "q = 0"
    with assms(1) have "(2::rat) powi k \<le> 0" by simp
    with two_powi_pos [of k] show False by linarith
  qed
  from exponent_bounds [OF this]
  have b: "2 powi exponent q \<le> \<bar>q\<bar>" "\<bar>q\<bar> < 2 powi (exponent q + 1)" by simp_all
  from b(1) assms(2) have "(2::rat) powi exponent q < 2 powi (k + 1)" by simp
  then have 1: "exponent q < k + 1"
    by (metis not_less power_int_increasing one_le_numeral)
  from assms(1) b(2) have "(2::rat) powi k < 2 powi (exponent q + 1)" by simp
  then have 2: "k < exponent q + 1"
    by (metis not_less power_int_increasing one_le_numeral)
  from 1 2 show ?thesis by simp
qed

lemma exponent_minus: "exponent (- q) = exponent q"
  by (simp add: exponent_def)


lemma ulp_pos: "0 < ulp q"
  by (simp add: ulp_def two_powi_pos)

lemma ulp_minus: "ulp (- q) = ulp q"
  by (simp add: ulp_def exponent_minus)

lemma round_nearest_minus: "round_nearest (- q) = - round_nearest q"
  by (simp add: round_nearest_def ulp_minus round_half_even_minus)

lemma round_nearest_error: "\<bar>round_nearest q - q\<bar> \<le> ulp q / 2"
proof (cases "q = 0")
  case True
  then show ?thesis using ulp_pos [of q] by (simp add: round_nearest_def)
next
  case False
  define u where "u = ulp q"
  define m where "m = round_half_even (q / u)"
  have u: "0 < u" by (simp add: u_def ulp_pos)
  have "round_nearest q - q = (of_int m - q / u) * u"
    using False u by (simp add: round_nearest_def m_def u_def field_simps)
  then have "\<bar>round_nearest q - q\<bar> = \<bar>of_int m - q / u\<bar> * u"
    using u by (simp add: abs_mult)
  also have "\<dots> \<le> (1 / 2) * u"
    using round_half_even_error [of "q / u"] u unfolding m_def
    by (intro mult_right_mono) simp_all
  finally show ?thesis by (simp add: u_def)
qed

text \<open>Rounding does not cross a point of the grid it rounds to.\<close>

lemma round_nearest_le_grid:
  assumes "q \<le> of_int j * ulp q"
  shows "round_nearest q \<le> of_int j * ulp q"
proof (cases "q = 0")
  case True
  with assms show ?thesis by (simp add: round_nearest_def)
next
  case False
  from assms ulp_pos [of q] have "q / ulp q \<le> of_int j"
    by (simp add: field_simps)
  then have "round_half_even (q / ulp q) \<le> j" by (rule round_half_even_le)
  then have "(of_int (round_half_even (q / ulp q)) :: rat) \<le> of_int j"
    by (simp only: of_int_le_iff)
  then have "of_int (round_half_even (q / ulp q)) * ulp q \<le> of_int j * ulp q"
    using ulp_pos [of q] by (intro mult_right_mono) simp_all
  with False show ?thesis by (simp add: round_nearest_def)
qed

lemma round_nearest_ge_grid:
  assumes "of_int j * ulp q \<le> q"
  shows "of_int j * ulp q \<le> round_nearest q"
proof -
  from assms have "- q \<le> of_int (- j) * ulp (- q)" by (simp add: ulp_minus)
  then have "round_nearest (- q) \<le> of_int (- j) * ulp (- q)" by (rule round_nearest_le_grid)
  then show ?thesis by (simp add: round_nearest_minus ulp_minus)
qed

lemma two_powi_le_iff: "(2::rat) powi a \<le> 2 powi b \<longleftrightarrow> a \<le> b"
  by (metis not_less power_int_increasing power_int_strict_increasing one_le_numeral
      one_less_numeral_iff semiring_norm(76))

lemma two_powi_less_iff: "(2::rat) powi a < 2 powi b \<longleftrightarrow> a < b"
  by (metis not_less two_powi_le_iff)

lemma two_powi_diff: "(2::rat) powi (a - b) = 2 powi a / 2 powi b"
  by (simp add: power_int_diff)

lemma two_powi_add: "(2::rat) powi (a + b) = 2 powi a * 2 powi b"
  by (simp add: power_int_add)

text \<open>A power of two at or above the unit in the last place is on the grid.\<close>

lemma two_powi_grid:
  assumes "max (exponent q) (- 1022) - 52 \<le> k"
  shows "(2::rat) powi k = of_int (2 ^ nat (k - (max (exponent q) (- 1022) - 52))) * ulp q"
proof -
  let ?d = "max (exponent q) (- 1022) - 52"
  from assms have "0 \<le> k - ?d" by simp
  then have "(of_int (2 ^ nat (k - ?d)) :: rat) = 2 powi (k - ?d)"
    by (simp only: two_powi_of_int)
  also have "\<dots> = 2 powi k / 2 powi ?d" by (rule two_powi_diff)
  finally show ?thesis using two_powi_pos [of ?d] by (simp add: ulp_def)
qed

lemma exponent_le:
  assumes "q \<noteq> 0" "\<bar>q\<bar> \<le> 2 powi k"
  shows "exponent q \<le> k"
proof -
  from exponent_bounds [OF assms(1)] assms(2) have "(2::rat) powi exponent q \<le> 2 powi k"
    by simp
  then show ?thesis by (simp only: two_powi_le_iff)
qed

lemma exponent_ge:
  assumes "2 powi k \<le> \<bar>q\<bar>"
  shows "k \<le> exponent q"
proof -
  have "q \<noteq> 0"
  proof
    assume "q = 0"
    with assms have "(2::rat) powi k \<le> 0" by simp
    with two_powi_pos [of k] show False by linarith
  qed
  from exponent_bounds [OF this] assms have "(2::rat) powi k < 2 powi (exponent q + 1)"
    by simp
  then have "k < exponent q + 1" by (simp only: two_powi_less_iff)
  then show ?thesis by simp
qed

lemma round_nearest_upper:
  assumes "\<bar>q\<bar> \<le> 2 powi k" "- 1022 \<le> k"
  shows "\<bar>round_nearest q\<bar> \<le> 2 powi k"
proof (cases "q = 0")
  case True
  then show ?thesis using two_powi_pos [of k] by (simp add: round_nearest_def less_imp_le)
next
  case False
  from exponent_le [OF False assms(1)] assms(2)
  have "max (exponent q) (- 1022) - 52 \<le> k" by simp
  from two_powi_grid [OF this] obtain j where g: "(2::rat) powi k = of_int j * ulp q" ..
  from assms(1) have "q \<le> of_int j * ulp q" by (simp add: g [symmetric])
  then have 1: "round_nearest q \<le> 2 powi k" unfolding g by (rule round_nearest_le_grid)
  from assms(1) have "of_int (- j) * ulp q \<le> q" using g by simp
  then have "of_int (- j) * ulp q \<le> round_nearest q" by (rule round_nearest_ge_grid)
  then have 2: "- (2 powi k) \<le> round_nearest q" using g by simp
  from 1 2 show ?thesis by simp
qed

lemma round_nearest_lower:
  assumes "2 powi k \<le> q" "- 1022 \<le> k"
  shows "2 powi k \<le> round_nearest q"
proof -
  from assms(1) two_powi_pos [of k] have pos: "0 < q" by linarith
  with assms(1) have a: "2 powi k \<le> \<bar>q\<bar>" by simp
  from exponent_ge [OF a] have ke: "k \<le> exponent q" .
  with assms(2) have "max (exponent q) (- 1022) - 52 \<le> exponent q" by simp
  from two_powi_grid [OF this] obtain j where g: "(2::rat) powi exponent q = of_int j * ulp q" ..
  from pos have "q \<noteq> 0" by simp
  from exponent_bounds [OF this] pos have "of_int j * ulp q \<le> q" by (simp add: g [symmetric])
  then have "of_int j * ulp q \<le> round_nearest q" by (rule round_nearest_ge_grid)
  then have "2 powi exponent q \<le> round_nearest q" by (simp add: g)
  moreover from ke have "(2::rat) powi k \<le> 2 powi exponent q" by (simp only: two_powi_le_iff)
  ultimately show ?thesis by simp
qed


text \<open>A number with at most 53 significant bits, not below the subnormal grid, is not rounded.\<close>

lemma round_nearest_exact:
  assumes "q = of_int m * 2 powi j" "\<bar>m\<bar> < 2 ^ 53" "- 1074 \<le> j"
  shows "round_nearest q = q"
proof (cases "q = 0")
  case True
  then show ?thesis by (simp add: round_nearest_def)
next
  case False
  let ?d = "max (exponent q) (- 1022) - 52"
  from assms(2) have "(of_int \<bar>m\<bar> :: rat) < of_int (2 ^ 53)" by (simp only: of_int_less_iff)
  then have "\<bar>of_int m :: rat\<bar> < 2 powi 53" by simp
  then have "\<bar>of_int m :: rat\<bar> * 2 powi j < 2 powi 53 * 2 powi j"
    using two_powi_pos [of j] by (intro mult_strict_right_mono)
  also have "\<dots> = 2 powi (53 + j)" by (simp add: power_int_add)
  finally have "\<bar>q\<bar> < 2 powi (53 + j)"
    using two_powi_pos [of j] by (simp add: assms(1) abs_mult)
  with exponent_bounds [OF False] have "(2::rat) powi exponent q < 2 powi (53 + j)" by simp
  then have "exponent q < 53 + j" by (simp only: two_powi_less_iff)
  with assms(3) have "?d \<le> j" by simp
  from two_powi_grid [OF this]
  have "q = of_int (m * 2 ^ nat (j - ?d)) * ulp q" by (simp add: assms(1))
  then have "q / ulp q = of_int (m * 2 ^ nat (j - ?d))"
    using ulp_pos [of q] by (simp add: field_simps)
  then have "round_half_even (q / ulp q) = m * 2 ^ nat (j - ?d)"
    by (simp only: round_half_even_of_int)
  then have "of_int (round_half_even (q / ulp q)) * ulp q = of_int (m * 2 ^ nat (j - ?d)) * ulp q"
    by simp
  also have "\<dots> = q" using \<open>q = of_int (m * 2 ^ nat (j - ?d)) * ulp q\<close> by simp
  finally show ?thesis using False by (simp add: round_nearest_def)
qed

text \<open>
  Comparison with a double \<open>c\<close> of even significand: a number rounds to more than \<open>c\<close>
  exactly when it lies above the midpoint of \<open>c\<close> and the next double.
\<close>

lemma round_nearest_gt_even:
  assumes c: "c = of_int m * 2 powi (k - 52)"
    and m: "2 ^ 52 \<le> m" "m < 2 ^ 53" "even m"
    and k: "- 1022 \<le> k"
  shows "c < round_nearest q \<longleftrightarrow> c + 2 powi (k - 53) < q"
proof -
  let ?u = "(2::rat) powi (k - 52)"
  have u: "0 < ?u" by (rule two_powi_pos)
  have h: "2 powi (k - 53) = ?u / 2"
    by (simp add: two_powi_diff)
  have "(2::rat) powi 52 * ?u = 2 powi (52 + (k - 52))" by (rule two_powi_add [symmetric])
  then have p52: "of_int (2 ^ 52) * ?u = 2 powi k" by simp
  have "(2::rat) powi 53 * ?u = 2 powi (53 + (k - 52))" by (rule two_powi_add [symmetric])
  then have p53: "of_int (2 ^ 53) * ?u = 2 powi (k + 1)" by (simp add: add.commute)
  from m(1) have "(of_int (2 ^ 52) :: rat) \<le> of_int m" by (simp only: of_int_le_iff)
  then have "of_int (2 ^ 52) * ?u \<le> of_int m * ?u" using u by (intro mult_right_mono) simp_all
  then have lo: "2 powi k \<le> c" by (simp only: p52 c)
  from m(2) have "m + 1 \<le> 2 ^ 53" by simp
  then have "(of_int (m + 1) :: rat) \<le> of_int (2 ^ 53)" by (simp only: of_int_le_iff)
  then have "of_int (m + 1) * ?u \<le> of_int (2 ^ 53) * ?u" using u by (intro mult_right_mono) simp_all
  then have "of_int (m + 1) * ?u \<le> 2 powi (k + 1)" by (simp only: p53)
  moreover have "of_int (m + 1) * ?u = c + ?u" by (simp add: c algebra_simps)
  ultimately have hi: "c + ?u \<le> 2 powi (k + 1)" by simp
  consider "q < 2 powi k" | "2 powi k \<le> q" "q < 2 powi (k + 1)" | "2 powi (k + 1) \<le> q"
    by linarith
  then show ?thesis
  proof cases
    case 1
    have "round_nearest q \<le> 2 powi k"
    proof (cases "- (2 powi k) \<le> q")
      case True
      with 1 have "\<bar>q\<bar> \<le> 2 powi k" by simp
      then have "\<bar>round_nearest q\<bar> \<le> 2 powi k" using k by (rule round_nearest_upper)
      then show ?thesis by simp
    next
      case False
      then have "2 powi k \<le> - q" by simp
      then have "2 powi k \<le> round_nearest (- q)" using k by (rule round_nearest_lower)
      then have "2 powi k \<le> - round_nearest q" by (simp add: round_nearest_minus)
      with two_powi_pos [of k] show ?thesis by linarith
    qed
    with 1 lo u h have "\<not> c < round_nearest q" "\<not> c + 2 powi (k - 53) < q"
      by linarith+
    then show ?thesis by simp
  next
    case 3
    from k have "- 1022 \<le> k + 1" by simp
    with 3(1) have "2 powi (k + 1) \<le> round_nearest q" by (rule round_nearest_lower)
    with 3 hi u h have "c < round_nearest q" "c + 2 powi (k - 53) < q"
      by linarith+
    then show ?thesis by simp
  next
    case 2
    with two_powi_pos [of k] have pos: "0 < q" by linarith
    with 2 have "2 powi k \<le> \<bar>q\<bar>" "\<bar>q\<bar> < 2 powi (k + 1)" by simp_all
    then have e: "exponent q = k" by (rule exponent_unique)
    have ulp: "ulp q = ?u" using k by (simp add: ulp_def e max_def)
    from pos have r: "round_nearest q = of_int (round_half_even (q / ?u)) * ?u"
      by (simp add: round_nearest_def ulp)
    have "c < round_nearest q \<longleftrightarrow> (of_int m :: rat) < of_int (round_half_even (q / ?u))"
      using u by (simp add: r c)
    also have "\<dots> \<longleftrightarrow> m < round_half_even (q / ?u)"
      by (simp only: of_int_less_iff)
    also have "\<dots> \<longleftrightarrow> of_int m + 1 / 2 < q / ?u"
      using m(3) by (rule round_half_even_tie)
    also have "\<dots> \<longleftrightarrow> c + ?u / 2 < q"
      using u by (simp add: c field_simps)
    finally show ?thesis by (simp only: h)
  qed
qed

lemma round_nearest_rel_error:
  "\<bar>round_nearest q - q\<bar> \<le> \<bar>q\<bar> / 2 ^ 53 + 1 / 2 ^ 1075"
  "\<bar>round_nearest q - q\<bar> \<le> \<bar>round_nearest q\<bar> / 2 ^ 53 + 1 / 2 ^ 1075"
proof -
  have "\<bar>round_nearest q - q\<bar> \<le> \<bar>q\<bar> / 2 ^ 53 + 1 / 2 ^ 1075
      \<and> \<bar>round_nearest q - q\<bar> \<le> \<bar>round_nearest q\<bar> / 2 ^ 53 + 1 / 2 ^ 1075"
  proof (cases "q = 0")
    case True
    then show ?thesis by (simp add: round_nearest_def)
  next
    case False
    note err = round_nearest_error [of q]
    show ?thesis
    proof (cases "- 1022 \<le> exponent q")
      case True
      then have "ulp q = 2 powi exponent q / 2 powi 52"
        by (simp add: ulp_def max_def two_powi_diff)
      then have u: "ulp q / 2 = 2 powi exponent q / 2 ^ 53" by simp
      from exponent_bounds [OF False] have lo: "2 powi exponent q \<le> \<bar>q\<bar>" by simp
      have "2 powi exponent q \<le> \<bar>round_nearest q\<bar>"
      proof (cases "0 < q")
        case True
        with lo have "2 powi exponent q \<le> q" by simp
        then have "2 powi exponent q \<le> round_nearest q"
          using \<open>- 1022 \<le> exponent q\<close> by (rule round_nearest_lower)
        then show ?thesis by simp
      next
        case neg: False
        with lo False have "2 powi exponent q \<le> - q" by simp
        then have "2 powi exponent (- q) \<le> - q" by (simp add: exponent_minus)
        then have "2 powi exponent (- q) \<le> round_nearest (- q)"
          using \<open>- 1022 \<le> exponent q\<close> by (intro round_nearest_lower) (simp_all add: exponent_minus)
        then show ?thesis by (simp add: round_nearest_minus exponent_minus)
      qed
      with lo err u show ?thesis by (simp add: field_simps)
    next
      case False
      then have "ulp q = 2 powi (- 1074)" by (simp add: ulp_def max_def)
      then have "ulp q / 2 = 1 / 2 ^ 1075" by (simp add: power_int_minus divide_simps)
      with err have "\<bar>round_nearest q - q\<bar> \<le> 1 / 2 ^ 1075" by simp
      moreover have "0 \<le> \<bar>q\<bar> / 2 ^ 53" "0 \<le> \<bar>round_nearest q\<bar> / 2 ^ 53" by simp_all
      ultimately show ?thesis by linarith
    qed
  qed
  then show "\<bar>round_nearest q - q\<bar> \<le> \<bar>q\<bar> / 2 ^ 53 + 1 / 2 ^ 1075"
    "\<bar>round_nearest q - q\<bar> \<le> \<bar>round_nearest q\<bar> / 2 ^ 53 + 1 / 2 ^ 1075" by simp_all
qed

subsection \<open>The result of an operation\<close>

lemma round_double_cases:
  obtains (finite) "round_double q = Finite (round_nearest q)"
      "- (2 ^ 1024) < round_nearest q" "round_nearest q < 2 ^ 1024"
    | (pos) "round_double q = PosInfinity" "2 ^ 1024 \<le> round_nearest q"
    | (neg) "round_double q = NegInfinity" "round_nearest q \<le> - (2 ^ 1024)"
proof -
  have "(- (2 ^ 1024) :: rat) < 2 ^ 1024" by simp
  consider "2 ^ 1024 \<le> round_nearest q" | "round_nearest q \<le> - (2 ^ 1024)"
    | "- (2 ^ 1024) < round_nearest q" "round_nearest q < 2 ^ 1024"
    by linarith
  then show ?thesis
  proof cases
    case 1
    then have "round_double q = PosInfinity"
      unfolding round_double_def Let_def by (simp only: if_True)
    then show ?thesis using 1 by (rule pos)
  next
    case 2
    with \<open>- (2 ^ 1024) < 2 ^ 1024\<close> have "\<not> 2 ^ 1024 \<le> round_nearest q" by linarith
    with 2 have "round_double q = NegInfinity"
      unfolding round_double_def Let_def by (simp only: if_True if_False)
    then show ?thesis using 2 by (rule neg)
  next
    case 3
    then have "\<not> 2 ^ 1024 \<le> round_nearest q" "\<not> round_nearest q \<le> - (2 ^ 1024)"
      by linarith+
    then have "round_double q = Finite (round_nearest q)"
      unfolding round_double_def Let_def by (simp only: if_False)
    then show ?thesis using 3 by (rule finite)
  qed
qed

lemma round_double_Finite: "round_double q = Finite r \<Longrightarrow> r = round_nearest q"
  by (cases q rule: round_double_cases) simp_all

lemma round_double_not_NaN: "round_double q \<noteq> NaN"
  by (cases q rule: round_double_cases) simp_all

lemma round_double_zero: "round_double 0 = Finite 0"
  by (simp add: round_double_def round_nearest_def)

text \<open>Below \<open>2^1023\<close> in magnitude nothing overflows, and rounding stays below the bound.\<close>

lemma round_double_finite:
  assumes "\<bar>q\<bar> \<le> 2 powi k" "- 1022 \<le> k" "k \<le> 1023"
  obtains r where "round_double q = Finite r" "\<bar>r\<bar> \<le> 2 powi k"
proof -
  from assms(1,2) have r: "\<bar>round_nearest q\<bar> \<le> 2 powi k" by (rule round_nearest_upper)
  from assms(3) have "(2::rat) powi k \<le> 2 powi 1023" by (simp only: two_powi_le_iff)
  also have "\<dots> < 2 ^ 1024" by simp
  finally have "2 powi k < (2::rat) ^ 1024" .
  with r have b: "\<bar>round_nearest q\<bar> < 2 ^ 1024" by linarith
  have "round_double q = Finite (round_nearest q)"
  proof (cases q rule: round_double_cases)
    case finite
    then show ?thesis by simp
  next
    case pos
    with b show ?thesis by linarith
  next
    case neg
    with b show ?thesis by linarith
  qed
  with r that show ?thesis by blast
qed

lemma round_double_exact:
  assumes "q = of_int m * 2 powi j" "\<bar>m\<bar> < 2 ^ 53" "- 1074 \<le> j" "j \<le> 970"
  shows "round_double q = Finite q"
proof -
  have r: "round_nearest q = q" using assms(1-3) by (rule round_nearest_exact)
  from assms(2) have "(of_int \<bar>m\<bar> :: rat) < of_int (2 ^ 53)" by (simp only: of_int_less_iff)
  then have m: "\<bar>of_int m :: rat\<bar> \<le> 2 powi 53" by simp
  have "\<bar>q\<bar> = \<bar>of_int m :: rat\<bar> * 2 powi j"
    using two_powi_pos [of j] by (simp add: assms(1) abs_mult)
  also have "\<dots> \<le> 2 powi 53 * 2 powi j"
    using m two_powi_pos [of j] by (intro mult_right_mono) simp_all
  also have "\<dots> = 2 powi (53 + j)" by (simp add: power_int_add)
  finally have le: "\<bar>q\<bar> \<le> 2 powi (53 + j)" .
  from assms(3,4) have "- 1022 \<le> 53 + j" "53 + j \<le> 1023" by simp_all
  with le obtain r where "round_double q = Finite r" by (rule round_double_finite)
  with round_double_Finite [of q r] r show ?thesis by simp
qed

text \<open>The result for a number of known binary exponent, for computing examples.\<close>

lemma round_double_eval:
  assumes "2 powi k \<le> \<bar>q\<bar>" "\<bar>q\<bar> < 2 powi (k + 1)" "- 1022 \<le> k" "k \<le> 1022"
  shows "round_double q = Finite (of_int (round_half_even (q / 2 powi (k - 52))) * 2 powi (k - 52))"
proof -
  from assms(1,2) have e: "exponent q = k" by (rule exponent_unique)
  have u: "ulp q = 2 powi (k - 52)" using assms(3) by (simp add: ulp_def e max_def)
  from assms(1) two_powi_pos [of k] have "0 < \<bar>q\<bar>" by linarith
  then have "q \<noteq> 0" by simp
  then have r: "round_nearest q = of_int (round_half_even (q / 2 powi (k - 52))) * 2 powi (k - 52)"
    by (simp add: round_nearest_def u)
  from assms(2) have "\<bar>q\<bar> \<le> 2 powi (k + 1)" by simp
  moreover from assms(3,4) have "- 1022 \<le> k + 1" "k + 1 \<le> 1023" by simp_all
  ultimately obtain x where "round_double q = Finite x" by (rule round_double_finite)
  with round_double_Finite [of q x] r show ?thesis by simp
qed

text \<open>Whole numbers below \<open>2^53\<close> in magnitude are doubles.\<close>

lemma round_double_of_int: "\<bar>n\<bar> < 2 ^ 53 \<Longrightarrow> round_double (of_int n) = Finite (of_int n)"
  using round_double_exact [of "of_int n" n 0] by simp

lemma round_double_numeral:
  "numeral k < (2::int) ^ 53 \<Longrightarrow> round_double (numeral k) = Finite (numeral k)"
  "numeral k < (2::int) ^ 53 \<Longrightarrow> round_double (- numeral k) = Finite (- numeral k)"
  "round_double 1 = Finite 1"
  using round_double_of_int [of "numeral k"] round_double_of_int [of "- numeral k"]
    round_double_of_int [of 1]
  by simp_all

text \<open>
  The doubles that the literals 100.7, 0.7, 60.7, 10.1 and 200.3 denote, for the
  examples.
\<close>

lemma double_literals:
  "round_double (1007 / 10) = Finite (7086132538690765 / 2 ^ 46)"
  "round_double (7 / 10) = Finite (3152519739159347 / 2 ^ 52)"
  "round_double (607 / 10) = Finite (4271382771584205 / 2 ^ 46)"
  "round_double (101 / 10) = Finite (5685794529555251 / 2 ^ 49)"
  "round_double (2003 / 10) = Finite (3523714864696525 / 2 ^ 44)"
  using round_double_eval [of 6 "1007 / 10"] round_double_eval [of "- 1" "7 / 10"]
    round_double_eval [of 5 "607 / 10"] round_double_eval [of 3 "101 / 10"]
    round_double_eval [of 7 "2003 / 10"]
  by (simp_all add: round_half_even_def Let_def power_int_minus floor_divide_numeral)

text \<open>
  \<open>100.7 - 0.7\<close> is 100: the exact difference of the two doubles is above 100 by less
  than half the distance to the next double. \<open>60.7 - 10.1 - 200.3 / 2\<close> is
  \<open>-49.550000000000004\<close>: the first subtraction is rounded, the halving and the second
  subtraction are exact.
\<close>

lemma double_differences:
  "round_double (7086132538690765 / 2 ^ 46 - 3152519739159347 / 2 ^ 52) = Finite 100"
  "round_double (4271382771584205 / 2 ^ 46 - 5685794529555251 / 2 ^ 49)
     = Finite (7121316910779597 / 2 ^ 47)"
  "round_double (3523714864696525 / 2 ^ 44 / 2) = Finite (3523714864696525 / 2 ^ 45)"
  "round_double (7121316910779597 / 2 ^ 47 - 3523714864696525 / 2 ^ 45)
     = Finite (- (6973542548006503 / 2 ^ 47))"
  using round_double_eval [of 6 "7086132538690765 / 2 ^ 46 - 3152519739159347 / 2 ^ 52"]
    round_double_eval [of 5 "4271382771584205 / 2 ^ 46 - 5685794529555251 / 2 ^ 49"]
    round_double_exact [of "3523714864696525 / 2 ^ 44 / 2" 3523714864696525 "- 45"]
    round_double_exact [of "7121316910779597 / 2 ^ 47 - 3523714864696525 / 2 ^ 45"
      "- 6973542548006503" "- 47"]
  by (simp_all add: round_half_even_def Let_def power_int_minus floor_divide_numeral)

text \<open>
  The relative error of one operation is at most \<open>2^(-53)\<close>, up to the absolute error
  \<open>2^(-1075)\<close> of a subnormal result.
\<close>

lemma round_double_error:
  assumes "round_double q = Finite r"
  shows "\<bar>r - q\<bar> \<le> \<bar>q\<bar> / 2 ^ 53 + 1 / 2 ^ 1075"
    and "\<bar>r - q\<bar> \<le> \<bar>r\<bar> / 2 ^ 53 + 1 / 2 ^ 1075"
  using round_double_Finite [OF assms] round_nearest_rel_error [of q] by simp_all

lemma js_gt_round_double:
  assumes c: "c = of_int m * 2 powi (k - 52)"
    and m: "2 ^ 52 \<le> m" "m < 2 ^ 53" "even m"
    and k: "- 1022 \<le> k" "k \<le> 1023"
  shows "js_gt (round_double q) (Finite c) \<longleftrightarrow> c + 2 powi (k - 53) < q"
proof -
  note gt = round_nearest_gt_even [OF c m k(1), of q]
  have "(2::rat) powi 53 * 2 powi (k - 52) = 2 powi (53 + (k - 52))"
    by (rule two_powi_add [symmetric])
  then have p53: "of_int (2 ^ 53) * 2 powi (k - 52) = (2::rat) powi (k + 1)"
    by (simp add: add.commute)
  from m(1) have "(0::rat) \<le> of_int m" by simp
  then have c0: "0 \<le> c" using two_powi_pos [of "k - 52"] by (simp add: c)
  from m(2) have "(of_int m :: rat) < of_int (2 ^ 53)" by (simp only: of_int_less_iff)
  then have "of_int m * 2 powi (k - 52) < of_int (2 ^ 53) * (2::rat) powi (k - 52)"
    using two_powi_pos [of "k - 52"] by (intro mult_strict_right_mono)
  then have "c < 2 powi (k + 1)" by (simp only: p53 c)
  also from k(2) have "(2::rat) powi (k + 1) \<le> 2 powi 1024" by (simp only: two_powi_le_iff)
  also have "(2::rat) powi 1024 = 2 ^ 1024" by simp
  finally have c1: "c < 2 ^ 1024" .
  show ?thesis
  proof (cases q rule: round_double_cases)
    case finite
    then show ?thesis by (simp add: gt)
  next
    case pos
    with c1 have "c < round_nearest q" by linarith
    with pos show ?thesis by (simp add: gt [symmetric])
  next
    case neg
    with c0 c1 have "\<not> c < round_nearest q" by linarith
    with neg show ?thesis by (simp add: gt [symmetric])
  qed
qed

text \<open>
  The thresholds of the gesture handlers. The double next above 100 is \<open>100 + 2^(-46)\<close>:
  a difference is more than 100 after rounding exactly when it is more than
  \<open>100 + 2^(-47)\<close> before. Likewise for 50 and for 0.5.
\<close>

lemma js_gt_round_double_100:
  "js_gt (round_double q) (Finite 100) \<longleftrightarrow> 100 + 1 / 2 ^ 47 < q"
  using js_gt_round_double [of 100 "100 * 2 ^ 46" 6 q]
  by (simp add: power_int_minus divide_simps)

lemma js_gt_round_double_50:
  "js_gt (round_double q) (Finite 50) \<longleftrightarrow> 50 + 1 / 2 ^ 48 < q"
  using js_gt_round_double [of 50 "50 * 2 ^ 47" 5 q]
  by (simp add: power_int_minus divide_simps)

lemma js_gt_round_double_half:
  "js_gt (round_double q) (Finite (1 / 2)) \<longleftrightarrow> 1 / 2 + 1 / 2 ^ 54 < q"
  using js_gt_round_double [of "1 / 2" "2 ^ 52" "- 1" q]
  by (simp add: power_int_minus divide_simps)

section \<open>Properties of the touch gesture layer\<close>

subsection \<open>Slider swipe recognition\<close>

lemma slider_run_append: "slider_run (es @ fs) s = slider_run fs (slider_run es s)"
  by (induction es arbitrary: s) simp_all

lemma effects_resetSliderTouch: "effects (resetSliderTouch s) = effects s"
  by (simp add: resetSliderTouch_def Let_def)

text \<open>
  No handler assigns \<open>slider._touchStartTime\<close>, so in every session the \<open>touchend\<close>
  handler computes \<open>timeDiff = Date.now() - Date.now() = 0\<close>, and the velocity is
  \<open>Infinity\<close> for every non-zero displacement (\<open>NaN\<close> for none): every swipe whose
  displacement is not zero passes the velocity test.
\<close>

lemma slider_touchend_unset_start_time:
  assumes "isDragging s" "\<not> isVerticalScroll s" "touchStartTime s = None"
  shows "effects (slider_touchend now endX s) = effects s @
           (if js_gt (js_sub (Finite endX) (Finite (startX s))) (Finite 0)
            then (if leftArrow s then [Click LeftArrow] else [])
            else if js_gt (Finite 0) (js_sub (Finite endX) (Finite (startX s)))
            then (if rightArrow s then [Click RightArrow] else [])
            else [])"
proof -
  have t: "round_double (of_int now - of_int (touchStartTime_or_now s now)) = Finite 0"
    using assms(3) by (simp add: touchStartTime_or_now_def round_double_zero)
  show ?thesis
    using assms(1,2)
    by (cases "round_double (endX - startX s)")
      (simp_all add: slider_touchend_def t Let_def effects_resetSliderTouch)
qed

text \<open>
  Had the start time been recorded (a non-zero \<open>_touchStartTime\<close>), the handler would
  apply the two thresholds to the displacement and to the displacement over the
  elapsed time, each as it computes them.
\<close>

lemma slider_touchend_computed:
  assumes "isDragging s" "\<not> isVerticalScroll s" "touchStartTime s = Some t0" "t0 \<noteq> 0"
  shows "effects (slider_touchend now endX s) = effects s @
           (let diffX = js_sub (Finite endX) (Finite (startX s));
                timeDiff = js_sub (Finite (of_int now)) (Finite (of_int t0))
            in if js_gt (js_abs diffX) (Finite 50)
                  \<or> js_gt (js_div (js_abs diffX) timeDiff) (Finite (1 / 2))
               then (if js_gt diffX (Finite 0)
                     then (if leftArrow s then [Click LeftArrow] else [])
                     else (if rightArrow s then [Click RightArrow] else []))
               else [])"
  using assms
  by (simp add: slider_touchend_def touchStartTime_or_now_def Let_def effects_resetSliderTouch)

text \<open>
  A quotient of two whole numbers, the divisor below \<open>2^53\<close>, is either at most 0.5 or
  above it by more than the rounding can take away.
\<close>

lemma velocity_whole_numbers:
  assumes "0 < dt" "dt < 2 ^ 53"
  shows "1 / 2 + 1 / 2 ^ 54 < (of_int n :: rat) / of_int dt \<longleftrightarrow> 1 / 2 < (of_int n :: rat) / of_int dt"
proof
  assume "1 / 2 + 1 / 2 ^ 54 < (of_int n :: rat) / of_int dt"
  moreover have "(0::rat) < 1 / 2 ^ 54" by simp
  ultimately show "1 / 2 < (of_int n :: rat) / of_int dt" by linarith
next
  assume "1 / 2 < (of_int n :: rat) / of_int dt"
  with assms(1) have "(of_int dt :: rat) < of_int (2 * n)" by (simp add: field_simps)
  then have "dt < 2 * n" by (simp only: of_int_less_iff)
  then have "dt + 1 \<le> 2 * n" by simp
  then have "(of_int (dt + 1) :: rat) \<le> of_int (2 * n)" by (simp only: of_int_le_iff)
  then have a: "(of_int dt :: rat) + 1 \<le> 2 * of_int n" by simp
  from assms(2) have "(of_int dt :: rat) < of_int (2 ^ 53)" by (simp only: of_int_less_iff)
  then have "(of_int dt :: rat) / 2 ^ 53 < 1" by simp
  with a have "(of_int dt :: rat) + of_int dt / 2 ^ 53 < 2 * of_int n" by linarith
  then have "(1 / 2 + 1 / 2 ^ 54) * (of_int dt :: rat) < of_int n" by (simp add: field_simps)
  with assms(1) show "1 / 2 + 1 / 2 ^ 54 < (of_int n :: rat) / of_int dt"
    by (simp add: pos_less_divide_eq)
qed

text \<open>
  For a displacement of a whole number of pixels, \<open>dx\<close>, and a start time recorded
  before the end of the touch, the handler applies the two thresholds exactly:
  a navigation click is made when \<open>|dx| > 50\<close> or \<open>|dx|\<close> over the elapsed
  milliseconds is more than 0.5.
\<close>

lemma slider_touchend_recorded_start_time:
  assumes "isDragging s" "\<not> isVerticalScroll s" "touchStartTime s = Some t0" "t0 \<noteq> 0"
    and "t0 < now" "now - t0 < 2 ^ 53"
    and "endX - startX s = of_int dx" "\<bar>dx\<bar> < 2 ^ 53"
  shows "effects (slider_touchend now endX s) = effects s @
           (if \<bar>dx\<bar> > 50 \<or> (of_int \<bar>dx\<bar> :: rat) / of_int (now - t0) > 1 / 2
            then (if dx > 0 then (if leftArrow s then [Click LeftArrow] else [])
                  else (if rightArrow s then [Click RightArrow] else []))
            else [])"
proof -
  have d: "js_sub (Finite endX) (Finite (startX s)) = Finite (of_int dx)"
    using assms(7,8) by (simp add: round_double_of_int)
  from assms(5,6) have "\<bar>now - t0\<bar> < 2 ^ 53" by simp
  then have "round_double (of_int (now - t0)) = Finite (of_int (now - t0))"
    by (rule round_double_of_int)
  then have t: "js_sub (Finite (of_int now)) (Finite (of_int t0)) = Finite (of_int (now - t0))"
    by simp
  from assms(5) have pos: "0 < now - t0" by simp
  have v: "js_gt (js_div (js_abs (Finite (of_int dx))) (Finite (of_int (now - t0)))) (Finite (1 / 2))
      \<longleftrightarrow> 1 / 2 < (of_int \<bar>dx\<bar> :: rat) / of_int (now - t0)"
    using pos velocity_whole_numbers [OF pos assms(6), of "\<bar>dx\<bar>"]
    by (simp add: js_gt_round_double_half)
  have a: "js_gt (js_abs (Finite (of_int dx))) (Finite 50) \<longleftrightarrow> 50 < \<bar>dx\<bar>"
  proof -
    have "(50::rat) < of_int \<bar>dx\<bar> \<longleftrightarrow> 50 < \<bar>dx\<bar>"
      using of_int_less_iff [of 50 "\<bar>dx\<bar>", where ?'a = rat] by simp
    then show ?thesis by simp
  qed
  have g: "js_gt (Finite (of_int dx)) (Finite 0) \<longleftrightarrow> 0 < dx" by simp
  show ?thesis
    unfolding slider_touchend_computed [OF assms(1-4)] Let_def d t v a g by simp
qed

text \<open>
  With the start of the session (time 1000, \<open>x = 100\<close>) recorded: 40px in 200ms fires
  nothing, 60px to the left in 80ms clicks the right arrow, and 30px to the right in
  50ms (0.6 px/ms) clicks the left arrow on velocity alone.
\<close>

theorem slider_touchend_recorded_start_time_witness:
  "isDragging ((slider_touchstart 100 50 (slider_init None))\<lparr>touchStartTime := Some 1000\<rparr>)
   \<and> \<not> isVerticalScroll ((slider_touchstart 100 50 (slider_init None))\<lparr>touchStartTime := Some 1000\<rparr>)
   \<and> 140 - startX ((slider_touchstart 100 50 (slider_init None))\<lparr>touchStartTime := Some 1000\<rparr>)
        = of_int 40
   \<and> effects (slider_touchend 1200 140
         ((slider_touchstart 100 50 (slider_init None))\<lparr>touchStartTime := Some 1000\<rparr>)) = []
   \<and> effects (slider_touchend 1080 40
         ((slider_touchstart 100 50 (slider_init None))\<lparr>touchStartTime := Some 1000\<rparr>))
        = [Click RightArrow]
   \<and> effects (slider_touchend 1050 130
         ((slider_touchstart 100 50 (slider_init None))\<lparr>touchStartTime := Some 1000\<rparr>))
        = [Click LeftArrow]"
proof -
  let ?s = "(slider_touchstart 100 50 (slider_init None))\<lparr>touchStartTime := Some 1000\<rparr>"
  have h: "isDragging ?s" "\<not> isVerticalScroll ?s" "touchStartTime ?s = Some 1000" "(1000::int) \<noteq> 0"
    by (simp_all add: slider_touchstart_def slider_init_def Let_def)
  have f: "startX ?s = 100" "leftArrow ?s" "rightArrow ?s" "effects ?s = []"
    by (simp_all add: slider_touchstart_def slider_init_def Let_def)
  have d: "140 - startX ?s = of_int 40" "40 - startX ?s = of_int (- 60)"
    "130 - startX ?s = of_int 30"
    by (simp_all add: f)
  have a: "effects (slider_touchend 1200 140 ?s) = []"
    using slider_touchend_recorded_start_time [OF h _ _ d(1), of 1200] by (simp add: f)
  have b: "effects (slider_touchend 1080 40 ?s) = [Click RightArrow]"
    using slider_touchend_recorded_start_time [OF h _ _ d(2), of 1080] by (simp add: f)
  have c: "effects (slider_touchend 1050 130 ?s) = [Click LeftArrow]"
    using slider_touchend_recorded_start_time [OF h _ _ d(3), of 1050] by (simp add: f)
  from h(1,2) d(1) a b c show ?thesis by blast
qed

text \<open>The first example of the specification: 60px to the left in 80ms clicks the right arrow.\<close>

lemma slider_swipe_60px_80ms_clicks_next:
  "effects (slider_run [(1000, TouchStart 100 50), (1080, TouchEnd 40)] (slider_init None))
     = [Click RightArrow]"
  by (simp add: slider_init_def slider_touchstart_def slider_touchend_def resetSliderTouch_def
      touchStartTime_or_now_def round_double_numeral round_double_zero Let_def)

text \<open>
  Claim C1 (a navigation action fires iff \<open>|\<Delta>x| > 50\<close> or \<open>|\<Delta>x|\<close> over the elapsed
  session time exceeds 0.5 px/ms; 40px in 200ms fires nothing). The code at the
  second example of the claim: a touch starts at \<open>x = 100\<close> at time 1000 and ends at
  \<open>x = 140\<close> at time 1200, with no vertical movement. The displacement is 40px and
  the elapsed time 200ms (0.2 px/ms), below both thresholds, yet the handler clicks
  the left (previous) arrow.
\<close>

theorem slider_swipe_40px_200ms_clicks_previous:
  "effects (slider_run [(1000, TouchStart 100 50), (1200, TouchEnd 140)] (slider_init None))
     = [Click LeftArrow]"
  by (simp add: slider_init_def slider_touchstart_def slider_touchend_def resetSliderTouch_def
      touchStartTime_or_now_def round_double_numeral round_double_zero Let_def)

subsection \<open>Mobile menu swipe\<close>

lemma menu_run_append: "menu_run (es @ fs) s = menu_run fs (menu_run es s)"
  by (induction es arbitrary: s) simp_all

lemma menu_touchmove_cases:
  "menu_touchmove x y s = s \<or> menu_touchmove x y s = s\<lparr>isScrolling := True\<rparr>"
  by (simp add: menu_touchmove_def Let_def)

lemma menu_touchmove_scrolling: "isScrolling s \<Longrightarrow> menu_touchmove x y s = s"
  by (simp add: menu_touchmove_def Let_def)

lemma menu_moves_scrolling: "isScrolling s \<Longrightarrow> menu_run (touch_moves ps) s = s"
  by (induction ps arbitrary: s)
    (simp_all add: touch_moves_def menu_touchmove_scrolling split: prod.splits)

text \<open>
  The scrolling flag is only ever raised by \<open>touchmove\<close>: when it is still down after
  the moves, none of them changed anything.
\<close>

lemma menu_moves_not_scrolling:
  "\<not> isScrolling (menu_run (touch_moves ps) s) \<Longrightarrow> menu_run (touch_moves ps) s = s"
proof (induction ps arbitrary: s)
  case Nil
  show ?case by (simp add: touch_moves_def)
next
  case (Cons p ps)
  obtain x y where p: "p = (x, y)" by (cases p)
  have run: "menu_run (touch_moves (p # ps)) s = menu_run (touch_moves ps) (menu_touchmove x y s)"
    by (simp add: touch_moves_def p)
  show ?case
  proof (cases "isScrolling (menu_touchmove x y s)")
    case True
    then have "menu_run (touch_moves ps) (menu_touchmove x y s) = menu_touchmove x y s"
      by (rule menu_moves_scrolling)
    with True Cons.prems run show ?thesis by simp
  next
    case False
    with menu_touchmove_cases [of x y s] have same: "menu_touchmove x y s = s"
      by auto
    from Cons.prems have "\<not> isScrolling (menu_run (touch_moves ps) s)"
      by (simp add: run same)
    then have "menu_run (touch_moves ps) s = s" by (rule Cons.IH)
    then show ?thesis by (simp add: run same)
  qed
qed

lemma closeMobileMenu_if_open:
  "closeMobileMenu s = (if menu_is_open s then s\<lparr>buttonClicks := buttonClicks s + 1\<rparr> else s)"
  by (simp add: closeMobileMenu_def menu_is_open_def split: option.splits)

text \<open>
  Claim C3. A touch session on the mobile menu is a \<open>touchstart\<close> at \<open>(x0, y0)\<close>, any
  number of \<open>touchmove\<close>s and a \<open>touchend\<close> at \<open>x1\<close>. When the moves have not classified
  the session as vertical scroll, the session applies \<open>closeMobileMenu\<close> exactly once
  if the displacement in the closing direction, the handler's \<open>swipeDistance = x0 - x1\<close>,
  exceeds 100, and not at all otherwise (a shorter swipe, or one in the opposite
  direction); the elapsed time plays no part. The menu button receives one simulated
  click in the first case when the menu is open, and none in any other case. In every
  case the gesture variables are back at their idle values. The difference is a
  double: it exceeds 100 exactly when \<open>x0 - x1\<close> exceeds 100 by more than \<open>2^(-47)\<close>,
  half the distance from 100 to the next double; when \<open>x0 - x1\<close> is itself a double
  (as it is for whole pixels), exactly when \<open>x0 - x1\<close> exceeds 100.
\<close>

theorem menu_swipe_close:
  assumes "\<not> isScrolling (menu_run (TouchStart x0 y0 # touch_moves ps) s)"
  shows "menu_run (TouchStart x0 y0 # touch_moves ps @ [TouchEnd x1]) s =
           (if js_gt (js_sub (Finite x0) (Finite x1)) (Finite 100) then closeMobileMenu s else s)
             \<lparr>touchStartX := 0, touchStartY := 0, touchEndX := 0, isScrolling := False\<rparr>
         \<and> buttonClicks (menu_run (TouchStart x0 y0 # touch_moves ps @ [TouchEnd x1]) s) =
           buttonClicks s +
             (if js_gt (js_sub (Finite x0) (Finite x1)) (Finite 100) \<and> menu_is_open s then 1 else 0)
         \<and> (js_gt (js_sub (Finite x0) (Finite x1)) (Finite 100) \<longleftrightarrow> 100 + 1 / 2 ^ 47 < x0 - x1)
         \<and> (round_double (x0 - x1) = Finite (x0 - x1) \<longrightarrow>
              (js_gt (js_sub (Finite x0) (Finite x1)) (Finite 100) \<longleftrightarrow> 100 < x0 - x1))"
proof -
  let ?s0 = "menu_touchstart x0 y0 s"
  from assms have ns: "\<not> isScrolling (menu_run (touch_moves ps) ?s0)" by simp
  then have same: "menu_run (touch_moves ps) ?s0 = ?s0" by (rule menu_moves_not_scrolling)
  have run: "menu_run (TouchStart x0 y0 # touch_moves ps @ [TouchEnd x1]) s = menu_touchend x1 ?s0"
    using menu_run_append [of "touch_moves ps" "[TouchEnd x1]" ?s0] by (simp add: same)
  have gt: "js_gt (js_sub (Finite x0) (Finite x1)) (Finite 100) \<longleftrightarrow> 100 + 1 / 2 ^ 47 < x0 - x1"
    by (simp only: js_sub.simps js_gt_round_double_100)
  have "menu_touchend x1 ?s0 =
      (if js_gt (js_sub (Finite x0) (Finite x1)) (Finite 100) then closeMobileMenu s else s)
        \<lparr>touchStartX := 0, touchStartY := 0, touchEndX := 0, isScrolling := False\<rparr>"
    by (simp add: menu_touchend_def menu_touchstart_def closeMobileMenu_if_open
        menu_is_open_def Let_def del: js_sub.simps)
  moreover have "buttonClicks (menu_touchend x1 ?s0) =
      buttonClicks s +
        (if js_gt (js_sub (Finite x0) (Finite x1)) (Finite 100) \<and> menu_is_open s then 1 else 0)"
    by (simp add: menu_touchend_def menu_touchstart_def closeMobileMenu_if_open
        menu_is_open_def Let_def del: js_sub.simps)
  moreover have "round_double (x0 - x1) = Finite (x0 - x1) \<longrightarrow>
      (js_gt (js_sub (Finite x0) (Finite x1)) (Finite 100) \<longleftrightarrow> 100 < x0 - x1)"
    by simp
  ultimately show ?thesis
    unfolding run using gt by blast
qed

text \<open>
  On an open menu, with one horizontal move in between: a 120px closing swipe clicks
  the button once, a 90px one does not, and a 120px swipe in the opposite direction
  does not. A swipe from 100.7 to 0.7 does not either: the exact difference of the
  two doubles is above 100 by less than \<open>2^(-47)\<close>, and \<open>swipeDistance\<close> is 100.
\<close>

theorem menu_swipe_close_witness:
  "\<not> isScrolling (menu_run (TouchStart 300 100 # touch_moves [(250, 105)])
        (menu_init (Some [''w-nav-button'', ''w--open''])))
   \<and> round_double (300 - 180) = Finite (300 - 180)
   \<and> buttonClicks (menu_run (TouchStart 300 100 # touch_moves [(250, 105)] @ [TouchEnd 180])
        (menu_init (Some [''w-nav-button'', ''w--open'']))) = 1
   \<and> buttonClicks (menu_run (TouchStart 300 100 # touch_moves [(250, 105)] @ [TouchEnd 210])
        (menu_init (Some [''w-nav-button'', ''w--open'']))) = 0
   \<and> buttonClicks (menu_run (TouchStart 180 100 # touch_moves [(250, 105)] @ [TouchEnd 300])
        (menu_init (Some [''w-nav-button'', ''w--open'']))) = 0
   \<and> (100::rat) < 7086132538690765 / 2 ^ 46 - 3152519739159347 / 2 ^ 52
   \<and> js_sub (Finite (7086132538690765 / 2 ^ 46)) (Finite (3152519739159347 / 2 ^ 52)) = Finite 100
   \<and> \<not> isScrolling (menu_run (TouchStart (7086132538690765 / 2 ^ 46) 100 # touch_moves [])
        (menu_init (Some [''w-nav-button'', ''w--open''])))
   \<and> buttonClicks (menu_run (TouchStart (7086132538690765 / 2 ^ 46) 100 # touch_moves []
          @ [TouchEnd (3152519739159347 / 2 ^ 52)])
        (menu_init (Some [''w-nav-button'', ''w--open'']))) = 0"
proof -
  let ?s = "menu_init (Some [''w-nav-button'', ''w--open''])"
  have h: "\<not> isScrolling (menu_run (TouchStart 300 100 # touch_moves [(250, 105)]) ?s)"
    by (simp add: touch_moves_def menu_init_def menu_touchstart_def menu_touchmove_def
        round_double_numeral Let_def)
  have h': "\<not> isScrolling (menu_run (TouchStart 180 100 # touch_moves [(250, 105)]) ?s)"
    by (simp add: touch_moves_def menu_init_def menu_touchstart_def menu_touchmove_def
        round_double_numeral Let_def)
  have h'': "\<not> isScrolling (menu_run (TouchStart (7086132538690765 / 2 ^ 46) 100 # touch_moves []) ?s)"
    by (simp add: touch_moves_def menu_init_def menu_touchstart_def)
  have o: "menu_is_open ?s" "buttonClicks ?s = 0"
    by (simp_all add: menu_is_open_def menu_init_def)
  note c = conjunct2 [OF menu_swipe_close]
  have c1: "buttonClicks
      (menu_run (TouchStart 300 100 # touch_moves [(250, 105)] @ [TouchEnd 180]) ?s) = 1"
    using c [OF h, of 180] o by simp
  have c2: "buttonClicks
      (menu_run (TouchStart 300 100 # touch_moves [(250, 105)] @ [TouchEnd 210]) ?s) = 0"
    using c [OF h, of 210] o by simp
  have c3: "buttonClicks
      (menu_run (TouchStart 180 100 # touch_moves [(250, 105)] @ [TouchEnd 300]) ?s) = 0"
    using c [OF h', of 300] o by simp
  have c4: "buttonClicks
      (menu_run (TouchStart (7086132538690765 / 2 ^ 46) 100 # touch_moves []
          @ [TouchEnd (3152519739159347 / 2 ^ 52)]) ?s) = 0"
    using c [OF h'', of "3152519739159347 / 2 ^ 52"] o by simp
  have e: "round_double (300 - 180) = Finite (300 - 180)"
    by (simp add: round_double_numeral)
  have d: "(100::rat) < 7086132538690765 / 2 ^ 46 - 3152519739159347 / 2 ^ 52"
    by simp
  have d': "js_sub (Finite (7086132538690765 / 2 ^ 46)) (Finite (3152519739159347 / 2 ^ 52)) = Finite 100"
    by (simp only: js_sub.simps double_differences)
  from h e c1 c2 c3 d d' h'' c4 show ?thesis by blast
qed

text \<open>
  Claim C9. \<open>closeMobileMenu\<close> (also exported as \<open>window.TouchEnhancements.closeMobileMenu\<close>)
  clicks the menu button exactly when the button exists and carries \<open>w--open\<close>, and
  then once; when the button is absent or the menu is closed the call changes
  nothing, so no click reaches a closed menu. The function itself never changes the
  button's classes.
\<close>

theorem closeMobileMenu_guard:
  "(menu_is_open s \<longrightarrow> closeMobileMenu s = s\<lparr>buttonClicks := buttonClicks s + 1\<rparr>)
   \<and> (\<not> menu_is_open s \<longrightarrow> closeMobileMenu s = s)
   \<and> (menu_is_open s \<longleftrightarrow>
        (\<exists>classes. menuButton s = Some classes \<and> ''w--open'' \<in> set classes))
   \<and> menuButton (closeMobileMenu s) = menuButton s"
  by (auto simp: closeMobileMenu_def menu_is_open_def split: option.splits)

text \<open>An open menu, a closed menu and a page without a menu button.\<close>

theorem closeMobileMenu_guard_witness:
  "menu_is_open (menu_init (Some [''w-nav-button'', ''w--open'']))
   \<and> buttonClicks (closeMobileMenu (menu_init (Some [''w-nav-button'', ''w--open'']))) = 1
   \<and> \<not> menu_is_open (menu_init (Some [''w-nav-button'']))
   \<and> closeMobileMenu (menu_init (Some [''w-nav-button''])) = menu_init (Some [''w-nav-button''])
   \<and> \<not> menu_is_open (menu_init None)
   \<and> closeMobileMenu (menu_init None) = menu_init None"
proof -
  have a: "menu_is_open (menu_init (Some [''w-nav-button'', ''w--open'']))"
    and b: "\<not> menu_is_open (menu_init (Some [''w-nav-button'']))"
    and c: "\<not> menu_is_open (menu_init None)"
    by (simp_all add: menu_is_open_def menu_init_def)
  show ?thesis
    using a b c
      closeMobileMenu_guard [of "menu_init (Some [''w-nav-button'', ''w--open''])"]
      closeMobileMenu_guard [of "menu_init (Some [''w-nav-button''])"]
      closeMobileMenu_guard [of "menu_init None"]
    by (simp add: menu_init_def)
qed

subsection \<open>The reset of the gesture variables\<close>

lemma resetSliderTouch_idem: "resetSliderTouch (resetSliderTouch s) = resetSliderTouch s"
  by (simp add: resetSliderTouch_def Let_def)

lemma resetSliderTouch_autoplay:
  "data_autoplay (resetSliderTouch s) =
     (if data_temp_autoplay s = Some ''true'' then Some ''true'' else data_autoplay s)"
  by (simp add: resetSliderTouch_def Let_def)

lemma slider_touchstart_attrs:
  "data_autoplay (slider_touchstart x y s) =
     (if data_autoplay s = Some ''true'' then Some ''false'' else data_autoplay s)
   \<and> data_temp_autoplay (slider_touchstart x y s) =
     (if data_autoplay s = Some ''true'' then Some ''true'' else data_temp_autoplay s)"
  by (simp add: slider_touchstart_def Let_def)

lemma slider_touchend_flags:
  "isDragging (slider_touchend now x s) = False
   \<and> isVerticalScroll (slider_touchend now x s) = False
   \<and> data_temp_autoplay (slider_touchend now x s) \<noteq> Some ''true''"
  by (simp add: slider_touchend_def resetSliderTouch_def Let_def)

lemma slider_touchend_reset_again:
  "resetSliderTouch (slider_touchend now x s) = slider_touchend now x s"
  by (simp add: slider_touchend_def resetSliderTouch_idem Let_def)

lemma slider_touchmove_attrs:
  "data_autoplay (slider_touchmove x y s) = data_autoplay s
   \<and> data_temp_autoplay (slider_touchmove x y s) = data_temp_autoplay s"
  by (simp add: slider_touchmove_def Let_def)

lemma slider_moves_attrs:
  "data_autoplay (slider_run (slider_moves ms) s) = data_autoplay s
   \<and> data_temp_autoplay (slider_run (slider_moves ms) s) = data_temp_autoplay s"
  by (induction ms arbitrary: s) (simp_all add: slider_moves_def slider_touchmove_attrs split: prod.splits)

lemma slider_touchend_attrs:
  "data_autoplay (slider_touchend now x s) = data_autoplay (resetSliderTouch s)
   \<and> data_temp_autoplay (slider_touchend now x s) = data_temp_autoplay (resetSliderTouch s)"
  by (simp add: slider_touchend_def resetSliderTouch_def Let_def)

lemma slider_session_autoplay:
  assumes "data_temp_autoplay s \<noteq> Some ''true''"
  shows "data_autoplay (slider_run ((t0, TouchStart x0 y0) # slider_moves ms @ [(t1, TouchEnd x1)]) s)
           = data_autoplay s
       \<and> data_temp_autoplay (slider_run ((t0, TouchStart x0 y0) # slider_moves ms @ [(t1, TouchEnd x1)]) s)
           \<noteq> Some ''true''"
proof -
  let ?s0 = "slider_touchstart x0 y0 s"
  let ?s1 = "slider_run (slider_moves ms) ?s0"
  have run: "slider_run ((t0, TouchStart x0 y0) # slider_moves ms @ [(t1, TouchEnd x1)]) s
      = slider_touchend t1 x1 ?s1"
    by (simp add: slider_run_append)
  have a: "data_autoplay ?s1 = data_autoplay ?s0" "data_temp_autoplay ?s1 = data_temp_autoplay ?s0"
    using slider_moves_attrs [of ms ?s0] by simp_all
  have "data_autoplay (resetSliderTouch ?s1) = data_autoplay s"
    using assms by (simp add: resetSliderTouch_autoplay a slider_touchstart_attrs)
  then show ?thesis
    unfolding run using slider_touchend_attrs [of t1 x1 ?s1] slider_touchend_flags [of t1 x1 ?s1]
    by simp
qed

lemma slider_touchstart_overwrites:
  "slider_touchstart x y (s\<lparr>startX := a, startY := b, isDragging := c, isVerticalScroll := d\<rparr>)
     = slider_touchstart x y s"
  by (simp add: slider_touchstart_def Let_def)

text \<open>
  \<open>currentX\<close> is assigned by \<open>touchmove\<close> before the handler reads it, and no other
  handler reads it: its value on entry never shows in anything but \<open>currentX\<close> itself.
\<close>

lemma slider_touchstart_currentX:
  "slider_touchstart x y (s\<lparr>currentX := c\<rparr>) = (slider_touchstart x y s)\<lparr>currentX := c\<rparr>"
  by (simp add: slider_touchstart_def Let_def)

lemma slider_dispatch_currentX:
  "(slider_dispatch e (s\<lparr>currentX := c\<rparr>))\<lparr>currentX := 0\<rparr> = (slider_dispatch e s)\<lparr>currentX := 0\<rparr>"
proof (cases e)
  case (Pair t ev)
  show ?thesis
    by (cases ev)
      (simp_all add: Pair slider_touchstart_def slider_touchmove_def slider_touchend_def
        resetSliderTouch_def touchStartTime_or_now_def Let_def)
qed

lemma slider_run_currentX:
  "(slider_run es (s\<lparr>currentX := c\<rparr>))\<lparr>currentX := 0\<rparr> = (slider_run es s)\<lparr>currentX := 0\<rparr>"
proof (induction es arbitrary: s c)
  case Nil
  show ?case by simp
next
  case (Cons e es)
  have "(slider_run es (slider_dispatch e (s\<lparr>currentX := c\<rparr>)))\<lparr>currentX := 0\<rparr>
      = (slider_run es ((slider_dispatch e (s\<lparr>currentX := c\<rparr>))\<lparr>currentX := 0\<rparr>))\<lparr>currentX := 0\<rparr>"
    by (simp add: Cons.IH)
  also have "\<dots> = (slider_run es ((slider_dispatch e s)\<lparr>currentX := 0\<rparr>))\<lparr>currentX := 0\<rparr>"
    by (simp only: slider_dispatch_currentX)
  also have "\<dots> = (slider_run es (slider_dispatch e s))\<lparr>currentX := 0\<rparr>"
    by (simp add: Cons.IH)
  finally show ?case by simp
qed

lemma slider_no_leak:
  "(slider_run ((t, TouchStart x y) # es)
      (s\<lparr>startX := a, startY := b, currentX := c, isDragging := d, isVerticalScroll := e\<rparr>))
        \<lparr>currentX := 0\<rparr>
   = (slider_run ((t, TouchStart x y) # es) s)\<lparr>currentX := 0\<rparr>"
proof -
  have "slider_touchstart x y (s\<lparr>startX := a, startY := b, currentX := c, isDragging := d, isVerticalScroll := e\<rparr>)
      = (slider_touchstart x y s)\<lparr>currentX := c\<rparr>"
    by (simp add: slider_touchstart_def Let_def)
  then show ?thesis by (simp add: slider_run_currentX)
qed

lemma menu_touchend_resets:
  "\<not> isScrolling m \<Longrightarrow>
     touchStartX (menu_touchend x m) = 0 \<and> touchStartY (menu_touchend x m) = 0
     \<and> touchEndX (menu_touchend x m) = 0 \<and> \<not> isScrolling (menu_touchend x m)"
  by (simp add: menu_touchend_def Let_def)

text \<open>Likewise \<open>touchEndX\<close> is assigned by \<open>touchend\<close> before it is read.\<close>

lemma menu_dispatch_touchEndX:
  "(menu_dispatch e (m\<lparr>touchEndX := c\<rparr>))\<lparr>touchEndX := 0\<rparr> = (menu_dispatch e m)\<lparr>touchEndX := 0\<rparr>"
  by (cases e)
    (simp_all add: menu_touchstart_def menu_touchmove_def menu_touchend_def
      closeMobileMenu_def Let_def split: option.splits)

lemma menu_run_touchEndX:
  "(menu_run es (m\<lparr>touchEndX := c\<rparr>))\<lparr>touchEndX := 0\<rparr> = (menu_run es m)\<lparr>touchEndX := 0\<rparr>"
proof (induction es arbitrary: m c)
  case Nil
  show ?case by simp
next
  case (Cons e es)
  have "(menu_run es (menu_dispatch e (m\<lparr>touchEndX := c\<rparr>)))\<lparr>touchEndX := 0\<rparr>
      = (menu_run es ((menu_dispatch e (m\<lparr>touchEndX := c\<rparr>))\<lparr>touchEndX := 0\<rparr>))\<lparr>touchEndX := 0\<rparr>"
    by (simp add: Cons.IH)
  also have "\<dots> = (menu_run es ((menu_dispatch e m)\<lparr>touchEndX := 0\<rparr>))\<lparr>touchEndX := 0\<rparr>"
    by (simp only: menu_dispatch_touchEndX)
  also have "\<dots> = (menu_run es (menu_dispatch e m))\<lparr>touchEndX := 0\<rparr>"
    by (simp add: Cons.IH)
  finally show ?case by simp
qed

lemma menu_no_leak:
  "(menu_run (TouchStart x y # es)
      (m\<lparr>touchStartX := a, touchStartY := b, touchEndX := c, isScrolling := d\<rparr>))
        \<lparr>touchEndX := 0\<rparr>
   = (menu_run (TouchStart x y # es) m)\<lparr>touchEndX := 0\<rparr>"
proof -
  have "menu_touchstart x y (m\<lparr>touchStartX := a, touchStartY := b, touchEndX := c, isScrolling := d\<rparr>)
      = (menu_touchstart x y m)\<lparr>touchEndX := c\<rparr>"
    by (simp add: menu_touchstart_def)
  then show ?thesis by (simp add: menu_run_touchEndX)
qed

text \<open>
  Claim C2, as amended. On every path of the slider's \<open>touchend\<close> handler (no drag in
  progress, vertical scroll, swipe or no swipe) \<open>resetSliderTouch\<close> has run: the dragging
  flag and the vertical-scroll flag are down and the autoplay-suppression marker
  \<open>data-temp-autoplay = 'true'\<close> is gone, and a further reset changes nothing; over a
  session that starts without the marker, \<open>data-autoplay\<close> ends at the value it had
  before the session. The slider's start coordinates are not cleared: the next
  \<open>touchstart\<close> overwrites them and both flags, so that whatever values a previous
  session left in the five gesture variables, the next session runs the same (up to
  \<open>currentX\<close>, which is written before it is read). For the mobile menu, the
  \<open>touchend\<close> of a session not classified as vertical scroll zeroes the start
  coordinates, the end coordinate and the scrolling flag, and whatever values a
  previous session left in these four variables, the next session runs the same (up
  to \<open>touchEndX\<close>, which is written before it is read).
\<close>

theorem touch_session_reset:
  "isDragging (slider_touchend now x1 s) = False
   \<and> isVerticalScroll (slider_touchend now x1 s) = False
   \<and> data_temp_autoplay (slider_touchend now x1 s) \<noteq> Some ''true''
   \<and> resetSliderTouch (slider_touchend now x1 s) = slider_touchend now x1 s
   \<and> (data_temp_autoplay s \<noteq> Some ''true'' \<longrightarrow>
        data_autoplay (slider_run ((t0, TouchStart x0 y0) # slider_moves ms @ [(t1, TouchEnd x1)]) s)
          = data_autoplay s)
   \<and> (slider_run ((t0, TouchStart x0 y0) # es)
        (s\<lparr>startX := a, startY := b, currentX := c, isDragging := d, isVerticalScroll := e\<rparr>))
          \<lparr>currentX := 0\<rparr>
      = (slider_run ((t0, TouchStart x0 y0) # es) s)\<lparr>currentX := 0\<rparr>
   \<and> (\<not> isScrolling m \<longrightarrow>
        touchStartX (menu_touchend x1 m) = 0 \<and> touchStartY (menu_touchend x1 m) = 0
        \<and> touchEndX (menu_touchend x1 m) = 0 \<and> \<not> isScrolling (menu_touchend x1 m))
   \<and> (menu_run (TouchStart x0 y0 # fs)
        (m\<lparr>touchStartX := a, touchStartY := b, touchEndX := c, isScrolling := d\<rparr>))
          \<lparr>touchEndX := 0\<rparr>
      = (menu_run (TouchStart x0 y0 # fs) m)\<lparr>touchEndX := 0\<rparr>"
  using slider_touchend_flags [where now = now and x = x1 and s = s]
    slider_touchend_reset_again [where now = now and x = x1 and s = s]
    slider_session_autoplay [where s = s and ?t0.0 = t0 and ?x0.0 = x0 and ?y0.0 = y0
      and ms = ms and ?t1.0 = t1 and ?x1.0 = x1]
    slider_no_leak [where t = t0 and x = x0 and y = y0 and es = es and s = s
      and a = a and b = b and c = c and d = d and e = e]
    menu_touchend_resets [where m = m and x = x1]
    menu_no_leak [where x = x0 and y = y0 and es = fs and m = m
      and a = a and b = b and c = c and d = d]
  by blast

text \<open>
  A slider with autoplay on, in a session classified as vertical scroll, and a menu
  session with no move.
\<close>

theorem touch_session_reset_witness:
  "data_temp_autoplay (slider_init (Some ''true'')) \<noteq> Some ''true''
   \<and> data_autoplay (slider_run ((1000, TouchStart 100 50) # slider_moves [(1050, 102, 90)]
         @ [(1200, TouchEnd 103)]) (slider_init (Some ''true''))) = Some ''true''
   \<and> \<not> isScrolling (menu_touchstart 300 100 (menu_init None))
   \<and> touchStartX (menu_touchend 180 (menu_touchstart 300 100 (menu_init None))) = 0
   \<and> touchStartY (menu_touchend 180 (menu_touchstart 300 100 (menu_init None))) = 0"
proof -
  have h1: "data_temp_autoplay (slider_init (Some ''true'')) \<noteq> Some ''true''"
    by (simp add: slider_init_def)
  have h2: "\<not> isScrolling (menu_touchstart 300 100 (menu_init None))"
    by (simp add: menu_touchstart_def menu_init_def)
  have a: "data_autoplay (slider_init (Some ''true'')) = Some ''true''"
    by (simp add: slider_init_def)
  show ?thesis
    using h1 h2 a
      touch_session_reset [where s = "slider_init (Some ''true'')" and ?t0.0 = 1000
        and ?x0.0 = 100 and ?y0.0 = 50 and ms = "[(1050, 102, 90)]" and ?t1.0 = 1200
        and ?x1.0 = 103 and m = "menu_touchstart 300 100 (menu_init None)"]
      touch_session_reset [where s = "slider_init (Some ''true'')" and ?t0.0 = 1000
        and ?x0.0 = 100 and ?y0.0 = 50 and ms = "[(1050, 102, 90)]" and ?t1.0 = 1200
        and ?x1.0 = 180 and m = "menu_touchstart 300 100 (menu_init None)"]
    by simp
qed

text \<open>
  Claim C2 as stated (the reset of all tracking fields, start coordinates included,
  happens at the end of every session, also one classified as vertical scroll) fails.
  After a slider session classified as vertical scroll the start coordinates still
  hold the position of the \<open>touchstart\<close>; after a menu session classified as vertical
  scroll the \<open>touchend\<close> handler has returned before its reset, and the scrolling flag
  and the start coordinates are as the session left them.
\<close>

theorem touch_session_reset_counterexample:
  "startX (slider_run [(1000, TouchStart 100 50), (1050, TouchMove 102 90), (1200, TouchEnd 103)]
       (slider_init None)) = 100
   \<and> startY (slider_run [(1000, TouchStart 100 50), (1050, TouchMove 102 90), (1200, TouchEnd 103)]
       (slider_init None)) = 50
   \<and> isScrolling (menu_run [TouchStart 200 100, TouchMove 195 160, TouchEnd 195]
       (menu_init (Some [''w-nav-button'', ''w--open''])))
   \<and> touchStartX (menu_run [TouchStart 200 100, TouchMove 195 160, TouchEnd 195]
       (menu_init (Some [''w-nav-button'', ''w--open'']))) = 200
   \<and> touchStartY (menu_run [TouchStart 200 100, TouchMove 195 160, TouchEnd 195]
       (menu_init (Some [''w-nav-button'', ''w--open'']))) = 100"
  by (simp add: slider_init_def slider_touchstart_def slider_touchmove_def slider_touchend_def
      resetSliderTouch_def menu_init_def menu_touchstart_def menu_touchmove_def
      menu_touchend_def round_double_numeral Let_def)


subsection \<open>The scroll class throttle\<close>

lemma page_run_append: "page_run (es @ fs) s = page_run fs (page_run es s)"
  by (induction es arbitrary: s) simp_all

lemma scroll_listener_ticking:
  "ticking s \<Longrightarrow> scroll_listener (s\<lparr>pageYOffset := y\<rparr>) = s\<lparr>pageYOffset := y\<rparr>"
  by (simp add: scroll_listener_def)

text \<open>While a callback is pending, a scroll event only moves the page.\<close>

lemma scrolls_while_ticking:
  "ticking s \<Longrightarrow> ys \<noteq> [] \<Longrightarrow> page_run (map Scroll ys) s = s\<lparr>pageYOffset := last ys\<rparr>"
proof (induction ys arbitrary: s)
  case Nil
  then show ?case by simp
next
  case (Cons y ys)
  show ?case
  proof (cases ys)
    case Nil
    with Cons.prems show ?thesis by (simp add: scroll_listener_ticking)
  next
    case (Cons z zs)
    have "ticking (s\<lparr>pageYOffset := y\<rparr>)" using Cons.prems by simp
    from Cons.IH [OF this] Cons Cons.prems show ?thesis
      by (simp add: scroll_listener_ticking)
  qed
qed

lemma scrolls_from_idle:
  assumes "\<not> ticking s" "ys \<noteq> []"
  shows "page_run (map Scroll ys) s =
           s\<lparr>pageYOffset := last ys, frameCallbacks := frameCallbacks s + 1, ticking := True\<rparr>"
proof (cases ys)
  case Nil
  with assms show ?thesis by simp
next
  case (Cons y zs)
  let ?s1 = "s\<lparr>pageYOffset := y, frameCallbacks := frameCallbacks s + 1, ticking := True\<rparr>"
  have first: "page_step (Scroll y) s = ?s1"
    using assms by (simp add: scroll_listener_def)
  show ?thesis
  proof (cases zs)
    case Nil
    with Cons first show ?thesis by simp
  next
    case (Cons z zs')
    have "ticking ?s1" by simp
    from scrolls_while_ticking [OF this, of zs] Cons \<open>ys = y # zs\<close> first show ?thesis
      by simp
  qed
qed

lemma throttle_inv_step: "throttle_inv s \<Longrightarrow> throttle_inv (page_step e s)"
  by (cases e) (auto simp: throttle_inv_def scroll_listener_def updateScrollPosition_def Let_def)

lemma throttle_inv_run: "throttle_inv s \<Longrightarrow> throttle_inv (page_run es s)"
  by (induction es arbitrary: s) (simp_all add: throttle_inv_step)

text \<open>
  The throttle once \<open>setupScrollOptimizations\<close> has run. From the state in which the
  listener is installed (no callback pending),
  any number \<open>N \<ge> 1\<close> of scroll events before the next animation frame queues exactly
  one \<open>updateScrollPosition\<close> callback. The frame runs it once: one call on the body's
  class list, \<open>add('scrolled')\<close> when the offset the page has then (that of the last
  scroll) exceeds 100 and \<open>remove('scrolled')\<close> otherwise, after which the flag is
  clear and nothing is queued. Over any sequence of scroll events and frames at most
  one callback is queued at a time, and the flag is set exactly while one is.
\<close>

theorem scroll_throttle:
  assumes "\<not> ticking s" "frameCallbacks s = 0" "ys \<noteq> []"
  shows "frameCallbacks (page_run (map Scroll ys) s) = 1
       \<and> page_run (map Scroll ys @ [AnimationFrame]) s =
           updateScrollPosition (s\<lparr>pageYOffset := last ys\<rparr>)
       \<and> classListCalls (page_run (map Scroll ys @ [AnimationFrame]) s) =
           classListCalls s @
             [if last ys > 100 then ClassAdd ''scrolled'' else ClassRemove ''scrolled'']
       \<and> (''scrolled'' \<in> set (bodyClassList (page_run (map Scroll ys @ [AnimationFrame]) s))
            \<longleftrightarrow> last ys > 100)
       \<and> \<not> ticking (page_run (map Scroll ys @ [AnimationFrame]) s)
       \<and> frameCallbacks (page_run (map Scroll ys @ [AnimationFrame]) s) = 0
       \<and> frameCallbacks (page_run es s) \<le> 1
       \<and> (ticking (page_run es s) \<longleftrightarrow> frameCallbacks (page_run es s) = 1)"
proof -
  let ?run = "page_run (map Scroll ys @ [AnimationFrame]) s"
  have scrolls: "page_run (map Scroll ys) s =
      s\<lparr>pageYOffset := last ys, frameCallbacks := frameCallbacks s + 1, ticking := True\<rparr>"
    using assms(1,3) by (rule scrolls_from_idle)
  have "?run = page_step AnimationFrame (page_run (map Scroll ys) s)"
    by (simp add: page_run_append)
  also have "\<dots> = updateScrollPosition (s\<lparr>pageYOffset := last ys\<rparr>)"
    unfolding scrolls using assms(1,2) by (cases s) (simp add: updateScrollPosition_def Let_def)
  finally have frame: "?run = updateScrollPosition (s\<lparr>pageYOffset := last ys\<rparr>)" .
  have inv: "throttle_inv (page_run es s)"
    using assms(1,2) by (intro throttle_inv_run) (simp add: throttle_inv_def)
  have one: "frameCallbacks (page_run (map Scroll ys) s) = 1"
    using assms(2) by (simp add: scrolls)
  have calls: "classListCalls ?run = classListCalls s @
      [if last ys > 100 then ClassAdd ''scrolled'' else ClassRemove ''scrolled'']"
    by (simp add: frame updateScrollPosition_def Let_def)
  have cls: "''scrolled'' \<in> set (bodyClassList ?run) \<longleftrightarrow> last ys > 100"
    by (simp add: frame updateScrollPosition_def classList_add_def classList_remove_def Let_def)
  have idle: "\<not> ticking ?run" "frameCallbacks ?run = 0"
    using assms(2) by (simp_all add: frame updateScrollPosition_def Let_def)
  have le: "frameCallbacks (page_run es s) \<le> 1"
    and iff: "ticking (page_run es s) \<longleftrightarrow> frameCallbacks (page_run es s) = 1"
    using inv by (simp_all add: throttle_inv_def split: if_splits)
  from one frame calls cls idle le iff show ?thesis by blast
qed

text \<open>Three scroll events, to the offsets 30, 80 and 150, before one frame.\<close>

theorem scroll_throttle_witness:
  "\<not> ticking (scroll_init 0 []) \<and> frameCallbacks (scroll_init 0 []) = 0
   \<and> [30, 80, 150 :: rat] \<noteq> []
   \<and> frameCallbacks (page_run (map Scroll [30, 80, 150]) (scroll_init 0 [])) = 1
   \<and> classListCalls (page_run (map Scroll [30, 80, 150] @ [AnimationFrame]) (scroll_init 0 []))
        = [ClassAdd ''scrolled'']
   \<and> bodyClassList (page_run (map Scroll [30, 80, 150] @ [AnimationFrame]) (scroll_init 0 []))
        = [''scrolled'']"
proof -
  have h: "\<not> ticking (scroll_init 0 [])" "frameCallbacks (scroll_init 0 []) = 0"
    "[30, 80, 150 :: rat] \<noteq> []"
    by (simp_all add: scroll_init_def)
  have c: "classListCalls (scroll_init 0 []) = []"
    by (simp add: scroll_init_def)
  have b: "bodyClassList (updateScrollPosition ((scroll_init 0 [])\<lparr>pageYOffset := 150\<rparr>)) = [''scrolled'']"
    by (simp add: scroll_init_def updateScrollPosition_def classList_add_def Let_def)
  note t = scroll_throttle [OF h, of "[]"]
  from t have one: "frameCallbacks (page_run (map Scroll [30, 80, 150]) (scroll_init 0 [])) = 1"
    by blast
  from t have run: "page_run (map Scroll [30, 80, 150] @ [AnimationFrame]) (scroll_init 0 []) =
      updateScrollPosition ((scroll_init 0 [])\<lparr>pageYOffset := last [30, 80, 150]\<rparr>)"
    by blast
  from t have "classListCalls (page_run (map Scroll [30, 80, 150] @ [AnimationFrame]) (scroll_init 0 []))
      = classListCalls (scroll_init 0 []) @
          [if last [30, 80, 150 :: rat] > 100 then ClassAdd ''scrolled'' else ClassRemove ''scrolled'']"
    by blast
  then have calls: "classListCalls
      (page_run (map Scroll [30, 80, 150] @ [AnimationFrame]) (scroll_init 0 []))
        = [ClassAdd ''scrolled'']"
    by (simp add: c)
  have cls: "bodyClassList
      (page_run (map Scroll [30, 80, 150] @ [AnimationFrame]) (scroll_init 0 [])) = [''scrolled'']"
    unfolding run using b by simp
  from h one calls cls show ?thesis by blast
qed


subsection \<open>The ripple\<close>

lemma ripple_timeout_total: "\<exists>q. ripple_timeout r p = Inr q"
  by (simp add: ripple_timeout_def removeChild_def split: option.splits)

lemma ripple_timeout_detached:
  "parentNode (ripples p ! r) = None \<Longrightarrow> ripple_timeout r p = Inr p"
  by (simp add: ripple_timeout_def)

text \<open>\<open>touch - side - size / 2\<close>, as \<open>createRippleEffect\<close> computes it for \<open>left\<close> and \<open>top\<close>.\<close>

lemma createRippleEffect_ripples:
  "ripples (createRippleEffect element t p) = ripples p @
     [\<lparr>css_width = max (rect_width (boundingClientRect p element)) (rect_height (boundingClientRect p element)),
       css_height = max (rect_width (boundingClientRect p element)) (rect_height (boundingClientRect p element)),
       css_left = js_sub (js_sub (Finite (clientX t)) (Finite (rect_left (boundingClientRect p element))))
                   (js_div (Finite (max (rect_width (boundingClientRect p element))
                                        (rect_height (boundingClientRect p element)))) (Finite 2)),
       css_top = js_sub (js_sub (Finite (clientY t)) (Finite (rect_top (boundingClientRect p element))))
                   (js_div (Finite (max (rect_width (boundingClientRect p element))
                                        (rect_height (boundingClientRect p element)))) (Finite 2)),
       parentNode = Some element\<rparr>]"
  by (simp add: createRippleEffect_def Let_def del: js_sub.simps js_div.simps)

lemma createRippleEffect_timers:
  "timers (createRippleEffect element t p) = timers p @ [(600, length (ripples p))]"
  by (simp add: createRippleEffect_def Let_def)

lemma ripple_children_append:
  "ripple_children (p\<lparr>ripples := ripples p @ [n]\<rparr>) e =
     ripple_children p e @ (if parentNode n = Some e then [length (ripples p)] else [])"
proof -
  have "filter (\<lambda>i. parentNode ((ripples p @ [n]) ! i) = Some e) [0..<length (ripples p)]
      = filter (\<lambda>i. parentNode (ripples p ! i) = Some e) [0..<length (ripples p)]"
    by (rule filter_cong) (auto simp: nth_append)
  then show ?thesis by (simp add: ripple_children_def)
qed

lemma feedback_touchstart_ripples:
  "ripples (feedback_touchstart element t p) = ripples (createRippleEffect element t p)"
  "timers (feedback_touchstart element t p) = timers (createRippleEffect element t p)"
  by (simp_all add: feedback_touchstart_def Let_def)

lemma ripple_children_cong:
  "ripples p = ripples q \<Longrightarrow> ripple_children p e = ripple_children q e"
  by (simp add: ripple_children_def)

lemma createRippleEffect_snoc:
  obtains n where "ripples (createRippleEffect element t p) = ripples p @ [n]"
    and "parentNode n = Some element"
    and "css_width n = max (rect_width (boundingClientRect p element))
                           (rect_height (boundingClientRect p element))"
    and "css_height n = css_width n"
    and "css_left n = js_sub (js_sub (Finite (clientX t)) (Finite (rect_left (boundingClientRect p element))))
                        (js_div (Finite (css_width n)) (Finite 2))"
    and "css_top n = js_sub (js_sub (Finite (clientY t)) (Finite (rect_top (boundingClientRect p element))))
                       (js_div (Finite (css_width n)) (Finite 2))"
proof -
  define size where
    "size = max (rect_width (boundingClientRect p element)) (rect_height (boundingClientRect p element))"
  define n where
    "n = \<lparr>css_width = size, css_height = size,
           css_left = js_sub (js_sub (Finite (clientX t)) (Finite (rect_left (boundingClientRect p element))))
                        (js_div (Finite size) (Finite 2)),
           css_top = js_sub (js_sub (Finite (clientY t)) (Finite (rect_top (boundingClientRect p element))))
                       (js_div (Finite size) (Finite 2)),
           parentNode = Some element\<rparr>"
  have "ripples (createRippleEffect element t p) = ripples p @ [n]"
    unfolding n_def size_def by (rule createRippleEffect_ripples)
  moreover have "parentNode n = Some element" "css_width n = size" "css_height n = css_width n"
    "css_left n = js_sub (js_sub (Finite (clientX t)) (Finite (rect_left (boundingClientRect p element))))
                    (js_div (Finite (css_width n)) (Finite 2))"
    "css_top n = js_sub (js_sub (Finite (clientY t)) (Finite (rect_top (boundingClientRect p element))))
                   (js_div (Finite (css_width n)) (Finite 2))"
    by (simp_all add: n_def del: js_sub.simps js_div.simps)
  ultimately show ?thesis using that unfolding size_def by blast
qed

lemma ripple_children_created:
  "ripple_children (createRippleEffect element t p) e =
     ripple_children p e @ (if e = element then [length (ripples p)] else [])"
proof -
  obtain n where r: "ripples (createRippleEffect element t p) = ripples p @ [n]"
    and n: "parentNode n = Some element"
    by (rule createRippleEffect_snoc)
  have "ripple_children (createRippleEffect element t p) e
      = ripple_children (p\<lparr>ripples := ripples p @ [n]\<rparr>) e"
    by (rule ripple_children_cong) (simp add: r)
  then show ?thesis by (auto simp: ripple_children_append n)
qed

lemma ripple_children_detach_last:
  "ripple_children (detach (length (ripples p)) (p\<lparr>ripples := ripples p @ [n]\<rparr>)) e =
     ripple_children p e"
proof -
  have "filter (\<lambda>i. parentNode ((ripples p @ [n\<lparr>parentNode := None\<rparr>]) ! i) = Some e)
          [0..<length (ripples p)]
      = filter (\<lambda>i. parentNode (ripples p ! i) = Some e) [0..<length (ripples p)]"
    by (rule filter_cong) (auto simp: nth_append)
  then show ?thesis by (simp add: ripple_children_def detach_def)
qed

lemma ripple_timeout_attached:
  "parentNode (ripples p ! r) = Some e \<Longrightarrow> ripple_timeout r p = Inr (detach r p)"
  by (simp add: ripple_timeout_def removeChild_def detach_def)

lemma detach_detached:
  "r < length (ripples p) \<Longrightarrow> parentNode (ripples (detach r p) ! r) = None"
  by (simp add: detach_def)

text \<open>
  The offset of the ripple is the result of two subtractions and a halving, each
  rounded to a double. While the numbers stay below \<open>2^1000\<close> nothing overflows, and
  the centre of the square, \<open>offset + size / 2\<close>, is the position of the touch in the
  box up to the rounding of the three operations: a relative error of \<open>2^(-53)\<close> each
  (and the absolute error \<open>2^(-1075)\<close> of a subnormal result).
\<close>

lemma ripple_offset_centred:
  assumes "\<bar>c\<bar> \<le> 2 ^ 1000" "\<bar>l\<bar> \<le> 2 ^ 1000" "\<bar>d\<bar> \<le> 2 ^ 1000"
  shows "\<exists>x. js_sub (js_sub (Finite c) (Finite l)) (js_div (Finite d) (Finite 2)) = Finite x
           \<and> \<bar>x + d / 2 - (c - l)\<bar> \<le> (\<bar>x\<bar> + \<bar>c - l\<bar> + \<bar>d\<bar> / 2) / 2 ^ 53 + 3 / 2 ^ 1075"
proof -
  define B :: rat where "B = 2 ^ 1000"
  have B: "2 powi 1001 = 2 * B" "2 powi 999 = B / 2" "2 powi 1002 = 4 * B"
    by (simp_all add: B_def)
  from assms have b: "\<bar>c\<bar> \<le> B" "\<bar>l\<bar> \<le> B" "\<bar>d\<bar> \<le> B" by (simp_all add: B_def)
  from b have "\<bar>c - l\<bar> \<le> 2 powi 1001" unfolding B by linarith
  then obtain a where a: "round_double (c - l) = Finite a" "\<bar>a\<bar> \<le> 2 powi 1001"
    by (rule round_double_finite) simp_all
  from b have "\<bar>d / 2\<bar> \<le> 2 powi 999" unfolding B by simp
  then obtain h where h: "round_double (d / 2) = Finite h" "\<bar>h\<bar> \<le> 2 powi 999"
    by (rule round_double_finite) simp_all
  from a(2) h(2) b have "\<bar>a - h\<bar> \<le> 2 powi 1002" unfolding B by linarith
  then obtain x where x: "round_double (a - h) = Finite x" "\<bar>x\<bar> \<le> 2 powi 1002"
    by (rule round_double_finite) simp_all
  have r: "js_sub (js_sub (Finite c) (Finite l)) (js_div (Finite d) (Finite 2)) = Finite x"
    by (simp add: a h x)
  define u where "u = \<bar>c - l\<bar>"
  define v where "v = \<bar>d\<bar> / 2"
  define w where "w = \<bar>x\<bar>"
  have e1: "\<bar>a - (c - l)\<bar> \<le> u / 2 ^ 53 + 1 / 2 ^ 1075"
    unfolding u_def by (rule round_double_error(1) [OF a(1)])
  have "\<bar>h - d / 2\<bar> \<le> \<bar>d / 2\<bar> / 2 ^ 53 + 1 / 2 ^ 1075"
    by (rule round_double_error(1) [OF h(1)])
  then have e2: "\<bar>h - d / 2\<bar> \<le> v / 2 ^ 53 + 1 / 2 ^ 1075"
    by (simp add: v_def)
  have e3: "\<bar>x - (a - h)\<bar> \<le> w / 2 ^ 53 + 1 / 2 ^ 1075"
    unfolding w_def by (rule round_double_error(2) [OF x(1)])
  have "x + d / 2 - (c - l) = (x - (a - h)) + (a - (c - l)) - (h - d / 2)" by simp
  then have "\<bar>x + d / 2 - (c - l)\<bar> \<le> \<bar>x - (a - h)\<bar> + \<bar>a - (c - l)\<bar> + \<bar>h - d / 2\<bar>"
    by linarith
  also have "\<dots> \<le> (w / 2 ^ 53 + 1 / 2 ^ 1075) + (u / 2 ^ 53 + 1 / 2 ^ 1075) + (v / 2 ^ 53 + 1 / 2 ^ 1075)"
    using e1 e2 e3 by (intro add_mono)
  also have "\<dots> = (w + u + v) / 2 ^ 53 + 3 / 2 ^ 1075"
    by (simp add: add_divide_distrib)
  finally have "\<bar>x + d / 2 - (c - l)\<bar> \<le> (\<bar>x\<bar> + \<bar>c - l\<bar> + \<bar>d\<bar> / 2) / 2 ^ 53 + 3 / 2 ^ 1075"
    by (simp only: u_def v_def w_def)
  with r show ?thesis by blast
qed

text \<open>
  Claim C6. A \<open>touchstart\<close> on an element with the feedback listeners makes one new
  node and appends it to that element and to no other; the nodes made before are
  untouched. The node is a square whose side is the longer side of the element's
  bounding box. Its offset in the box is \<open>touch - side - size / 2\<close> in each direction,
  as the handler computes it: for coordinates below \<open>2^1000\<close> the offset is a finite
  number and the centre of the square is the touch point, up to the rounding of the
  three operations. One timer is added, with a delay of 600ms, for that node. When
  the timer fires with the node still attached, the node is removed and the element
  has the ripple children it had before the touch; when the node was detached first,
  the callback changes nothing. The callback never throws, whatever the state of the
  page.
\<close>

theorem ripple_lifecycle:
  "(let p' = feedback_touchstart element t p;
        r = length (ripples p);
        box = boundingClientRect p element;
        size = max (rect_width box) (rect_height box)
    in length (ripples p') = length (ripples p) + 1
       \<and> take r (ripples p') = ripples p
       \<and> ripple_children p' e = ripple_children p e @ (if e = element then [r] else [])
       \<and> css_width (ripples p' ! r) = size
       \<and> css_height (ripples p' ! r) = size
       \<and> css_left (ripples p' ! r) =
           js_sub (js_sub (Finite (clientX t)) (Finite (rect_left box))) (js_div (Finite size) (Finite 2))
       \<and> css_top (ripples p' ! r) =
           js_sub (js_sub (Finite (clientY t)) (Finite (rect_top box))) (js_div (Finite size) (Finite 2))
       \<and> (\<bar>clientX t\<bar> \<le> 2 ^ 1000 \<and> \<bar>rect_left box\<bar> \<le> 2 ^ 1000 \<and> \<bar>size\<bar> \<le> 2 ^ 1000 \<longrightarrow>
            (\<exists>x. css_left (ripples p' ! r) = Finite x
               \<and> \<bar>x + size / 2 - (clientX t - rect_left box)\<bar>
                   \<le> (\<bar>x\<bar> + \<bar>clientX t - rect_left box\<bar> + \<bar>size\<bar> / 2) / 2 ^ 53 + 3 / 2 ^ 1075))
       \<and> (\<bar>clientY t\<bar> \<le> 2 ^ 1000 \<and> \<bar>rect_top box\<bar> \<le> 2 ^ 1000 \<and> \<bar>size\<bar> \<le> 2 ^ 1000 \<longrightarrow>
            (\<exists>y. css_top (ripples p' ! r) = Finite y
               \<and> \<bar>y + size / 2 - (clientY t - rect_top box)\<bar>
                   \<le> (\<bar>y\<bar> + \<bar>clientY t - rect_top box\<bar> + \<bar>size\<bar> / 2) / 2 ^ 53 + 3 / 2 ^ 1075))
       \<and> timers p' = timers p @ [(600, r)]
       \<and> ripple_timeout r p' = Inr (detach r p')
       \<and> ripple_children (detach r p') e = ripple_children p e
       \<and> ripple_timeout r (detach r p') = Inr (detach r p'))
   \<and> (\<exists>q'. ripple_timeout j q = Inr q')"
proof -
  let ?p' = "feedback_touchstart element t p"
  let ?c = "createRippleEffect element t p"
  let ?r = "length (ripples p)"
  let ?box = "boundingClientRect p element"
  let ?size = "max (rect_width ?box) (rect_height ?box)"
  obtain n where rc: "ripples ?c = ripples p @ [n]"
    and par_n: "parentNode n = Some element"
    and w: "css_width n = ?size"
    and h: "css_height n = css_width n"
    and x: "css_left n = js_sub (js_sub (Finite (clientX t)) (Finite (rect_left ?box)))
                           (js_div (Finite (css_width n)) (Finite 2))"
    and y: "css_top n = js_sub (js_sub (Finite (clientY t)) (Finite (rect_top ?box)))
                          (js_div (Finite (css_width n)) (Finite 2))"
    by (rule createRippleEffect_snoc)
  have rp: "ripples ?p' = ripples p @ [n]" and tp: "timers ?p' = timers ?c"
    by (simp_all add: feedback_touchstart_ripples rc)
  have nth: "ripples ?p' ! ?r = n"
    by (simp add: rp)
  have par: "parentNode (ripples ?p' ! ?r) = Some element"
    by (simp add: nth par_n)
  have "ripples ?p' = ripples ?c" by (simp add: rp rc)
  then have "ripple_children ?p' e = ripple_children ?c e"
    by (rule ripple_children_cong)
  then have ch: "ripple_children ?p' e = ripple_children p e @ (if e = element then [?r] else [])"
    by (simp only: ripple_children_created)
  have det: "ripples (detach ?r ?p') = ripples (detach ?r (p\<lparr>ripples := ripples p @ [n]\<rparr>))"
    by (simp add: detach_def rp)
  have ch2: "ripple_children (detach ?r ?p') e = ripple_children p e"
    using ripple_children_cong [OF det] by (simp only: ripple_children_detach_last)
  have len: "?r < length (ripples ?p')" by (simp add: rp)
  have t2: "ripple_timeout ?r (detach ?r ?p') = Inr (detach ?r ?p')"
    by (rule ripple_timeout_detached) (rule detach_detached [OF len])
  have t1: "ripple_timeout ?r ?p' = Inr (detach ?r ?p')"
    using par by (rule ripple_timeout_attached)
  have geo: "css_width (ripples ?p' ! ?r) = ?size" "css_height (ripples ?p' ! ?r) = ?size"
    unfolding nth using w h by simp_all
  have left: "css_left (ripples ?p' ! ?r) =
      js_sub (js_sub (Finite (clientX t)) (Finite (rect_left ?box))) (js_div (Finite ?size) (Finite 2))"
    unfolding nth x w ..
  have top: "css_top (ripples ?p' ! ?r) =
      js_sub (js_sub (Finite (clientY t)) (Finite (rect_top ?box))) (js_div (Finite ?size) (Finite 2))"
    unfolding nth y w ..
  have cx: "\<bar>clientX t\<bar> \<le> 2 ^ 1000 \<and> \<bar>rect_left ?box\<bar> \<le> 2 ^ 1000 \<and> \<bar>?size\<bar> \<le> 2 ^ 1000 \<longrightarrow>
      (\<exists>x. css_left (ripples ?p' ! ?r) = Finite x
         \<and> \<bar>x + ?size / 2 - (clientX t - rect_left ?box)\<bar>
             \<le> (\<bar>x\<bar> + \<bar>clientX t - rect_left ?box\<bar> + \<bar>?size\<bar> / 2) / 2 ^ 53 + 3 / 2 ^ 1075)"
    unfolding left using ripple_offset_centred [of "clientX t" "rect_left ?box" ?size] by blast
  have cy: "\<bar>clientY t\<bar> \<le> 2 ^ 1000 \<and> \<bar>rect_top ?box\<bar> \<le> 2 ^ 1000 \<and> \<bar>?size\<bar> \<le> 2 ^ 1000 \<longrightarrow>
      (\<exists>y. css_top (ripples ?p' ! ?r) = Finite y
         \<and> \<bar>y + ?size / 2 - (clientY t - rect_top ?box)\<bar>
             \<le> (\<bar>y\<bar> + \<bar>clientY t - rect_top ?box\<bar> + \<bar>?size\<bar> / 2) / 2 ^ 53 + 3 / 2 ^ 1075)"
    unfolding top using ripple_offset_centred [of "clientY t" "rect_top ?box" ?size] by blast
  have tm: "timers ?p' = timers p @ [(600, ?r)]"
    by (simp add: tp createRippleEffect_timers)
  have l: "length (ripples ?p') = length (ripples p) + 1" "take ?r (ripples ?p') = ripples p"
    by (simp_all add: rp)
  from l ch geo left top cx cy tm t1 ch2 t2 ripple_timeout_total [of j q] show ?thesis
    unfolding Let_def by blast
qed

text \<open>
  A touch at (60, 40) on element 7 of the example page: a ripple of side 200 at
  (-50, -80), the only ripple child of 7, with one timer of 600ms. A touch at
  \<open>x = 60.7\<close> on the page with the box at 10.1 of width 200.3: the ripple is at
  \<open>-49.550000000000004\<close>, the double \<open>- 6973542548006503 / 2^47\<close>.
\<close>

theorem ripple_lifecycle_witness:
  "\<bar>clientX \<lparr>clientX = 60, clientY = 40\<rparr>\<bar> \<le> 2 ^ 1000
   \<and> \<bar>clientY \<lparr>clientX = 60, clientY = 40\<rparr>\<bar> \<le> 2 ^ 1000
   \<and> \<bar>rect_left (boundingClientRect button_page 7)\<bar> \<le> 2 ^ 1000
   \<and> \<bar>rect_top (boundingClientRect button_page 7)\<bar> \<le> 2 ^ 1000
   \<and> \<bar>max (rect_width (boundingClientRect button_page 7))
           (rect_height (boundingClientRect button_page 7))\<bar> \<le> 2 ^ 1000
   \<and> css_width (ripples (feedback_touchstart 7 \<lparr>clientX = 60, clientY = 40\<rparr> button_page) ! 0) = 200
   \<and> css_left (ripples (feedback_touchstart 7 \<lparr>clientX = 60, clientY = 40\<rparr> button_page) ! 0)
        = Finite (- 50)
   \<and> css_top (ripples (feedback_touchstart 7 \<lparr>clientX = 60, clientY = 40\<rparr> button_page) ! 0)
        = Finite (- 80)
   \<and> ripple_children (feedback_touchstart 7 \<lparr>clientX = 60, clientY = 40\<rparr> button_page) 7 = [0]
   \<and> ripple_children (feedback_touchstart 7 \<lparr>clientX = 60, clientY = 40\<rparr> button_page) 8 = []
   \<and> timers (feedback_touchstart 7 \<lparr>clientX = 60, clientY = 40\<rparr> button_page) = [(600, 0)]
   \<and> css_left (ripples (feedback_touchstart 7
          \<lparr>clientX = 4271382771584205 / 2 ^ 46, clientY = 40\<rparr> fraction_page) ! 0)
        = Finite (- (6973542548006503 / 2 ^ 47))"
proof -
  let ?t = "\<lparr>clientX = 60, clientY = 40\<rparr>"
  have b: "boundingClientRect button_page 7 =
      \<lparr>rect_left = 10, rect_top = 20, rect_width = 200, rect_height = 50\<rparr>"
    "ripples button_page = []" "timers button_page = []"
    by (simp_all add: button_page_def)
  have c: "ripple_children button_page e = []" for e
    by (simp add: ripple_children_def b)
  have bounds: "\<bar>clientX ?t\<bar> \<le> 2 ^ 1000" "\<bar>clientY ?t\<bar> \<le> 2 ^ 1000"
    "\<bar>rect_left (boundingClientRect button_page 7)\<bar> \<le> 2 ^ 1000"
    "\<bar>rect_top (boundingClientRect button_page 7)\<bar> \<le> 2 ^ 1000"
    "\<bar>max (rect_width (boundingClientRect button_page 7))
          (rect_height (boundingClientRect button_page 7))\<bar> \<le> 2 ^ 1000"
    by (simp_all add: b)
  note l7 = ripple_lifecycle [of 7 ?t button_page 7, unfolded Let_def b c]
  note l8 = ripple_lifecycle [of 7 ?t button_page 8, unfolded Let_def b c]
  have w: "css_width (ripples (feedback_touchstart 7 ?t button_page) ! 0) = 200"
    using l7 by simp
  have x: "css_left (ripples (feedback_touchstart 7 ?t button_page) ! 0) = Finite (- 50)"
    using l7 by (simp add: round_double_numeral)
  have y: "css_top (ripples (feedback_touchstart 7 ?t button_page) ! 0) = Finite (- 80)"
    using l7 by (simp add: round_double_numeral)
  have c7: "ripple_children (feedback_touchstart 7 ?t button_page) 7 = [0]"
    using l7 by simp
  have c8: "ripple_children (feedback_touchstart 7 ?t button_page) 8 = []"
    using l8 by simp
  have tm: "timers (feedback_touchstart 7 ?t button_page) = [(600, 0)]"
    using l7 by simp
  let ?u = "\<lparr>clientX = 4271382771584205 / 2 ^ 46, clientY = 40\<rparr>"
  have f: "boundingClientRect fraction_page 7 =
      \<lparr>rect_left = 5685794529555251 / 2 ^ 49, rect_top = 20,
       rect_width = 3523714864696525 / 2 ^ 44, rect_height = 50\<rparr>"
    "ripples fraction_page = []"
    by (simp_all add: fraction_page_def button_page_def)
  note lf = ripple_lifecycle [of 7 ?u fraction_page 7, unfolded Let_def f]
  have "css_left (ripples (feedback_touchstart 7 ?u fraction_page) ! 0) =
      js_sub (js_sub (Finite (4271382771584205 / 2 ^ 46)) (Finite (5685794529555251 / 2 ^ 49)))
        (js_div (Finite (3523714864696525 / 2 ^ 44)) (Finite 2))"
    using lf by simp
  also have "\<dots> = js_sub (Finite (7121316910779597 / 2 ^ 47))
      (js_div (Finite (3523714864696525 / 2 ^ 44)) (Finite 2))"
    by (simp only: js_sub.simps double_differences)
  also have "js_div (Finite (3523714864696525 / 2 ^ 44)) (Finite 2)
      = Finite (3523714864696525 / 2 ^ 45)"
    using double_differences(3) by simp
  also have "js_sub (Finite (7121316910779597 / 2 ^ 47)) (Finite (3523714864696525 / 2 ^ 45))
      = Finite (- (6973542548006503 / 2 ^ 47))"
    by (simp only: js_sub.simps double_differences)
  finally have xf: "css_left (ripples (feedback_touchstart 7 ?u fraction_page) ! 0)
      = Finite (- (6973542548006503 / 2 ^ 47))" .
  from bounds w x y c7 c8 tm xf show ?thesis by blast
qed

subsection \<open>Initialisation\<close>

text \<open>
  Claim C10. On a device without touch capability (\<open>'ontouchstart'\<close> is not in
  \<open>window\<close> and \<open>maxTouchPoints\<close> is 0) \<open>initTouchEnhancements\<close> returns at once and
  leaves the page as it was: no listener, no \<open>touch-device\<close> class, no feature set up.
  Loading the page still appends the ripple style element to the head, once, in
  either branch of the ready-state dispatch; the only listener on the page is the
  dispatch's own \<open>DOMContentLoaded\<close> listener, when the document was still loading.
\<close>

theorem no_touch_init:
  assumes "\<not> ontouchstart_in_window b" "maxTouchPoints b = Some 0"
  shows "initTouchEnhancements b doc w = (None, w)
       \<and> page_load b doc w =
           w\<lparr>eventListeners := eventListeners w @
                (if readyState b = ''loading''
                 then [\<lparr>l_target = Document, l_type = ''DOMContentLoaded'',
                        l_handler = DOMContentLoadedHandler, l_passive = None\<rparr>]
                 else []),
              headStyles := headStyles w + 1,
              touchEnhancementsExported := True\<rparr>"
proof -
  have nt: "\<not> isTouchDevice b" using assms by (simp add: isTouchDevice_def)
  then have init: "initTouchEnhancements b doc w' = (None, w')" for w'
    by (simp add: initTouchEnhancements_def)
  show ?thesis
    by (cases w) (simp add: init page_load_def touch_script_def onDOMContentLoaded_def and_then_def
        addRippleStyles_def addEventListener_def)
qed

lemma touch_init_throws:
  "isTouchDevice b \<Longrightarrow>
     fst (initTouchEnhancements b doc w) = Some (ReferenceError ''setupImageGalleryTouch'')"
  by (simp add: initTouchEnhancements_def and_then_def call_undeclared_def Let_def)

text \<open>The sample document in a browser without touch, still loading and already loaded.\<close>

theorem no_touch_init_witness:
  "\<not> ontouchstart_in_window (desktop_browser ''loading'')
   \<and> maxTouchPoints (desktop_browser ''loading'') = Some 0
   \<and> initTouchEnhancements (desktop_browser ''loading'') sample_document empty_page = (None, empty_page)
   \<and> page_load (desktop_browser ''loading'') sample_document empty_page =
       \<lparr>bodyClasses = [],
        eventListeners = [\<lparr>l_target = Document, l_type = ''DOMContentLoaded'',
                          l_handler = DOMContentLoadedHandler, l_passive = None\<rparr>],
        attributesSet = [], observed = [], headStyles = 1, consoleLog = [],
        touchEnhancementsExported = True\<rparr>
   \<and> page_load (desktop_browser ''complete'') sample_document empty_page =
       \<lparr>bodyClasses = [], eventListeners = [],
        attributesSet = [], observed = [], headStyles = 1, consoleLog = [],
        touchEnhancementsExported = True\<rparr>"
proof -
  have h: "\<not> ontouchstart_in_window (desktop_browser st)"
    "maxTouchPoints (desktop_browser st) = Some 0" for st
    by (simp_all add: desktop_browser_def)
  have r: "readyState (desktop_browser st) = st" for st
    by (simp add: desktop_browser_def)
  from h no_touch_init [OF h, of "''loading''" sample_document empty_page]
    no_touch_init [OF h, of "''complete''" sample_document empty_page]
  show ?thesis
    by (simp add: r empty_page_def)
qed

text \<open>
  On a device with touch capability \<open>initTouchEnhancements\<close> does not return: the call
  of \<open>setupImageGalleryTouch\<close> throws, after the form optimisations and before
  \<open>setupScrollOptimizations\<close>.
\<close>

lemma fold_invariant:
  assumes "\<And>x w. g (f x w) = g w"
  shows "g (fold f xs w) = g w"
  by (induction xs arbitrary: w) (simp_all add: assms)

lemma scroll_listeners_add_element:
  "scroll_listeners (addEventListener (Element e) type h passive w) = scroll_listeners w"
  by (simp add: scroll_listeners_def addEventListener_def)

lemma scroll_listeners_add_document:
  "scroll_listeners (addEventListener Document type h passive w) = scroll_listeners w"
  by (simp add: scroll_listeners_def addEventListener_def)

lemma scroll_listeners_frame:
  "scroll_listeners (w\<lparr>bodyClasses := c\<rparr>) = scroll_listeners w"
  "scroll_listeners (w\<lparr>attributesSet := a\<rparr>) = scroll_listeners w"
  "scroll_listeners (w\<lparr>observed := ob\<rparr>) = scroll_listeners w"
  "scroll_listeners (w\<lparr>headStyles := n\<rparr>) = scroll_listeners w"
  "scroll_listeners (w\<lparr>consoleLog := l\<rparr>) = scroll_listeners w"
  "scroll_listeners (w\<lparr>touchEnhancementsExported := x\<rparr>) = scroll_listeners w"
  by (simp_all add: scroll_listeners_def)

lemma scroll_listeners_setupTouchFeedback:
  "scroll_listeners (setupTouchFeedback doc w) = scroll_listeners w"
  unfolding setupTouchFeedback_def
  by (rule fold_invariant) (simp add: scroll_listeners_add_element)

lemma scroll_listeners_setupSwipeGestures:
  "scroll_listeners (setupSwipeGestures doc w) = scroll_listeners w"
proof -
  have slider: "scroll_listeners (setupSliderSwipe doc x v) = scroll_listeners v" for x v
    by (simp add: setupSliderSwipe_def scroll_listeners_add_element split: option.splits)
  have image: "scroll_listeners (setupImageSwipe x v) = scroll_listeners v" for x v
    by (simp add: setupImageSwipe_def scroll_listeners_add_element)
  have menu: "scroll_listeners (setupSwipeToClose x v) = scroll_listeners v" for x v
    by (simp add: setupSwipeToClose_def scroll_listeners_add_element)
  show ?thesis
    unfolding setupSwipeGestures_def Let_def
    by (simp add: fold_invariant [of scroll_listeners, OF image]
        fold_invariant [of scroll_listeners, OF slider] menu split: option.splits)
qed

lemma scroll_listeners_setupMobileMenuEnhancements:
  "scroll_listeners (setupMobileMenuEnhancements doc w) = scroll_listeners w"
  by (simp add: setupMobileMenuEnhancements_def Let_def scroll_listeners_frame
      scroll_listeners_add_element split: option.splits)

lemma scroll_listeners_setupFormOptimizations:
  "scroll_listeners (setupFormOptimizations b doc w) = scroll_listeners w"
  unfolding setupFormOptimizations_def
  by (rule fold_invariant) (simp add: scroll_listeners_add_element)

text \<open>No run of \<open>initTouchEnhancements\<close> adds a \<open>scroll\<close> listener.\<close>

lemma scroll_listeners_init:
  "scroll_listeners (snd (initTouchEnhancements b doc w)) = scroll_listeners w"
  by (simp add: initTouchEnhancements_def and_then_def call_undeclared_def Let_def
      scroll_listeners_setupFormOptimizations scroll_listeners_setupMobileMenuEnhancements
      scroll_listeners_setupSwipeGestures scroll_listeners_setupTouchFeedback
      scroll_listeners_frame)

lemma scroll_listeners_page_load:
  "scroll_listeners (page_load b doc w) = scroll_listeners w"
proof -
  have *: "scroll_listeners (snd (and_then (initTouchEnhancements b doc v) (\<lambda>w1. (None, addRippleStyles w1))))
      = scroll_listeners v" for v
    using scroll_listeners_init [of b doc v]
    by (cases "initTouchEnhancements b doc v")
      (auto simp: and_then_def addRippleStyles_def scroll_listeners_frame split: option.splits)
  have script: "scroll_listeners (snd (touch_script b doc w)) = scroll_listeners w"
    using * [of w]
    by (cases "initTouchEnhancements b doc w")
      (auto simp: touch_script_def and_then_def addRippleStyles_def scroll_listeners_frame
        scroll_listeners_add_document split: option.splits)
  show ?thesis
    by (simp add: page_load_def Let_def onDOMContentLoaded_def * script)
qed

lemma browse_no_listener:
  "scroll_listeners w = [] \<Longrightarrow> frameCallbacks s = 0 \<Longrightarrow>
     classListCalls (browse w es s) = classListCalls s
     \<and> bodyClassList (browse w es s) = bodyClassList s"
proof (induction es arbitrary: s)
  case Nil
  show ?case by simp
next
  case (Cons e es)
  have "frameCallbacks (dispatch w e s) = 0" "classListCalls (dispatch w e s) = classListCalls s"
    "bodyClassList (dispatch w e s) = bodyClassList s"
    using Cons.prems by (cases e; simp)+
  with Cons.IH [OF Cons.prems(1), of "dispatch w e s"] show ?case by simp
qed

text \<open>
  Claim C7 (any number of scroll events before a frame gives exactly one class
  update). The code at a page loaded in a browser with touch: the script ends with a
  \<open>ReferenceError\<close> before the scroll listener is added, so three scroll events and a
  frame update no class. (Without touch the initialisation returns before it sets
  anything up.) The throttle itself, once installed, does what the claim says, as
  shown in the subsection on the scroll class throttle.
\<close>

theorem touch_page_scroll_no_class_update:
  "fst (touch_script (touch_browser ''complete'') sample_document empty_page)
     = Some (ReferenceError ''setupImageGalleryTouch'')
   \<and> scroll_listeners (page_load (touch_browser ''complete'') sample_document empty_page) = []
   \<and> classListCalls
       (browse (page_load (touch_browser ''complete'') sample_document empty_page)
          [Scroll 30, Scroll 80, Scroll 150, AnimationFrame] (scroll_init 0 [''touch-device''])) = []"
proof -
  have t: "isTouchDevice (touch_browser ''complete'')"
    by (simp add: isTouchDevice_def touch_browser_def)
  have a: "fst (touch_script (touch_browser ''complete'') sample_document empty_page)
      = Some (ReferenceError ''setupImageGalleryTouch'')"
    using touch_init_throws [OF t, of sample_document empty_page]
    by (cases "initTouchEnhancements (touch_browser ''complete'') sample_document empty_page")
      (simp add: touch_script_def and_then_def touch_browser_def)
  have b: "scroll_listeners (page_load (touch_browser ''complete'') sample_document empty_page) = []"
    by (simp add: scroll_listeners_page_load) (simp add: scroll_listeners_def empty_page_def)
  have c: "frameCallbacks (scroll_init 0 [''touch-device'']) = 0"
    "classListCalls (scroll_init 0 [''touch-device'']) = []"
    by (simp_all add: scroll_init_def)
  have d: "classListCalls
      (browse (page_load (touch_browser ''complete'') sample_document empty_page)
         [Scroll 30, Scroll 80, Scroll 150, AnimationFrame] (scroll_init 0 [''touch-device''])) = []"
    unfolding conjunct1 [OF browse_no_listener [OF b c(1)]] by (rule c(2))
  from a b d show ?thesis by blast
qed



section \<open>Properties of the animation orchestrator\<close>

subsection \<open>Running statements in sequence\<close>

lemma and_then_None: "and_then (None, w) f = f w"
  by (simp add: and_then_def)

lemma and_then_returned: "fst r = None \<Longrightarrow> and_then r f = f (snd r)"
  by (cases r) (simp add: and_then_def)

subsection \<open>What each step leaves unchanged\<close>

text \<open>On elements the hint never throws: it sets the style of each, in order.\<close>

lemma addWillChange_elements:
  "addWillChange (map Elem els) p w =
     (None, w\<lparr>willChange := fold (\<lambda>el f. f(el \<mapsto> p)) els (willChange w)\<rparr>)"
  by (induction els arbitrary: w) simp_all

lemma createOptimizedScrollTrigger_fields:
  "fst (createOptimizedScrollTrigger els fv tv tp w) = None"
  "splitDone (snd (createOptimizedScrollTrigger els fv tv tp w)) = splitDone w"
  "splitCalls (snd (createOptimizedScrollTrigger els fv tv tp w)) = splitCalls w"
  "filter is_heading_animation (animations (snd (createOptimizedScrollTrigger els fv tv tp w)))
     = filter is_heading_animation (animations w)"
  by (simp_all add: createOptimizedScrollTrigger_def addWillChange_elements and_then_None
      is_heading_animation_def)

subsection \<open>Word tokenization of headings\<close>

text \<open>A heading that carries the marker is left alone.\<close>

lemma heading_step_marked:
  "truthy (splitDone w el) \<Longrightarrow> heading_step doc el w = (None, w)"
  by (simp add: heading_step_def)

lemma heading_step_fields:
  "fst (heading_step doc el w) = None"
  "truthy (splitDone (snd (heading_step doc el w)) el)"
  "truthy (splitDone w x) \<Longrightarrow> truthy (splitDone (snd (heading_step doc el w)) x)"
  by (simp_all add: heading_step_def addWillChange_elements and_then_None Let_def truthy_def)

lemma headings_marked:
  "forEach (heading_step doc) hs w = (None, w)" if "list_all (\<lambda>el. truthy (splitDone w el)) hs"
  using that by (induction hs) (simp_all add: heading_step_marked and_then_None)

lemma headings_step:
  "forEach (heading_step doc) (h # hs) w = forEach (heading_step doc) hs (snd (heading_step doc h w))"
  by (simp add: and_then_returned heading_step_fields(1))

lemma headings_return: "fst (forEach (heading_step doc) hs w) = None"
proof (induction hs arbitrary: w)
  case Nil
  show ?case by simp
next
  case (Cons h hs)
  show ?case unfolding headings_step by (rule Cons.IH)
qed

lemma headings_keep_marks:
  "truthy (splitDone w x) \<Longrightarrow> truthy (splitDone (snd (forEach (heading_step doc) hs w)) x)"
proof (induction hs arbitrary: w)
  case Nil
  then show ?case by simp
next
  case (Cons h hs)
  from Cons.prems have "truthy (splitDone (snd (heading_step doc h w)) x)"
    by (rule heading_step_fields(3))
  then show ?case unfolding headings_step by (rule Cons.IH)
qed

lemma headings_all_marked:
  "list_all (\<lambda>el. truthy (splitDone (snd (forEach (heading_step doc) hs w)) el)) hs"
proof (induction hs arbitrary: w)
  case Nil
  show ?case by simp
next
  case (Cons h hs)
  have "truthy (splitDone (snd (heading_step doc h w)) h)"
    by (rule heading_step_fields(2))
  then have "truthy (splitDone (snd (forEach (heading_step doc) hs (snd (heading_step doc h w)))) h)"
    by (rule headings_keep_marks)
  with Cons.IH [of "snd (heading_step doc h w)"] show ?case
    unfolding headings_step by simp
qed

lemma fade_and_logos_fields:
  "fst (fade_and_logos doc w) = None"
  "splitDone (snd (fade_and_logos doc w)) = splitDone w"
  "splitCalls (snd (fade_and_logos doc w)) = splitCalls w"
  "filter is_heading_animation (animations (snd (fade_and_logos doc w)))
     = filter is_heading_animation (animations w)"
  by (simp_all add: fade_and_logos_def Let_def and_then_returned
      createOptimizedScrollTrigger_fields)

lemma text_animations_split:
  "initOptimizedTextAnimations doc w =
     fade_and_logos doc (snd (forEach (heading_step doc) (flatMap_query doc headingSelectors) w))"
  unfolding initOptimizedTextAnimations_def fade_and_logos_def
  by (simp add: and_then_returned headings_return)

text \<open>
  Claim C8. \<open>initOptimizedTextAnimations\<close> run on any page returns, and leaves every
  heading it selected with a true \<open>dataset.splitDone\<close>. Run again on the page it left
  (the same document), it returns, constructs no further \<open>SplitType\<close>, changes no
  marker and registers no further heading animation: the headings' animations
  after the second run are those after the first.
\<close>

theorem text_animation_idempotent:
  "fst (initOptimizedTextAnimations doc w) = None
   \<and> fst (initOptimizedTextAnimations doc (snd (initOptimizedTextAnimations doc w))) = None
   \<and> list_all (\<lambda>el. truthy (splitDone (snd (initOptimizedTextAnimations doc w)) el))
        (flatMap_query doc headingSelectors)
   \<and> splitCalls (snd (initOptimizedTextAnimations doc (snd (initOptimizedTextAnimations doc w))))
        = splitCalls (snd (initOptimizedTextAnimations doc w))
   \<and> splitDone (snd (initOptimizedTextAnimations doc (snd (initOptimizedTextAnimations doc w))))
        = splitDone (snd (initOptimizedTextAnimations doc w))
   \<and> filter is_heading_animation
        (animations (snd (initOptimizedTextAnimations doc (snd (initOptimizedTextAnimations doc w)))))
        = filter is_heading_animation (animations (snd (initOptimizedTextAnimations doc w)))"
proof -
  let ?hs = "flatMap_query doc headingSelectors"
  let ?wa = "snd (forEach (heading_step doc) ?hs w)"
  let ?w1 = "snd (initOptimizedTextAnimations doc w)"
  have w1: "?w1 = snd (fade_and_logos doc ?wa)"
    by (simp add: text_animations_split)
  have "list_all (\<lambda>el. truthy (splitDone ?wa el)) ?hs"
    by (rule headings_all_marked)
  then have marked: "list_all (\<lambda>el. truthy (splitDone ?w1 el)) ?hs"
    by (simp add: w1 fade_and_logos_fields)
  then have again: "forEach (heading_step doc) ?hs ?w1 = (None, ?w1)"
    by (rule headings_marked)
  have second: "initOptimizedTextAnimations doc ?w1 = fade_and_logos doc ?w1"
    by (simp add: text_animations_split [of doc ?w1] again)
  show ?thesis
    using marked by (simp add: second fade_and_logos_fields) (simp add: text_animations_split fade_and_logos_fields)
qed

subsection \<open>Missing libraries\<close>

text \<open>
  Claim C4. When \<open>gsap\<close> or \<open>ScrollTrigger\<close> is undefined, \<open>initGSAPOptimizations\<close>
  returns with one warning on the console and the page otherwise as it was: no
  element's style or marker is written, nothing is tokenized, no animation, timeline
  or trigger is registered, no plugin registered, no default set, no refresh.
\<close>

theorem missing_library_aborts:
  assumes "gsap_undefined w \<or> scrollTrigger_undefined w"
  shows "initGSAPOptimizations doc w =
           (None, w\<lparr>warnings := warnings w @
              [''GSAP or ScrollTrigger not loaded. Skipping optimized animations.'']\<rparr>)"
  using assms by (auto simp: initGSAPOptimizations_def)

text \<open>The sample page with one of the two libraries missing.\<close>

theorem missing_library_aborts_witness:
  "scrollTrigger_undefined (fresh_page False True)
   \<and> initGSAPOptimizations (footer_document [23]) (fresh_page False True) =
       (None, (fresh_page False True)\<lparr>warnings :=
          [''GSAP or ScrollTrigger not loaded. Skipping optimized animations.'']\<rparr>)
   \<and> gsap_undefined (fresh_page True False)
   \<and> animations (snd (initGSAPOptimizations (footer_document [23]) (fresh_page True False))) = []
   \<and> splitCalls (snd (initGSAPOptimizations (footer_document [23]) (fresh_page True False))) = []"
proof -
  have a: "scrollTrigger_undefined (fresh_page False True)"
    and b: "gsap_undefined (fresh_page True False)"
    by (simp_all add: fresh_page_def)
  have a': "gsap_undefined (fresh_page False True) \<or> scrollTrigger_undefined (fresh_page False True)"
    and b': "gsap_undefined (fresh_page True False) \<or> scrollTrigger_undefined (fresh_page True False)"
    using a b by simp_all
  have w: "warnings (fresh_page False True) = []" by (simp add: fresh_page_def)
  have c: "animations (fresh_page True False) = []" "splitCalls (fresh_page True False) = []"
    by (simp_all add: fresh_page_def)
  from a b missing_library_aborts [OF a', of "footer_document [23]"]
    missing_library_aborts [OF b', of "footer_document [23]"] w c
  show ?thesis by simp
qed

subsection \<open>Groups without elements\<close>

lemma forEach_step: "fst (f x w) = None \<Longrightarrow> forEach f (x # xs) w = forEach f xs (snd (f x w))"
  by (simp add: and_then_returned)

lemma forEach_returns:
  assumes "\<And>x w. fst (f x w) = None"
  shows "fst (forEach f xs w) = None"
proof (induction xs arbitrary: w)
  case Nil
  show ?case by simp
next
  case (Cons x xs)
  have "forEach f (x # xs) w = forEach f xs (snd (f x w))"
    by (rule forEach_step) (rule assms)
  then show ?case by (simp only: Cons.IH)
qed

lemma forEach_preserves:
  assumes "\<And>x w. fst (f x w) = None" and "\<And>x w. g (snd (f x w)) = g w"
  shows "g (snd (forEach f xs w)) = g w"
proof (induction xs arbitrary: w)
  case Nil
  show ?case by simp
next
  case (Cons x xs)
  have "forEach f (x # xs) w = forEach f xs (snd (f x w))"
    by (rule forEach_step) (rule assms(1))
  then show ?case by (simp only: Cons.IH assms(2))
qed

lemma createOptimizedScrollTrigger_frame:
  "refreshes (snd (createOptimizedScrollTrigger els fv tv tp w)) = refreshes w"
  "filter is_timeline (animations (snd (createOptimizedScrollTrigger els fv tv tp w)))
     = filter is_timeline (animations w)"
  by (simp_all add: createOptimizedScrollTrigger_def addWillChange_elements and_then_None
      is_timeline_def)

lemma image_config_step_fields:
  "fst (image_config_step doc c w) = None"
  "refreshes (snd (image_config_step doc c w)) = refreshes w"
  "filter is_timeline (animations (snd (image_config_step doc c w))) = filter is_timeline (animations w)"
  by (simp_all add: image_config_step_def Let_def createOptimizedScrollTrigger_fields
      createOptimizedScrollTrigger_frame)

lemma image_wrapper_step_fields:
  "fst (image_wrapper_step doc c w) = None"
  "refreshes (snd (image_wrapper_step doc c w)) = refreshes w"
  "filter is_timeline (animations (snd (image_wrapper_step doc c w))) = filter is_timeline (animations w)"
  by (simp_all add: image_wrapper_step_def Let_def createOptimizedScrollTrigger_fields
      createOptimizedScrollTrigger_frame)

lemma image_animations_fields:
  "fst (initOptimizedImageAnimations doc w) = None"
  "refreshes (snd (initOptimizedImageAnimations doc w)) = refreshes w"
  "filter is_timeline (animations (snd (initOptimizedImageAnimations doc w)))
     = filter is_timeline (animations w)"
proof -
  let ?s = "(let sliderImages = querySelectorAll doc ''.image-wrapper.slider''
        in if length sliderImages > 0
           then createOptimizedScrollTrigger sliderImages
                  [(''scale'', ''1.1''), (''filter'', ''blur(10px)''), (''opacity'', ''0'')]
                  [(''scale'', ''1''), (''filter'', ''blur(0px)''), (''opacity'', ''1''),
                   (''duration'', ''1.2''), (''ease'', ''power2.out''), (''stagger'', ''0.15'')]
                  \<lparr>tp_start = Some ''top 80%'', tp_trigger = None\<rparr> w
           else (None, w))"
  let ?c = "forEach (image_config_step doc) imageConfigs (snd ?s)"
  have s: "fst ?s = None" "refreshes (snd ?s) = refreshes w"
    "filter is_timeline (animations (snd ?s)) = filter is_timeline (animations w)"
    by (simp_all add: Let_def createOptimizedScrollTrigger_fields createOptimizedScrollTrigger_frame)
  have c: "fst ?c = None"
    by (rule forEach_returns) (rule image_config_step_fields)
  have run: "initOptimizedImageAnimations doc w =
      forEach (image_wrapper_step doc) imageWrapperSelectors (snd ?c)"
    unfolding initOptimizedImageAnimations_def
    by (simp only: and_then_returned [OF s(1)] and_then_returned [OF c])
  show "fst (initOptimizedImageAnimations doc w) = None"
    unfolding run by (rule forEach_returns) (rule image_wrapper_step_fields)
  have "refreshes (snd (initOptimizedImageAnimations doc w)) = refreshes (snd ?c)"
    unfolding run by (rule forEach_preserves) (rule image_wrapper_step_fields)+
  also have "\<dots> = refreshes (snd ?s)"
    by (rule forEach_preserves) (rule image_config_step_fields)+
  finally show "refreshes (snd (initOptimizedImageAnimations doc w)) = refreshes w"
    by (simp only: s)
  have "filter is_timeline (animations (snd (initOptimizedImageAnimations doc w)))
      = filter is_timeline (animations (snd ?c))"
    unfolding run
    by (rule forEach_preserves [where g = "\<lambda>w. filter is_timeline (animations w)"])
      (rule image_wrapper_step_fields)+
  also have "\<dots> = filter is_timeline (animations (snd ?s))"
    by (rule forEach_preserves [where g = "\<lambda>w. filter is_timeline (animations w)"])
      (rule image_config_step_fields)+
  finally show "filter is_timeline (animations (snd (initOptimizedImageAnimations doc w)))
     = filter is_timeline (animations w)"
    by (simp only: s)
qed

lemma heading_step_frame:
  "refreshes (snd (heading_step doc el w)) = refreshes w"
  "filter is_timeline (animations (snd (heading_step doc el w))) = filter is_timeline (animations w)"
  by (simp_all add: heading_step_def addWillChange_elements and_then_None Let_def is_timeline_def)

lemma fade_and_logos_frame:
  "refreshes (snd (fade_and_logos doc w)) = refreshes w"
  "filter is_timeline (animations (snd (fade_and_logos doc w))) = filter is_timeline (animations w)"
  by (simp_all add: fade_and_logos_def Let_def and_then_returned
      createOptimizedScrollTrigger_fields createOptimizedScrollTrigger_frame)

lemma text_animations_fields:
  "fst (initOptimizedTextAnimations doc w) = None"
  "refreshes (snd (initOptimizedTextAnimations doc w)) = refreshes w"
  "filter is_timeline (animations (snd (initOptimizedTextAnimations doc w)))
     = filter is_timeline (animations w)"
proof -
  let ?h = "forEach (heading_step doc) (flatMap_query doc headingSelectors) w"
  show "fst (initOptimizedTextAnimations doc w) = None"
    by (simp add: text_animations_split fade_and_logos_fields)
  have "refreshes (snd ?h) = refreshes w"
    by (rule forEach_preserves) (rule heading_step_fields heading_step_frame)+
  then show "refreshes (snd (initOptimizedTextAnimations doc w)) = refreshes w"
    by (simp add: text_animations_split fade_and_logos_frame)
  have "filter is_timeline (animations (snd ?h)) = filter is_timeline (animations w)"
    by (rule forEach_preserves [where g = "\<lambda>w. filter is_timeline (animations w)"])
      (rule heading_step_fields heading_step_frame)+
  then show "filter is_timeline (animations (snd (initOptimizedTextAnimations doc w)))
     = filter is_timeline (animations w)"
    by (simp add: text_animations_split fade_and_logos_frame)
qed

text \<open>
  The hint loop of the footer throws exactly on an empty \<open>NodeList\<close>: its \<open>length\<close> is 0,
  so the first test fails, the list itself is true, and \<open>addWillChange([el])\<close> reads the
  \<open>style\<close> of the list.
\<close>

lemma footer_hint_fields:
  "fst (footer_hint v w) = (if v = NodeList [] then Some willChange_error else None)"
  "animations (snd (footer_hint v w)) = animations w"
  "refreshes (snd (footer_hint v w)) = refreshes w"
  by (cases v; simp add: footer_hint_def value_truthy_def length_truthy_def array_from_def
      addWillChange_elements willChange_error_def default_properties_def)+

lemma footer_hints_fields:
  "fst (forEach footer_hint vs w) = (if NodeList [] \<in> set vs then Some willChange_error else None)"
  "animations (snd (forEach footer_hint vs w)) = animations w"
  "refreshes (snd (forEach footer_hint vs w)) = refreshes w"
proof (induction vs arbitrary: w)
  case Nil
  {
    case 1 show ?case by simp
  next
    case 2 show ?case by simp
  next
    case 3 show ?case by simp
  }
next
  case (Cons v vs)
  {
    case 1
    show ?case
      by (cases "footer_hint v w") (use footer_hint_fields(1) [of v w] Cons.IH(1) in \<open>auto simp: and_then_def\<close>)
  next
    case 2
    show ?case
      by (cases "footer_hint v w")
        (use footer_hint_fields(2) [of v w] Cons.IH(2) in \<open>auto simp: and_then_def split: option.splits\<close>)
  next
    case 3
    show ?case
      by (cases "footer_hint v w")
        (use footer_hint_fields(3) [of v w] Cons.IH(3) in \<open>auto simp: and_then_def split: option.splits\<close>)
  }
qed

lemma footer_animation_fields:
  "fst (initOptimizedFooterAnimation doc w) =
     (case querySelector doc ''.footer'' of
        None \<Rightarrow> None
      | Some footer \<Rightarrow>
          if NodeList [] \<in> set (footerElements doc footer) then Some willChange_error else None)"
  "refreshes (snd (initOptimizedFooterAnimation doc w)) = refreshes w"
  "filter is_timeline (animations (snd (initOptimizedFooterAnimation doc w))) =
     filter is_timeline (animations w) @
       (case querySelector doc ''.footer'' of
          None \<Rightarrow> []
        | Some footer \<Rightarrow>
            if NodeList [] \<in> set (footerElements doc footer) then []
            else [Timeline
                    \<lparr>st_trigger = TriggerElement footer, st_start = ''top 80%'',
                     st_toggleActions = None, st_once = True\<rparr>
                    (footer_tweens (footerElements doc footer))])"
proof -
  show "fst (initOptimizedFooterAnimation doc w) =
     (case querySelector doc ''.footer'' of
        None \<Rightarrow> None
      | Some footer \<Rightarrow>
          if NodeList [] \<in> set (footerElements doc footer) then Some willChange_error else None)"
  proof (cases "querySelector doc ''.footer''")
    case None
    then show ?thesis by (simp add: initOptimizedFooterAnimation_def)
  next
    case (Some footer)
    show ?thesis
      using footer_hints_fields(1) [of "footerElements doc footer" w]
      by (cases "forEach footer_hint (footerElements doc footer) w")
        (auto simp: initOptimizedFooterAnimation_def Some and_then_def split: option.splits)
  qed
  show "refreshes (snd (initOptimizedFooterAnimation doc w)) = refreshes w"
  proof (cases "querySelector doc ''.footer''")
    case None
    then show ?thesis by (simp add: initOptimizedFooterAnimation_def)
  next
    case (Some footer)
    show ?thesis
      using footer_hints_fields(3) [of "footerElements doc footer" w]
      by (cases "forEach footer_hint (footerElements doc footer) w")
        (auto simp: initOptimizedFooterAnimation_def Some and_then_def split: option.splits)
  qed
  show "filter is_timeline (animations (snd (initOptimizedFooterAnimation doc w))) =
     filter is_timeline (animations w) @
       (case querySelector doc ''.footer'' of
          None \<Rightarrow> []
        | Some footer \<Rightarrow>
            if NodeList [] \<in> set (footerElements doc footer) then []
            else [Timeline
                    \<lparr>st_trigger = TriggerElement footer, st_start = ''top 80%'',
                     st_toggleActions = None, st_once = True\<rparr>
                    (footer_tweens (footerElements doc footer))])"
  proof (cases "querySelector doc ''.footer''")
    case None
    then show ?thesis by (simp add: initOptimizedFooterAnimation_def)
  next
    case (Some footer)
    show ?thesis
      using footer_hints_fields(1,2) [of "footerElements doc footer" w]
      by (cases "forEach footer_hint (footerElements doc footer) w")
        (auto simp: initOptimizedFooterAnimation_def Some and_then_def is_timeline_def
          split: option.splits if_splits)
  qed
qed

lemma stats_step_fields:
  "fst (stats_step doc c w) = None"
  "refreshes (snd (stats_step doc c w)) = refreshes w"
  by (simp_all add: stats_step_def Let_def and_then_None
      addWillChange_elements [of "lines @ stats" for lines stats, simplified])

lemma stats_animation_fields:
  "fst (initOptimizedStatsAnimation doc w) = None"
  "refreshes (snd (initOptimizedStatsAnimation doc w)) = refreshes w"
  unfolding initOptimizedStatsAnimation_def
  by (rule forEach_returns forEach_preserves; rule stats_step_fields)+

text \<open>
  With both libraries loaded, \<open>initGSAPOptimizations\<close> throws exactly when the page has
  a footer in which one of the five list-valued regions is empty; then
  \<open>ScrollTrigger.refresh\<close> is not called and no timeline has been registered, neither
  the footer's nor that of any stats block.
\<close>

lemma init_loaded:
  assumes "\<not> gsap_undefined w" "\<not> scrollTrigger_undefined w"
  shows "fst (initGSAPOptimizations doc w) =
           (case querySelector doc ''.footer'' of
              None \<Rightarrow> None
            | Some footer \<Rightarrow>
                if NodeList [] \<in> set (footerElements doc footer) then Some willChange_error else None)"
    and "refreshes (snd (initGSAPOptimizations doc w)) =
           (if fst (initGSAPOptimizations doc w) = None then refreshes w + 1 else refreshes w)"
    and "fst (initGSAPOptimizations doc w) \<noteq> None \<Longrightarrow>
           filter is_timeline (animations (snd (initGSAPOptimizations doc w)))
             = filter is_timeline (animations w)"
proof -
  define w2 where "w2 = w\<lparr>pluginRegistered := True,
      gsapDefaults := Some [(''ease'', ''power2.out''), (''duration'', ''0.8'')]\<rparr>"
  define w3 where "w3 = snd (initOptimizedImageAnimations doc w2)"
  define w4 where "w4 = snd (initOptimizedTextAnimations doc w3)"
  define r where "r = initOptimizedFooterAnimation doc w4"
  have run: "initGSAPOptimizations doc w =
      and_then r (\<lambda>w5. and_then (initOptimizedStatsAnimation doc w5)
        (\<lambda>w6. (None, w6\<lparr>refreshes := refreshes w6 + 1\<rparr>)))"
    using assms
    by (simp add: initGSAPOptimizations_def Let_def r_def w4_def w3_def w2_def
        and_then_returned image_animations_fields text_animations_fields)
  have keep: "refreshes w4 = refreshes w"
    "filter is_timeline (animations w4) = filter is_timeline (animations w)"
    by (simp_all add: w4_def w3_def w2_def image_animations_fields text_animations_fields)
  have r1: "fst r = (case querySelector doc ''.footer'' of
              None \<Rightarrow> None
            | Some footer \<Rightarrow>
                if NodeList [] \<in> set (footerElements doc footer) then Some willChange_error else None)"
    and r2: "refreshes (snd r) = refreshes w"
    and r3: "fst r \<noteq> None \<Longrightarrow> filter is_timeline (animations (snd r)) = filter is_timeline (animations w)"
    using footer_animation_fields [of doc w4] keep
    by (auto simp: r_def split: option.splits if_splits)
  have rest: "and_then (initOptimizedStatsAnimation doc v) (\<lambda>w6. (None, w6\<lparr>refreshes := refreshes w6 + 1\<rparr>))
      = (None, (snd (initOptimizedStatsAnimation doc v))
                 \<lparr>refreshes := refreshes (snd (initOptimizedStatsAnimation doc v)) + 1\<rparr>)" for v
    by (simp add: and_then_returned stats_animation_fields)
  have fst_run: "fst (initGSAPOptimizations doc w) = fst r"
    unfolding run rest
    by (cases r) (auto simp: and_then_def split: option.splits)
  show "fst (initGSAPOptimizations doc w) =
           (case querySelector doc ''.footer'' of
              None \<Rightarrow> None
            | Some footer \<Rightarrow>
                if NodeList [] \<in> set (footerElements doc footer) then Some willChange_error else None)"
    by (simp only: fst_run r1)
  show "refreshes (snd (initGSAPOptimizations doc w)) =
           (if fst (initGSAPOptimizations doc w) = None then refreshes w + 1 else refreshes w)"
    unfolding fst_run unfolding run rest using r2
    by (cases r) (auto simp: and_then_def stats_animation_fields split: option.splits)
  show "filter is_timeline (animations (snd (initGSAPOptimizations doc w)))
             = filter is_timeline (animations w)"
    if "fst (initGSAPOptimizations doc w) \<noteq> None"
    using that r3 unfolding fst_run unfolding run rest
    by (cases r) (auto simp: and_then_def split: option.splits)
qed

lemma footer_document_footer: "querySelector (footer_document d) ''.footer'' = Some 10"
  by (simp add: querySelector_def footer_document_def)

lemma footer_document_elements:
  "NodeList [] \<in> set (footerElements (footer_document d) 10) \<longleftrightarrow> d = []"
  by (auto simp: footerElements_def query_all_def query_one_def querySelectorIn_def
      footer_document_def)

lemma footer_document_stats:
  "length (filter is_timeline
     (animations (snd (initOptimizedStatsAnimation (footer_document d) (fresh_page False False))))) = 1"
  by (simp add: initOptimizedStatsAnimation_def stats_step_def footer_document_def fresh_page_def
      default_properties_def and_then_def is_timeline_def Let_def)

text \<open>
  Claim C5 (a group without elements is skipped without an error, and the other groups
  are set up as if it did not exist). The code at a page whose footer has every region
  but \<open>.download-text\<close>, and which has a stats block: the orchestrator throws a
  \<open>TypeError\<close>, registers no timeline and does not refresh, although the stats block
  on its own gets its timeline; with a \<open>.download-text\<close> in the footer the same page
  is set up completely.
\<close>

theorem footer_empty_group_throws:
  "fst (initGSAPOptimizations (footer_document []) (fresh_page False False)) = Some willChange_error
   \<and> filter is_timeline
       (animations (snd (initGSAPOptimizations (footer_document []) (fresh_page False False)))) = []
   \<and> refreshes (snd (initGSAPOptimizations (footer_document []) (fresh_page False False))) = 0
   \<and> length (filter is_timeline
       (animations (snd (initOptimizedStatsAnimation (footer_document []) (fresh_page False False))))) = 1
   \<and> fst (initGSAPOptimizations (footer_document [23]) (fresh_page False False)) = None
   \<and> refreshes (snd (initGSAPOptimizations (footer_document [23]) (fresh_page False False))) = 1"
proof -
  have l: "\<not> gsap_undefined (fresh_page False False)"
    "\<not> scrollTrigger_undefined (fresh_page False False)"
    and z: "refreshes (fresh_page False False) = 0" "animations (fresh_page False False) = []"
    by (simp_all add: fresh_page_def)
  have a: "fst (initGSAPOptimizations (footer_document []) (fresh_page False False)) = Some willChange_error"
    by (simp add: init_loaded(1) [OF l] footer_document_footer footer_document_elements)
  have b: "fst (initGSAPOptimizations (footer_document [23]) (fresh_page False False)) = None"
    by (simp add: init_loaded(1) [OF l] footer_document_footer footer_document_elements)
  have c: "refreshes (snd (initGSAPOptimizations (footer_document []) (fresh_page False False))) = 0"
    by (simp add: init_loaded(2) [OF l] a z)
  have d: "refreshes (snd (initGSAPOptimizations (footer_document [23]) (fresh_page False False))) = 1"
    by (simp add: init_loaded(2) [OF l] b z)
  have e: "filter is_timeline
       (animations (snd (initGSAPOptimizations (footer_document []) (fresh_page False False)))) = []"
    using init_loaded(3) [OF l, of "footer_document []"] a by (simp add: z)
  from a e c footer_document_stats [of "[]"] b d show ?thesis by blast
qed

text \<open>The sample page: three headings, one of them selected twice, each tokenized once.\<close>

lemma first_run_splits:
  "splitCalls (snd (initOptimizedTextAnimations (footer_document []) (fresh_page False False))) = [1, 2, 22]"
  by (simp add: text_animations_split fade_and_logos_fields flatMap_query_def headingSelectors_def
      footer_document_def heading_step_def truthy_def fresh_page_def addWillChange_elements
      and_then_def Let_def)

theorem text_animation_idempotent_witness:
  "splitCalls (snd (initOptimizedTextAnimations (footer_document [])
      (snd (initOptimizedTextAnimations (footer_document []) (fresh_page False False))))) = [1, 2, 22]"
  using text_animation_idempotent [of "footer_document []" "fresh_page False False"]
  by (simp only: first_run_splits)

text \<open>A step that does nothing can be left out of a loop.\<close>

lemma forEach_skip:
  assumes "\<And>w. f c w = (None, w)"
  shows "forEach f (cs @ c # ds) w = forEach f (cs @ ds) w"
proof (induction cs arbitrary: w)
  case Nil
  show ?case by (simp add: assms and_then_None)
next
  case (Cons x cs)
  have "forEach f (cs @ c # ds) = forEach f (cs @ ds)"
    by (rule ext) (rule Cons.IH)
  then show ?case by simp
qed

text \<open>
  The groups of \<open>initOptimizedImageAnimations\<close>: for a selector that matches nothing,
  the loop body returns with the page unchanged (nothing registered, nothing logged,
  no exception), and the loop gives the same result as the loop over the list without
  that selector. \<open>createOptimizedScrollTrigger\<close> itself returns at once on an empty list.
\<close>

theorem empty_image_group_skipped:
  assumes "querySelectorAll doc (ic_selector c) = []" and "querySelectorAll doc selector = []"
  shows "createOptimizedScrollTrigger [] fromVars toVars triggerProps w = (None, w)
       \<and> image_config_step doc c w = (None, w)
       \<and> image_wrapper_step doc selector w = (None, w)
       \<and> forEach (image_config_step doc) (cs @ c # ds) w
           = forEach (image_config_step doc) (cs @ ds) w
       \<and> forEach (image_wrapper_step doc) (ss @ selector # ts) w
           = forEach (image_wrapper_step doc) (ss @ ts) w"
proof -
  have c: "image_config_step doc c v = (None, v)" for v
    using assms(1) by (simp add: image_config_step_def)
  have s: "image_wrapper_step doc selector v = (None, v)" for v
    using assms(2) by (simp add: image_wrapper_step_def)
  have t: "createOptimizedScrollTrigger [] fromVars toVars triggerProps w = (None, w)"
    by (simp add: createOptimizedScrollTrigger_def)
  from t c s forEach_skip [of "image_config_step doc" c cs ds w, OF c]
    forEach_skip [of "image_wrapper_step doc" selector ss ts w, OF s]
  show ?thesis by blast
qed

text \<open>On the sample page no image selector matches; the first config can be left out.\<close>

theorem empty_image_group_skipped_witness:
  "querySelectorAll (footer_document []) (ic_selector (hd imageConfigs)) = []
   \<and> querySelectorAll (footer_document []) (hd imageWrapperSelectors) = []
   \<and> forEach (image_config_step (footer_document [])) ([] @ hd imageConfigs # tl imageConfigs)
        (fresh_page False False)
      = forEach (image_config_step (footer_document [])) ([] @ tl imageConfigs) (fresh_page False False)"
proof -
  have a: "querySelectorAll (footer_document []) (ic_selector (hd imageConfigs)) = []"
    and b: "querySelectorAll (footer_document []) (hd imageWrapperSelectors) = []"
    by (simp_all add: imageConfigs_def imageWrapperSelectors_def footer_document_def)
  from a b empty_image_group_skipped [OF a b, of _ _ _ "fresh_page False False" "[]" "tl imageConfigs"]
  show ?thesis by blast
qed


lemma forEach_skip_all:
  assumes "\<And>x w. f x w = (None, w)"
  shows "forEach f xs w = (None, w)"
  by (induction xs) (simp_all add: assms and_then_None)

text \<open>
  On a document in which no selector of the orchestrator matches anything, each of the
  four setup functions returns with the page unchanged, and \<open>initGSAPOptimizations\<close>
  only registers the plugin, sets the defaults and refreshes: no animation, no hint,
  no warning, no exception.
\<close>

theorem no_match_no_animation:
  assumes "\<And>selector. querySelectorAll doc selector = []"
    and "\<not> gsap_undefined w" "\<not> scrollTrigger_undefined w"
  shows "initOptimizedImageAnimations doc w = (None, w)
       \<and> initOptimizedTextAnimations doc w = (None, w)
       \<and> initOptimizedFooterAnimation doc w = (None, w)
       \<and> initOptimizedStatsAnimation doc w = (None, w)
       \<and> initGSAPOptimizations doc w =
           (None, w\<lparr>pluginRegistered := True,
                    gsapDefaults := Some [(''ease'', ''power2.out''), (''duration'', ''0.8'')],
                    refreshes := refreshes w + 1\<rparr>)"
proof -
  have c: "image_config_step doc x v = (None, v)" for x v
    by (simp add: image_config_step_def assms(1))
  have s: "image_wrapper_step doc x v = (None, v)" for x v
    by (simp add: image_wrapper_step_def assms(1))
  have img: "initOptimizedImageAnimations doc v = (None, v)" for v
    by (simp add: initOptimizedImageAnimations_def assms(1) and_then_None
        forEach_skip_all [of "image_config_step doc", OF c]
        forEach_skip_all [of "image_wrapper_step doc", OF s])
  have q: "flatMap_query doc sels = []" for sels
    by (simp add: flatMap_query_def assms(1))
  have tx: "initOptimizedTextAnimations doc v = (None, v)" for v
    by (simp add: initOptimizedTextAnimations_def q and_then_None)
  have ftr: "initOptimizedFooterAnimation doc v = (None, v)" for v
    by (simp add: initOptimizedFooterAnimation_def querySelector_def assms(1))
  have sts: "initOptimizedStatsAnimation doc v = (None, v)" for v
    by (simp add: initOptimizedStatsAnimation_def assms(1))
  have "initGSAPOptimizations doc w =
           (None, w\<lparr>pluginRegistered := True,
                    gsapDefaults := Some [(''ease'', ''power2.out''), (''duration'', ''0.8'')],
                    refreshes := refreshes w + 1\<rparr>)"
    using assms(2,3)
    by (simp add: initGSAPOptimizations_def Let_def img tx ftr sts and_then_None)
  with img tx ftr sts show ?thesis by blast
qed

text \<open>The empty document.\<close>

theorem no_match_no_animation_witness:
  "querySelectorAll empty_document ''.footer'' = []
   \<and> \<not> gsap_undefined (fresh_page False False)
   \<and> \<not> scrollTrigger_undefined (fresh_page False False)
   \<and> fst (initGSAPOptimizations empty_document (fresh_page False False)) = None
   \<and> animations (snd (initGSAPOptimizations empty_document (fresh_page False False))) = []
   \<and> warnings (snd (initGSAPOptimizations empty_document (fresh_page False False))) = []
   \<and> refreshes (snd (initGSAPOptimizations empty_document (fresh_page False False))) = 1"
proof -
  have e: "querySelectorAll empty_document selector = []" for selector
    by (simp add: empty_document_def)
  have l: "\<not> gsap_undefined (fresh_page False False)"
    "\<not> scrollTrigger_undefined (fresh_page False False)"
    by (simp_all add: fresh_page_def)
  have z: "animations (fresh_page False False) = []" "warnings (fresh_page False False) = []"
    "refreshes (fresh_page False False) = 0"
    by (simp_all add: fresh_page_def)
  from no_match_no_animation [of empty_document "fresh_page False False", OF e l]
  have "initGSAPOptimizations empty_document (fresh_page False False) =
      (None, (fresh_page False False)\<lparr>pluginRegistered := True,
         gsapDefaults := Some [(''ease'', ''power2.out''), (''duration'', ''0.8'')],
         refreshes := refreshes (fresh_page False False) + 1\<rparr>)"
    by blast
  with e [of "''.footer''"] l z show ?thesis by simp
qed


end
